theory Spec2Isabelle
  imports Complex_Main
begin

section \<open>Hide 'n' Seek server: the room state machine of the refactored server.js\<close>

text \<open>
  The embedding follows the refactored server (the file with the \<^verbatim>\<open>Player\<close> and
  \<^verbatim>\<open>Room\<close> classes). Conventions:
  \<^item> \<^verbatim>\<open>this.players\<close> is a JavaScript object keyed by socket id. Socket ids are
    non-numeric strings, so \<^verbatim>\<open>Object.values\<close> enumerates in insertion order: the
    model is the list of players in join order, looked up by id.
  \<^item> Methods mutate \<^verbatim>\<open>this\<close>; the model passes the room and returns the new one,
    together with the list of messages the method sends, in order.
  \<^item> \<^verbatim>\<open>throw new Error(..)\<close> is the left injection of a sum.
  \<^item> \<^verbatim>\<open>Date.now()\<close> is the argument \<open>now\<close> (milliseconds, an integer).
  \<^item> \<^verbatim>\<open>Math.floor(Math.random() * n)\<close> is \<open>rnd mod n\<close> for a draw \<open>rnd\<close> given as
    an argument; it ranges over the same indices \<open>0..n-1\<close>.
  \<^item> A timer handle field holds \<open>None\<close> for \<^verbatim>\<open>null\<close> and \<open>Some d\<close> for a handle
    created with delay or period \<open>d\<close> milliseconds.
  \<^item> JavaScript numbers are modelled exactly: integers as \<open>int\<close>, the one quotient
    \<^verbatim>\<open>timeRemainingMs / totalPlaysLeft\<close> as a rational.
\<close>

subsection \<open>Constants\<close>

definition MIN_PLAYERS_TO_START :: int where "MIN_PLAYERS_TO_START = 2"
definition DEFAULT_SEEK_TIME_LIMIT_S :: int where "DEFAULT_SEEK_TIME_LIMIT_S = 120"
definition MIN_SEEK_TIME_LIMIT_S :: int where "MIN_SEEK_TIME_LIMIT_S = 15"
definition MAX_SEEK_TIME_LIMIT_S :: int where "MAX_SEEK_TIME_LIMIT_S = 600"
definition DEFAULT_SOUND_PLAYS_PER_PLAYER :: int where "DEFAULT_SOUND_PLAYS_PER_PLAYER = 6"
definition MIN_SOUND_PLAYS :: int where "MIN_SOUND_PLAYS = 1"
definition MAX_SOUND_PLAYS :: int where "MAX_SOUND_PLAYS = 20"
definition PRE_SEEK_COUNTDOWN_S :: int where "PRE_SEEK_COUNTDOWN_S = 10"
definition MIN_SOUND_DELAY_MS :: rat where "MIN_SOUND_DELAY_MS = 1000"
definition CHECK_INTERVAL_WHEN_NO_SOUNDS_MS :: rat where "CHECK_INTERVAL_WHEN_NO_SOUNDS_MS = 1500"

datatype game_state = Waiting | Hiding | Seeking | GameOver

datatype player_role = Hider | Seeker

datatype winner_type = WinnerHider | WinnerSeekers

definition BASE_ANIMAL_SOUNDS :: "string list" where
  "BASE_ANIMAL_SOUNDS =
     [''/sounds/cat.mp3'', ''/sounds/chicken.mp3'', ''/sounds/cow.mp3'', ''/sounds/dog.mp3'',
      ''/sounds/donkey.mp3'', ''/sounds/horse.mp3'', ''/sounds/sheep.mp3'', ''/sounds/bird.mp3'']"

definition BASE_UNFOUND_SOUNDS :: "string list" where
  "BASE_UNFOUND_SOUNDS =
     [''/sounds/unfound1.mp3'', ''/sounds/unfound2.mp3'', ''/sounds/unfound3.mp3'',
      ''/sounds/unfound4.mp3'', ''/sounds/unfound5.mp3'', ''/sounds/unfound6.mp3'',
      ''/sounds/unfound7.mp3'', ''/sounds/unfound8.mp3'']"

definition NUM_UNIQUE_SOUND_PAIRS :: int where
  "NUM_UNIQUE_SOUND_PAIRS = min (int (length BASE_ANIMAL_SOUNDS)) (int (length BASE_UNFOUND_SOUNDS))"

subsection \<open>JavaScript primitives used by the code\<close>

text \<open>The remainder operator \<^verbatim>\<open>%\<close>: the sign follows the dividend.\<close>

definition js_rem :: "int \<Rightarrow> int \<Rightarrow> int" where
  "js_rem a b = sgn a * (\<bar>a\<bar> mod \<bar>b\<bar>)"

text \<open>Array indexing \<^verbatim>\<open>xs[i]\<close>: \<^verbatim>\<open>undefined\<close> (here \<open>None\<close>) out of range.\<close>

definition js_index :: "'a list \<Rightarrow> int \<Rightarrow> 'a option" where
  "js_index xs i = (if 0 \<le> i \<and> i < int (length xs) then Some (xs ! nat i) else None)"

text \<open>Truthiness of a sound URL: \<^verbatim>\<open>null\<close>, \<^verbatim>\<open>undefined\<close> and the empty string are falsy.\<close>

definition truthy :: "string option \<Rightarrow> bool" where
  "truthy u = (case u of None \<Rightarrow> False | Some s \<Rightarrow> s \<noteq> [])"

subsection \<open>Player\<close>

record player =
  playerId :: string
  number :: int
  role :: player_role
  isReady :: bool
  isFound :: bool
  soundsPlayed :: int
  uniqueAnimalSoundURL :: "string option"
  uniqueUnfoundSoundURL :: "string option"

definition newPlayer :: "string \<Rightarrow> int \<Rightarrow> player_role \<Rightarrow> player" where
  "newPlayer i n rl =
     \<lparr>playerId = i, number = n, role = rl, isReady = False, isFound = False,
      soundsPlayed = 0, uniqueAnimalSoundURL = None, uniqueUnfoundSoundURL = None\<rparr>"

definition player_resetForNewGame :: "player \<Rightarrow> player" where
  "player_resetForNewGame p = p\<lparr>isReady := False, isFound := False, soundsPlayed := 0\<rparr>"

definition resetForSeeking :: "player \<Rightarrow> player" where
  "resetForSeeking p = p\<lparr>isReady := False, soundsPlayed := 0\<rparr>"

record client_player =
  cp_id :: string
  cp_number :: int
  cp_role :: player_role
  cp_isReady :: bool
  cp_isFound :: bool
  cp_uniqueAnimalSoundURL :: "string option"
  cp_uniqueUnfoundSoundURL :: "string option"

definition player_getClientState :: "player \<Rightarrow> client_player" where
  "player_getClientState p =
     \<lparr>cp_id = playerId p, cp_number = number p, cp_role = role p, cp_isReady = isReady p,
      cp_isFound = isFound p, cp_uniqueAnimalSoundURL = uniqueAnimalSoundURL p,
      cp_uniqueUnfoundSoundURL = uniqueUnfoundSoundURL p\<rparr>"

subsection \<open>Room\<close>

record room =
  roomCode :: string
  players :: "player list"
  gameState :: game_state
  seekTimeLimit :: int
  soundPlaysPerPlayer :: int
  seekTimerInterval :: "int option"
  seekStartTime :: "int option"
  winner :: "winner_type option"
  preSeekCountdownInterval :: "int option"
  preSeekCountdownValue :: int
  soundRotationTimeout :: "rat option"
  nextPlayerIndexToPlay :: nat
  assignedAnimalSounds :: "string option set"
  assignedUnfoundSounds :: "string option set"
  unfoundPlayerQueue :: "string list"
  activeUnfoundPlayerId :: "string option"

definition newRoom :: "string \<Rightarrow> room" where
  "newRoom code =
     \<lparr>roomCode = code, players = [], gameState = Waiting,
      seekTimeLimit = DEFAULT_SEEK_TIME_LIMIT_S,
      soundPlaysPerPlayer = DEFAULT_SOUND_PLAYS_PER_PLAYER,
      seekTimerInterval = None, seekStartTime = None, winner = None,
      preSeekCountdownInterval = None, preSeekCountdownValue = PRE_SEEK_COUNTDOWN_S,
      soundRotationTimeout = None, nextPlayerIndexToPlay = 0,
      assignedAnimalSounds = {}, assignedUnfoundSounds = {},
      unfoundPlayerQueue = [], activeUnfoundPlayerId = None\<rparr>"

record client_state =
  cs_roomCode :: string
  cs_players :: "client_player list"
  cs_gameState :: game_state
  cs_seekTimeLimit :: int
  cs_soundPlaysPerPlayer :: int
  cs_seekStartTime :: "int option"
  cs_winner :: "winner_type option"
  cs_activeUnfoundPlayerId :: "string option"

definition getClientState :: "room \<Rightarrow> client_state" where
  "getClientState r =
     \<lparr>cs_roomCode = roomCode r, cs_players = map player_getClientState (players r),
      cs_gameState = gameState r, cs_seekTimeLimit = seekTimeLimit r,
      cs_soundPlaysPerPlayer = soundPlaysPerPlayer r, cs_seekStartTime = seekStartTime r,
      cs_winner = winner r, cs_activeUnfoundPlayerId = activeUnfoundPlayerId r\<rparr>"

text \<open>Errors thrown by the room and by the socket handlers, one constructor per message.\<close>

datatype error =
    CannotJoinStarted
  | CannotJoinAlreadyInRoom
  | InvalidTimeLimit
  | InvalidSoundsPerPhone
  | NotInWaitingState
  | NeedMorePlayers
  | PlayerNotFound
  | NotInHidingPhase
  | CannotMarkFound game_state
  | GameNotOverYet
  | NotInARoom
  | OnlyHiderSettings
  | SettingsOnlyWhileWaiting
  | OnlyHiderStart
  | RoomNotFound

text \<open>
  Messages sent through Socket.IO: broadcasts to the room (\<open>UpdateState\<close>,
  \<open>PreSeekCountdown\<close>, \<open>PlayVictoryMelody\<close>) and messages to one socket
  (\<open>PlaySound\<close>, \<open>BecomeActiveUnfound\<close>, \<open>ErrorMsg\<close>), whose first argument is the
  receiving socket id.
\<close>

datatype emit =
    UpdateState client_state
  | PreSeekCountdown int
  | PlayVictoryMelody
  | PlaySound string "string option"
  | BecomeActiveUnfound string "string option"
  | ErrorMsg string error

definition broadcastUpdateState :: "room \<Rightarrow> emit list" where
  "broadcastUpdateState r = [UpdateState (getClientState r)]"

definition getPlayer :: "room \<Rightarrow> string \<Rightarrow> player option" where
  "getPlayer r socketId = find (\<lambda>p. playerId p = socketId) (players r)"

definition getPlayerCount :: "room \<Rightarrow> int" where
  "getPlayerCount r = int (length (players r))"

definition isEmpty :: "room \<Rightarrow> bool" where
  "isEmpty r = (length (players r) = 0)"

text \<open>
  A method that mutates a \<^verbatim>\<open>Player\<close> object reached through the room changes the
  entry of \<^verbatim>\<open>this.players\<close> with that id.
\<close>

definition updatePlayer :: "string \<Rightarrow> (player \<Rightarrow> player) \<Rightarrow> player list \<Rightarrow> player list" where
  "updatePlayer socketId f ps = map (\<lambda>p. if playerId p = socketId then f p else p) ps"

text \<open>\<^verbatim>\<open>Object.values(this.players).sort((a, b) => a.number - b.number)\<close>: a stable sort.\<close>

definition sortedPlayers :: "player list \<Rightarrow> player list" where
  "sortedPlayers ps = sort_key number ps"

definition clearGameIntervals :: "room \<Rightarrow> room" where
  "clearGameIntervals r =
     r\<lparr>preSeekCountdownInterval := None, seekTimerInterval := None,
       soundRotationTimeout := None, nextPlayerIndexToPlay := 0\<rparr>"

definition promoteNewHider :: "room \<Rightarrow> room" where
  "promoteNewHider r =
     (case sortedPlayers (players r) of
        [] \<Rightarrow> r
      | p0 # _ \<Rightarrow> r\<lparr>players := updatePlayer (playerId p0) (\<lambda>p. p\<lparr>role := Hider\<rparr>) (players r)\<rparr>)"

subsection \<open>Sound assignment\<close>

definition assignUniqueSounds :: "nat \<Rightarrow> nat \<Rightarrow> room \<Rightarrow> player \<Rightarrow> room \<times> player" where
  "assignUniqueSounds rndA rndU r p =
     (if NUM_UNIQUE_SOUND_PAIRS > 0 then
        (let availableAnimal = filter (\<lambda>s. Some s \<notin> assignedAnimalSounds r) BASE_ANIMAL_SOUNDS;
             animalSoundURL =
               (if length availableAnimal > 0
                then Some (availableAnimal ! (rndA mod length availableAnimal))
                else js_index BASE_ANIMAL_SOUNDS (js_rem (number p - 1) NUM_UNIQUE_SOUND_PAIRS));
             availableUnfound = filter (\<lambda>s. Some s \<notin> assignedUnfoundSounds r) BASE_UNFOUND_SOUNDS;
             unfoundSoundURL =
               (if length availableUnfound > 0
                then Some (availableUnfound ! (rndU mod length availableUnfound))
                else js_index BASE_UNFOUND_SOUNDS (js_rem (number p - 1) NUM_UNIQUE_SOUND_PAIRS))
         in (r\<lparr>assignedAnimalSounds := insert animalSoundURL (assignedAnimalSounds r),
               assignedUnfoundSounds := insert unfoundSoundURL (assignedUnfoundSounds r)\<rparr>,
             p\<lparr>uniqueAnimalSoundURL := animalSoundURL, uniqueUnfoundSoundURL := unfoundSoundURL\<rparr>))
      else (r, p\<lparr>uniqueAnimalSoundURL := None, uniqueUnfoundSoundURL := None\<rparr>))"

definition addPlayer :: "string \<Rightarrow> nat \<Rightarrow> nat \<Rightarrow> room \<Rightarrow> error + (player \<times> room \<times> emit list)" where
  "addPlayer socketId rndA rndU r =
     (if gameState r \<noteq> Waiting then Inl CannotJoinStarted
      else if getPlayer r socketId \<noteq> None then Inl CannotJoinAlreadyInRoom
      else
        (let playerNumber = int (length (players r)) + 1;
             rl = (if playerNumber = 1 then Hider else Seeker);
             (r1, p) = assignUniqueSounds rndA rndU r (newPlayer socketId playerNumber rl);
             r2 = r1\<lparr>players := players r1 @ [p]\<rparr>
         in Inr (p, r2, broadcastUpdateState r2)))"

subsection \<open>Ending the game and the reveal sequence\<close>

function activateNextUnfoundPlayer :: "room \<Rightarrow> room \<times> emit list" where
  "activateNextUnfoundPlayer r =
     (if gameState r \<noteq> GameOver then (r, [])
      else
        (case unfoundPlayerQueue r of
           [] \<Rightarrow>
             (let r1 = r\<lparr>activeUnfoundPlayerId := None\<rparr> in (r1, broadcastUpdateState r1))
         | nextPlayerId # rest \<Rightarrow>
             (let r2 = r\<lparr>unfoundPlayerQueue := rest, activeUnfoundPlayerId := Some nextPlayerId\<rparr>
              in case getPlayer r2 nextPlayerId of
                   None \<Rightarrow> activateNextUnfoundPlayer r2
                 | Some p \<Rightarrow>
                     if truthy (uniqueUnfoundSoundURL p)
                     then (r2, BecomeActiveUnfound nextPlayerId (uniqueUnfoundSoundURL p)
                                 # broadcastUpdateState r2)
                     else activateNextUnfoundPlayer r2)))"
  by pat_completeness auto
termination
  by (relation "measure (\<lambda>r. length (unfoundPlayerQueue r))") auto

definition startGameOverReveal :: "room \<Rightarrow> room \<times> emit list" where
  "startGameOverReveal r =
     (if winner r \<noteq> Some WinnerHider then (r, [])
      else activateNextUnfoundPlayer
             (r\<lparr>unfoundPlayerQueue :=
                  map playerId (sortedPlayers (filter (\<lambda>p. \<not> isFound p) (players r)))\<rparr>))"

definition endGame :: "winner_type \<Rightarrow> room \<Rightarrow> room \<times> emit list" where
  "endGame w r =
     (if gameState r = GameOver then (r, [])
      else
        (let r1 = (clearGameIntervals r)\<lparr>gameState := GameOver, winner := Some w\<rparr>
         in case w of
              WinnerHider \<Rightarrow> startGameOverReveal r1
            | WinnerSeekers \<Rightarrow> (r1, PlayVictoryMelody # broadcastUpdateState r1)))"

definition checkSeekerWin :: "room \<Rightarrow> bool \<times> room \<times> emit list" where
  "checkSeekerWin r =
     (if gameState r \<noteq> Seeking then (False, r, [])
      else if list_all isFound (players r)
      then (let (r1, es) = endGame WinnerSeekers r in (True, r1, es))
      else (False, r, []))"

definition markPlayerFound :: "string \<Rightarrow> room \<Rightarrow> error + (room \<times> emit list)" where
  "markPlayerFound socketId r =
     (case getPlayer r socketId of
        None \<Rightarrow> Inl PlayerNotFound
      | Some player \<Rightarrow>
          if isFound player then Inr (r, [])
          else if gameState r \<noteq> Seeking
                  \<and> \<not> (gameState r = GameOver \<and> winner r = Some WinnerHider)
          then Inl (CannotMarkFound (gameState r))
          else
            (let r1 = r\<lparr>players := updatePlayer socketId (\<lambda>p. p\<lparr>isFound := True\<rparr>) (players r)\<rparr>
             in if gameState r1 = Seeking then
                  (let (won, r2, es) = checkSeekerWin r1
                   in if \<not> won then Inr (r2, es @ broadcastUpdateState r2) else Inr (r2, es))
                else if gameState r1 = GameOver then
                  (if Some socketId = activeUnfoundPlayerId r1
                   then Inr (activateNextUnfoundPlayer r1)
                   else
                     (let r2 = r1\<lparr>unfoundPlayerQueue := remove1 socketId (unfoundPlayerQueue r1)\<rparr>
                      in Inr (r2, broadcastUpdateState r2)))
                else Inr (r1, [])))"

subsection \<open>Timers of the Hiding and Seeking phases\<close>

definition startPreSeekCountdown :: "room \<Rightarrow> room \<times> emit list" where
  "startPreSeekCountdown r =
     (if preSeekCountdownInterval r \<noteq> None then (r, [])
      else (r\<lparr>preSeekCountdownValue := PRE_SEEK_COUNTDOWN_S,
              preSeekCountdownInterval := Some 1000\<rparr>,
            [PreSeekCountdown PRE_SEEK_COUNTDOWN_S]))"

definition startSeekTimer :: "room \<Rightarrow> room" where
  "startSeekTimer r =
     (if seekTimerInterval r \<noteq> None then r else r\<lparr>seekTimerInterval := Some 1000\<rparr>)"

definition startSeekingPhase :: "int \<Rightarrow> room \<Rightarrow> room \<times> emit list" where
  "startSeekingPhase now r =
     (if gameState r = Seeking then (r, [])
      else
        (let r1 = r\<lparr>gameState := Seeking, seekStartTime := Some now, nextPlayerIndexToPlay := 0,
                    players := map resetForSeeking (players r)\<rparr>;
             r2 = startSeekTimer r1;
             r3 = r2\<lparr>soundRotationTimeout := Some MIN_SOUND_DELAY_MS\<rparr>
         in (r3, broadcastUpdateState r3)))"

text \<open>
  The callback of the countdown interval. \<open>current\<close> says whether
  \<^verbatim>\<open>activeRooms[this.roomCode]\<close> is still this room.
\<close>

definition preSeekCountdownTick :: "bool \<Rightarrow> int \<Rightarrow> room \<Rightarrow> room \<times> emit list" where
  "preSeekCountdownTick current now r =
     (if \<not> current then (r\<lparr>preSeekCountdownInterval := None\<rparr>, [])
      else
        (let r1 = r\<lparr>preSeekCountdownValue := preSeekCountdownValue r - 1\<rparr>;
             es = [PreSeekCountdown (preSeekCountdownValue r1)]
         in if preSeekCountdownValue r1 \<le> 0
            then (let (r2, es2) = startSeekingPhase now (r1\<lparr>preSeekCountdownInterval := None\<rparr>)
                  in (r2, es @ es2))
            else (r1, es)))"

text \<open>
  The callback of the seek-deadline interval. \<^verbatim>\<open>Date.now() - this.seekStartTime\<close>
  reads a \<^verbatim>\<open>null\<close> start time as 0; \<^verbatim>\<open>elapsedMs / 1000 >= limit\<close> is compared
  as \<open>elapsedMs \<ge> limit * 1000\<close>.
\<close>

definition startTimeMs :: "room \<Rightarrow> int" where
  "startTimeMs r = (case seekStartTime r of None \<Rightarrow> 0 | Some t \<Rightarrow> t)"

definition seekTimerTick :: "bool \<Rightarrow> int \<Rightarrow> room \<Rightarrow> room \<times> emit list" where
  "seekTimerTick current now r =
     (if \<not> current then (r\<lparr>seekTimerInterval := None\<rparr>, [])
      else if gameState r = Seeking then
        (if now - startTimeMs r \<ge> seekTimeLimit r * 1000 then endGame WinnerHider r else (r, []))
      else (r\<lparr>seekTimerInterval := None\<rparr>, []))"

subsection \<open>The sound rotation\<close>

definition eligiblePlayers :: "room \<Rightarrow> player list" where
  "eligiblePlayers r =
     filter (\<lambda>p. \<not> isFound p \<and> soundsPlayed p < soundPlaysPerPlayer r)
       (sortedPlayers (players r))"

definition totalPlaysLeft :: "room \<Rightarrow> int" where
  "totalPlaysLeft r =
     foldl (\<lambda>sum p. sum + (soundPlaysPerPlayer r - soundsPlayed p)) 0 (eligiblePlayers r)"

definition timeRemainingMs :: "int \<Rightarrow> room \<Rightarrow> int" where
  "timeRemainingMs now r = max 0 (seekTimeLimit r * 1000 - (now - startTimeMs r))"

definition scheduleNextSound :: "int \<Rightarrow> room \<Rightarrow> room \<times> emit list" where
  "scheduleNextSound now r =
     (if gameState r \<noteq> Seeking then (r\<lparr>soundRotationTimeout := None\<rparr>, [])
      else if timeRemainingMs now r \<le> 0 then (r\<lparr>soundRotationTimeout := None\<rparr>, [])
      else
        (let eligible = eligiblePlayers r in
         if length eligible > 0 then
           (if totalPlaysLeft r > 0 then
              (let dynamicDelayMs =
                     max MIN_SOUND_DELAY_MS
                       (rat_of_int (timeRemainingMs now r) / rat_of_int (totalPlaysLeft r));
                   nextEligiblePlayerIndex = nextPlayerIndexToPlay r mod length eligible;
                   playerToPlay = eligible ! nextEligiblePlayerIndex;
                   r1 = r\<lparr>nextPlayerIndexToPlay := nextEligiblePlayerIndex + 1\<rparr>
               in if truthy (uniqueAnimalSoundURL playerToPlay)
                  then (r1\<lparr>players := updatePlayer (playerId playerToPlay)
                                         (\<lambda>p. p\<lparr>soundsPlayed := soundsPlayed p + 1\<rparr>) (players r1),
                            soundRotationTimeout := Some dynamicDelayMs\<rparr>,
                        [PlaySound (playerId playerToPlay) (uniqueAnimalSoundURL playerToPlay)])
                  else (r1\<lparr>soundRotationTimeout := Some dynamicDelayMs\<rparr>, []))
            else (r\<lparr>soundRotationTimeout := Some CHECK_INTERVAL_WHEN_NO_SOUNDS_MS\<rparr>, []))
         else (r\<lparr>soundRotationTimeout := Some CHECK_INTERVAL_WHEN_NO_SOUNDS_MS\<rparr>, [])))"

text \<open>
  The callback that \<^verbatim>\<open>scheduleNextSound\<close> itself installs checks that the room is
  still registered; the first one, installed by \<^verbatim>\<open>startSeekingPhase\<close>, does not.
\<close>

definition soundRotationTimeoutFired :: "bool \<Rightarrow> int \<Rightarrow> room \<Rightarrow> room \<times> emit list" where
  "soundRotationTimeoutFired current now r =
     (if current then scheduleNextSound now r else (r, []))"

subsection \<open>Settings, Hiding phase, removal, play again\<close>

text \<open>
  A field of the settings object after \<^verbatim>\<open>parseInt(.., 10)\<close>: absent
  (\<^verbatim>\<open>undefined\<close>, also when the object itself is missing), present with an integer
  value, or present and parsed to \<^verbatim>\<open>NaN\<close>.
\<close>

datatype setting_value = Absent | Parsed int | NotANumber

record settings =
  settings_seekTimeLimit :: setting_value
  settings_soundPlaysPerPlayer :: setting_value

text \<open>
  \<^verbatim>\<open>updateSettings\<close> can throw after it has assigned \<^verbatim>\<open>this.seekTimeLimit\<close>, so
  the error carries the room as the throw leaves it.
\<close>

definition updateSettings :: "settings \<Rightarrow> room \<Rightarrow> (error \<times> room) + (room \<times> emit list)" where
  "updateSettings st r =
     (let step1 =
            (case settings_seekTimeLimit st of
               Parsed newTimeLimit \<Rightarrow>
                 if newTimeLimit \<ge> MIN_SEEK_TIME_LIMIT_S \<and> newTimeLimit \<le> MAX_SEEK_TIME_LIMIT_S
                 then (if seekTimeLimit r \<noteq> newTimeLimit
                       then Inr (r\<lparr>seekTimeLimit := newTimeLimit\<rparr>, True)
                       else Inr (r, False))
                 else Inl (InvalidTimeLimit, r)
             | NotANumber \<Rightarrow> Inl (InvalidTimeLimit, r)
             | Absent \<Rightarrow> Inr (r, False))
      in case step1 of
           Inl e \<Rightarrow> Inl e
         | Inr (r1, updated1) \<Rightarrow>
             (let step2 =
                    (case settings_soundPlaysPerPlayer st of
                       Parsed newSoundPlays \<Rightarrow>
                         if newSoundPlays \<ge> MIN_SOUND_PLAYS \<and> newSoundPlays \<le> MAX_SOUND_PLAYS
                         then (if soundPlaysPerPlayer r1 \<noteq> newSoundPlays
                               then Inr (r1\<lparr>soundPlaysPerPlayer := newSoundPlays\<rparr>, True)
                               else Inr (r1, updated1))
                         else Inl (InvalidSoundsPerPhone, r1)
                     | NotANumber \<Rightarrow> Inl (InvalidSoundsPerPhone, r1)
                     | Absent \<Rightarrow> Inr (r1, updated1))
              in case step2 of
                   Inl e \<Rightarrow> Inl e
                 | Inr (r2, updated) \<Rightarrow>
                     Inr (r2, if updated then broadcastUpdateState r2 else [])))"

definition startHidingPhase :: "room \<Rightarrow> error + (room \<times> emit list)" where
  "startHidingPhase r =
     (if gameState r \<noteq> Waiting then Inl NotInWaitingState
      else if getPlayerCount r < MIN_PLAYERS_TO_START then Inl NeedMorePlayers
      else
        (let r1 = r\<lparr>gameState := Hiding, players := map player_resetForNewGame (players r)\<rparr>;
             r2 = (clearGameIntervals r1)\<lparr>winner := None, seekStartTime := None\<rparr>
         in Inr (r2, broadcastUpdateState r2)))"

definition checkAllRemainingReady :: "room \<Rightarrow> bool" where
  "checkAllRemainingReady r = (if isEmpty r then False else list_all isReady (players r))"

definition confirmPlayerHidden :: "string \<Rightarrow> room \<Rightarrow> error + (room \<times> emit list)" where
  "confirmPlayerHidden socketId r =
     (case getPlayer r socketId of
        None \<Rightarrow> Inl PlayerNotFound
      | Some player \<Rightarrow>
          if gameState r \<noteq> Hiding then Inl NotInHidingPhase
          else if isReady player then Inr (r, [])
          else
            (let r1 = r\<lparr>players := updatePlayer socketId (\<lambda>p. p\<lparr>isReady := True\<rparr>) (players r)\<rparr>
             in if checkAllRemainingReady r1
                then (let (r2, es) = startPreSeekCountdown r1
                      in Inr (r2, broadcastUpdateState r1 @ es))
                else Inr (r1, broadcastUpdateState r1)))"

text \<open>The result is the flag "the room is now empty and must be deleted".\<close>

definition removePlayer :: "string \<Rightarrow> room \<Rightarrow> bool \<times> room \<times> emit list" where
  "removePlayer socketId r =
     (case getPlayer r socketId of
        None \<Rightarrow> (False, r, [])
      | Some disconnectedPlayer \<Rightarrow>
          (let wasHider = (role disconnectedPlayer = Hider);
               wasActiveUnfound = (Some socketId = activeUnfoundPlayerId r);
               wasInSeeking = (gameState r = Seeking);
               wasInHiding = (gameState r = Hiding);
               wasInGameOverReveal = (gameState r = GameOver \<and> winner r = Some WinnerHider);
               r1 = r\<lparr>assignedAnimalSounds :=
                          (if truthy (uniqueAnimalSoundURL disconnectedPlayer)
                           then assignedAnimalSounds r - {uniqueAnimalSoundURL disconnectedPlayer}
                           else assignedAnimalSounds r),
                        assignedUnfoundSounds :=
                          (if truthy (uniqueUnfoundSoundURL disconnectedPlayer)
                           then assignedUnfoundSounds r - {uniqueUnfoundSoundURL disconnectedPlayer}
                           else assignedUnfoundSounds r),
                        players := filter (\<lambda>p. playerId p \<noteq> socketId) (players r)\<rparr>
           in if isEmpty r1 then (True, clearGameIntervals r1, [])
              else if gameState r1 = Waiting then
                (let r2 = (if wasHider then promoteNewHider r1 else r1)
                 in (False, r2, broadcastUpdateState r2))
              else if wasInHiding then
                (if checkAllRemainingReady r1 \<and> preSeekCountdownInterval r1 = None
                 then (let (r2, es) = startPreSeekCountdown r1 in (False, r2, es))
                 else (False, r1, broadcastUpdateState r1))
              else if wasInSeeking then
                (if wasHider
                 then (let (r2, es) = endGame WinnerSeekers r1 in (False, r2, es))
                 else (let (won, r2, es) = checkSeekerWin r1
                       in if \<not> won then (False, r2, es @ broadcastUpdateState r2)
                          else (False, r2, es)))
              else if wasInGameOverReveal then
                (let r2 = r1\<lparr>unfoundPlayerQueue := remove1 socketId (unfoundPlayerQueue r1)\<rparr>
                 in if wasActiveUnfound
                    then (let (r3, es) = activateNextUnfoundPlayer r2 in (False, r3, es))
                    else (False, r2, broadcastUpdateState r2))
              else (False, r1, broadcastUpdateState r1)))"

text \<open>
  \<^verbatim>\<open>resetForNewGame\<close> resets and re-assigns each player in turn; player number \<open>k\<close>
  of the loop (from 0) uses the draws \<open>rnd (2k)\<close> and \<open>rnd (2k+1)\<close>.
\<close>

fun reassignAll :: "(nat \<Rightarrow> nat) \<Rightarrow> nat \<Rightarrow> room \<Rightarrow> player list \<Rightarrow> room \<times> player list" where
  "reassignAll rnd k r [] = (r, [])"
| "reassignAll rnd k r (p # ps) =
     (let (r1, p1) = assignUniqueSounds (rnd k) (rnd (k + 1)) r (player_resetForNewGame p);
          (r2, ps1) = reassignAll rnd (k + 2) r1 ps
      in (r2, p1 # ps1))"

definition resetForNewGame :: "(nat \<Rightarrow> nat) \<Rightarrow> room \<Rightarrow> room \<times> emit list" where
  "resetForNewGame rnd r =
     (let r1 = (clearGameIntervals (r\<lparr>gameState := Waiting, winner := None\<rparr>))
                 \<lparr>seekStartTime := None, activeUnfoundPlayerId := None, unfoundPlayerQueue := [],
                  assignedAnimalSounds := {}, assignedUnfoundSounds := {}\<rparr>;
          (r2, ps) = reassignAll rnd 0 r1 (players r1);
          r3 = r2\<lparr>players := ps\<rparr>
      in (r3, broadcastUpdateState r3))"

definition requestPlayAgain :: "string \<Rightarrow> (nat \<Rightarrow> nat) \<Rightarrow> room \<Rightarrow> error + (room \<times> emit list)" where
  "requestPlayAgain socketId rnd r =
     (if gameState r \<noteq> GameOver then Inl GameNotOverYet
      else case getPlayer r socketId of
             None \<Rightarrow> Inl PlayerNotFound
           | Some player \<Rightarrow> Inr (resetForNewGame rnd r))"

subsection \<open>Socket handlers, seen from one room\<close>

text \<open>
  \<^verbatim>\<open>findRoomBySocketId\<close> returns this room exactly when the socket id is a key of
  \<^verbatim>\<open>this.players\<close>; a handler whose socket is in no room reports
  \<open>NotInARoom\<close> and touches nothing. Each handler returns the room and the messages
  sent, those of the \<^verbatim>\<open>catch\<close> block included.
\<close>

definition createRoom :: "string \<Rightarrow> string \<Rightarrow> nat \<Rightarrow> nat \<Rightarrow> error + (player \<times> room \<times> emit list)" where
  "createRoom code socketId rndA rndU = addPlayer socketId rndA rndU (newRoom code)"

definition on_joinRoom :: "string \<Rightarrow> nat \<Rightarrow> nat \<Rightarrow> room \<Rightarrow> room \<times> emit list" where
  "on_joinRoom socketId rndA rndU r =
     (case addPlayer socketId rndA rndU r of
        Inl e \<Rightarrow> (r, [ErrorMsg socketId e])
      | Inr (p, r1, es) \<Rightarrow> (r1, es))"

definition on_updateSettings :: "string \<Rightarrow> settings \<Rightarrow> room \<Rightarrow> room \<times> emit list" where
  "on_updateSettings socketId st r =
     (case getPlayer r socketId of
        None \<Rightarrow> (r, [ErrorMsg socketId NotInARoom])
      | Some player \<Rightarrow>
          if role player \<noteq> Hider then (r, [ErrorMsg socketId OnlyHiderSettings])
          else if gameState r \<noteq> Waiting then (r, [ErrorMsg socketId SettingsOnlyWhileWaiting])
          else (case updateSettings st r of
                  Inl (e, r1) \<Rightarrow> (r1, [ErrorMsg socketId e])
                | Inr (r1, es) \<Rightarrow> (r1, es)))"

definition on_startHiding :: "string \<Rightarrow> room \<Rightarrow> room \<times> emit list" where
  "on_startHiding socketId r =
     (case getPlayer r socketId of
        None \<Rightarrow> (r, [ErrorMsg socketId NotInARoom])
      | Some player \<Rightarrow>
          if role player \<noteq> Hider then (r, [ErrorMsg socketId OnlyHiderStart])
          else (case startHidingPhase r of
                  Inl e \<Rightarrow> (r, [ErrorMsg socketId e])
                | Inr (r1, es) \<Rightarrow> (r1, es)))"

text \<open>The next two handlers log a failure and send nothing to the client.\<close>

definition on_confirmHidden :: "string \<Rightarrow> room \<Rightarrow> room \<times> emit list" where
  "on_confirmHidden socketId r =
     (case getPlayer r socketId of
        None \<Rightarrow> (r, [])
      | Some player \<Rightarrow>
          (case confirmPlayerHidden socketId r of
             Inl e \<Rightarrow> (r, [])
           | Inr (r1, es) \<Rightarrow> (r1, es)))"

definition on_markSelfFound :: "string \<Rightarrow> room \<Rightarrow> room \<times> emit list" where
  "on_markSelfFound socketId r =
     (case getPlayer r socketId of
        None \<Rightarrow> (r, [])
      | Some player \<Rightarrow>
          (case markPlayerFound socketId r of
             Inl e \<Rightarrow> (r, [])
           | Inr (r1, es) \<Rightarrow> (r1, es)))"

definition on_requestPlayAgain :: "string \<Rightarrow> (nat \<Rightarrow> nat) \<Rightarrow> room \<Rightarrow> room \<times> emit list" where
  "on_requestPlayAgain socketId rnd r =
     (case getPlayer r socketId of
        None \<Rightarrow> (r, [ErrorMsg socketId NotInARoom])
      | Some player \<Rightarrow>
          (case requestPlayAgain socketId rnd r of
             Inl e \<Rightarrow> (r, [ErrorMsg socketId e])
           | Inr (r1, es) \<Rightarrow> (r1, es)))"

text \<open>
  \<^verbatim>\<open>handleDisconnect\<close> (also run by \<^verbatim>\<open>leaveRoom\<close>): \<open>None\<close> is the room deleted
  from \<^verbatim>\<open>activeRooms\<close>.
\<close>

definition handleDisconnect :: "string \<Rightarrow> room \<Rightarrow> room option \<times> emit list" where
  "handleDisconnect socketId r =
     (case getPlayer r socketId of
        None \<Rightarrow> (Some r, [])
      | Some player \<Rightarrow>
          (let (shouldDeleteRoom, r1, es) = removePlayer socketId r
           in if shouldDeleteRoom then (None, es) else (Some r1, es)))"

subsection \<open>The room as a transition system\<close>

text \<open>
  An event is a client message handled for some socket, or the firing of one of the
  room's timers at some clock value. A timer fires only while its handle field is set;
  the room is registered for as long as it exists, so the callbacks see it as current.
\<close>

datatype event =
    JoinRoom string nat nat
  | Disconnect string
  | UpdateSettings string settings
  | StartHiding string
  | ConfirmHidden string
  | MarkSelfFound string
  | RequestPlayAgain string "nat \<Rightarrow> nat"
  | CountdownTick int
  | SeekTimerTick int
  | SoundTimeout int

fun step :: "event \<Rightarrow> room \<Rightarrow> room option \<times> emit list" where
  "step (JoinRoom s a u) r = (let (r1, es) = on_joinRoom s a u r in (Some r1, es))"
| "step (Disconnect s) r = handleDisconnect s r"
| "step (UpdateSettings s st) r = (let (r1, es) = on_updateSettings s st r in (Some r1, es))"
| "step (StartHiding s) r = (let (r1, es) = on_startHiding s r in (Some r1, es))"
| "step (ConfirmHidden s) r = (let (r1, es) = on_confirmHidden s r in (Some r1, es))"
| "step (MarkSelfFound s) r = (let (r1, es) = on_markSelfFound s r in (Some r1, es))"
| "step (RequestPlayAgain s rnd) r = (let (r1, es) = on_requestPlayAgain s rnd r in (Some r1, es))"
| "step (CountdownTick now) r =
     (if preSeekCountdownInterval r = None then (Some r, [])
      else (let (r1, es) = preSeekCountdownTick True now r in (Some r1, es)))"
| "step (SeekTimerTick now) r =
     (if seekTimerInterval r = None then (Some r, [])
      else (let (r1, es) = seekTimerTick True now r in (Some r1, es)))"
| "step (SoundTimeout now) r =
     (if soundRotationTimeout r = None then (Some r, [])
      else (let (r1, es) = soundRotationTimeoutFired True now r in (Some r1, es)))"

text \<open>Running a list of events; the run stops when the room is deleted.\<close>

fun run :: "event list \<Rightarrow> room \<Rightarrow> room option" where
  "run [] r = Some r"
| "run (e # es) r = (case fst (step e r) of None \<Rightarrow> None | Some r1 \<Rightarrow> run es r1)"

text \<open>
  The reachable states of a room: the room as \<^verbatim>\<open>createRoom\<close> leaves it, and every
  state an event leads to from a reachable one.
\<close>

inductive reachable :: "room \<Rightarrow> bool" where
  created: "createRoom code socketId rndA rndU = Inr (p, r, es) \<Longrightarrow> reachable r"
| stepped: "reachable r \<Longrightarrow> fst (step e r) = Some r1 \<Longrightarrow> reachable r1"

definition hiders :: "room \<Rightarrow> player list" where
  "hiders r = filter (\<lambda>p. role p = Hider) (players r)"

section \<open>Example rooms\<close>

text \<open>
  Concrete rooms reached by running the handlers, used to instantiate the theorems below:
  a room created by socket \<open>s1\<close> and joined by \<open>s2\<close>, then taken through the phases.
\<close>

definition exampleWaiting :: room where
  "exampleWaiting =
     fst (on_joinRoom ''s2'' 0 0 (fst (on_joinRoom ''s1'' 0 0 (newRoom ''ABCDE''))))"

definition exampleHiding :: room where
  "exampleHiding = fst (on_startHiding ''s1'' exampleWaiting)"

definition exampleCountdown :: room where
  "exampleCountdown = fst (on_confirmHidden ''s2'' (fst (on_confirmHidden ''s1'' exampleHiding)))"

definition exampleSeeking :: room where
  "exampleSeeking =
     foldl (\<lambda>r now. fst (preSeekCountdownTick True now r)) exampleCountdown
       [1000, 2000, 3000, 4000, 5000, 6000, 7000, 8000, 9000, 10000]"

definition exampleHiderWon :: room where
  "exampleHiderWon = fst (seekTimerTick True 130000 exampleSeeking)"

definition exampleSeekersWon :: room where
  "exampleSeekersWon =
     fst (on_markSelfFound ''s2'' (fst (on_markSelfFound ''s1'' exampleSeeking)))"

definition exampleOneFound :: room where
  "exampleOneFound = fst (on_markSelfFound ''s1'' exampleSeeking)"

definition exampleTwoCues :: room where
  "exampleTwoCues = foldl (\<lambda>r now. fst (scheduleNextSound now r)) exampleSeeking [11000, 20000]"

definition exampleAllPlayed :: room where
  "exampleAllPlayed =
     foldl (\<lambda>r now. fst (scheduleNextSound now r)) exampleTwoCues
       [29000, 38000, 47000, 56000, 65000, 74000, 83000, 92000, 101000, 110000]"

definition exampleNoSound :: room where
  "exampleNoSound =
     exampleSeeking\<lparr>players := updatePlayer ''s1'' (\<lambda>p. p\<lparr>uniqueAnimalSoundURL := None\<rparr>)
                                 (players exampleSeeking)\<rparr>"

definition wasReset :: "player \<Rightarrow> bool" where
  "wasReset p = (\<not> isReady p \<and> \<not> isFound p \<and> soundsPlayed p = 0)"

subsection \<open>Invariants of the reachable rooms\<close>

text \<open>
  The basic invariant: a registered room has a player, socket ids are not repeated, and
  the countdown interval exists only during Hiding.
\<close>

definition inv_base :: "room \<Rightarrow> bool" where
  "inv_base r =
     (players r \<noteq> [] \<and> distinct (map playerId (players r))
      \<and> (preSeekCountdownInterval r \<noteq> None \<longrightarrow> gameState r = Hiding))"

text \<open>The quota invariant: the setting stays in its range, and no count exceeds it during Seeking.\<close>

definition inv_quota :: "room \<Rightarrow> bool" where
  "inv_quota r =
     (MIN_SOUND_PLAYS \<le> soundPlaysPerPlayer r \<and> soundPlaysPerPlayer r \<le> MAX_SOUND_PLAYS
      \<and> (gameState r = Seeking \<longrightarrow>
            (\<forall>p\<in>set (players r). soundsPlayed p \<le> soundPlaysPerPlayer r)))"

text \<open>The room right after \<open>removePlayer\<close> has freed the sounds and deleted the player.\<close>

definition playerDeleted :: "string \<Rightarrow> player \<Rightarrow> room \<Rightarrow> room" where
  "playerDeleted socketId disconnectedPlayer r =
     r\<lparr>assignedAnimalSounds :=
          (if truthy (uniqueAnimalSoundURL disconnectedPlayer)
           then assignedAnimalSounds r - {uniqueAnimalSoundURL disconnectedPlayer}
           else assignedAnimalSounds r),
        assignedUnfoundSounds :=
          (if truthy (uniqueUnfoundSoundURL disconnectedPlayer)
           then assignedUnfoundSounds r - {uniqueUnfoundSoundURL disconnectedPlayer}
           else assignedUnfoundSounds r),
        players := filter (\<lambda>p. playerId p \<noteq> socketId) (players r)\<rparr>"

text \<open>The event removes the player holding the Hider role while a game is in progress.\<close>

definition hiderLeavesMidGame :: "event \<Rightarrow> room \<Rightarrow> bool" where
  "hiderLeavesMidGame e r =
     (case e of
        Disconnect s \<Rightarrow>
          (case getPlayer r s of
             Some p \<Rightarrow> role p = Hider \<and> gameState r \<noteq> Waiting
           | None \<Rightarrow> False)
      | _ \<Rightarrow> False)"

definition exampleHiderLeftSeeking :: room where
  "exampleHiderLeftSeeking = fst (snd (removePlayer ''s1'' exampleSeeking))"

definition exampleHiderLeftHiding :: room where
  "exampleHiderLeftHiding = fst (snd (removePlayer ''s1'' exampleHiding))"

definition exampleHiderLeftWaiting :: room where
  "exampleHiderLeftWaiting = fst (snd (removePlayer ''s1'' exampleWaiting))"

text \<open>The reveal invariant: the ids of the players present and not found, and what the
  queue and the active id must satisfy with respect to them.\<close>

definition unfoundIds :: "room \<Rightarrow> string set" where
  "unfoundIds r = set (map playerId (filter (\<lambda>p. \<not> isFound p) (players r)))"

definition reveal_ok :: "room \<Rightarrow> bool" where
  "reveal_ok r =
     (distinct (unfoundPlayerQueue r)
      \<and> set (unfoundPlayerQueue r) \<subseteq> unfoundIds r
      \<and> (case activeUnfoundPlayerId r of
            None \<Rightarrow> True
          | Some a \<Rightarrow> a \<notin> set (unfoundPlayerQueue r) \<and> a \<in> unfoundIds r))"

definition inv_reveal :: "room \<Rightarrow> bool" where
  "inv_reveal r =
     (reveal_ok r
      \<and> (gameState r = GameOver \<and> winner r = Some WinnerHider
           \<or> unfoundPlayerQueue r = [] \<and> activeUnfoundPlayerId r = None))"

text \<open>What claim C8 asks of a room: \<open>i\<close> is the id of a player present and not found;
  the queue holds only such ids and no id of a found player; the active id, if any, is
  such an id and is no longer queued.\<close>

definition unfoundMember :: "room \<Rightarrow> string \<Rightarrow> bool" where
  "unfoundMember r i = (case getPlayer r i of None \<Rightarrow> False | Some p \<Rightarrow> \<not> isFound p)"

definition revealConsistent :: "room \<Rightarrow> bool" where
  "revealConsistent r =
     ((\<forall>i\<in>set (unfoundPlayerQueue r). unfoundMember r i)
      \<and> (\<forall>p\<in>set (players r). isFound p \<longrightarrow> playerId p \<notin> set (unfoundPlayerQueue r))
      \<and> (case activeUnfoundPlayerId r of
            None \<Rightarrow> True
          | Some a \<Rightarrow> unfoundMember r a \<and> a \<notin> set (unfoundPlayerQueue r)))"

section \<open>Frame lemmas\<close>

declare activateNextUnfoundPlayer.simps [simp del]

lemma activateNext_frame:
  "fst (activateNextUnfoundPlayer r) =
     r\<lparr>unfoundPlayerQueue := unfoundPlayerQueue (fst (activateNextUnfoundPlayer r)),
       activeUnfoundPlayerId := activeUnfoundPlayerId (fst (activateNextUnfoundPlayer r))\<rparr>"
proof (induction r rule: activateNextUnfoundPlayer.induct)
  case (1 r)
  show ?case
  proof (cases "gameState r \<noteq> GameOver")
    case True
    then have "activateNextUnfoundPlayer r = (r, [])"
      by (subst activateNextUnfoundPlayer.simps) simp
    then show ?thesis by simp
  next
    case go: False
    show ?thesis
    proof (cases "unfoundPlayerQueue r")
      case Nil
      with go have "activateNextUnfoundPlayer r =
          (r\<lparr>activeUnfoundPlayerId := None\<rparr>, broadcastUpdateState (r\<lparr>activeUnfoundPlayerId := None\<rparr>))"
        by (subst activateNextUnfoundPlayer.simps) (simp add: Let_def)
      with Nil show ?thesis by simp
    next
      case (Cons n rest)
      let ?r2 = "r\<lparr>unfoundPlayerQueue := rest, activeUnfoundPlayerId := Some n\<rparr>"
      show ?thesis
      proof (cases "\<exists>p. getPlayer ?r2 n = Some p \<and> truthy (uniqueUnfoundSoundURL p)")
        case True
        then obtain p where "getPlayer ?r2 n = Some p" "truthy (uniqueUnfoundSoundURL p)" by blast
        with go Cons have "fst (activateNextUnfoundPlayer r) = ?r2"
          by (subst activateNextUnfoundPlayer.simps) (simp add: Let_def)
        then show ?thesis by simp
      next
        case False
        with go Cons have eq: "activateNextUnfoundPlayer r = activateNextUnfoundPlayer ?r2"
          by (subst activateNextUnfoundPlayer.simps) (auto simp add: Let_def split: option.splits)
        have "fst (activateNextUnfoundPlayer ?r2) =
           ?r2\<lparr>unfoundPlayerQueue := unfoundPlayerQueue (fst (activateNextUnfoundPlayer ?r2)),
             activeUnfoundPlayerId := activeUnfoundPlayerId (fst (activateNextUnfoundPlayer ?r2))\<rparr>"
        proof (cases "getPlayer ?r2 n")
          case None
          from "1.IH"(1)[OF go Cons refl None] show ?thesis .
        next
          case (Some p)
          with False have "\<not> truthy (uniqueUnfoundSoundURL p)" by simp
          from "1.IH"(2)[OF go Cons refl Some this] show ?thesis .
        qed
        then show ?thesis unfolding eq by simp
      qed
    qed
  qed
qed

lemma activateNext_fields:
  "players (fst (activateNextUnfoundPlayer r)) = players r"
  "gameState (fst (activateNextUnfoundPlayer r)) = gameState r"
  "winner (fst (activateNextUnfoundPlayer r)) = winner r"
  "soundPlaysPerPlayer (fst (activateNextUnfoundPlayer r)) = soundPlaysPerPlayer r"
  by (subst activateNext_frame, simp)+

lemma activateNext_playersD:
  "activateNextUnfoundPlayer r = (r1, es) \<Longrightarrow> players r1 = players r"
  using activateNext_fields(1)[of r] by simp

lemma endGame_GameOver: "gameState r \<noteq> GameOver \<Longrightarrow> gameState (fst (endGame w r)) = GameOver"
  by (cases w)
     (simp_all add: endGame_def startGameOverReveal_def Let_def activateNext_fields
        clearGameIntervals_def)

lemma endGame_winner: "gameState r \<noteq> GameOver \<Longrightarrow> winner (fst (endGame w r)) = Some w"
  by (cases w)
     (simp_all add: endGame_def startGameOverReveal_def Let_def activateNext_fields
        clearGameIntervals_def)

lemma endGame_players: "players (fst (endGame w r)) = players r"
  by (cases w)
     (simp_all add: endGame_def startGameOverReveal_def Let_def activateNext_fields
        clearGameIntervals_def)

lemma find_updatePlayer:
  "(\<And>p. playerId (f p) = playerId p) \<Longrightarrow>
   find (\<lambda>p. playerId p = s) (updatePlayer s f ps) = map_option f (find (\<lambda>p. playerId p = s) ps)"
  by (induction ps) (simp_all add: updatePlayer_def)

lemma checkSeekerWin_players: "players (fst (snd (checkSeekerWin r))) = players r"
  by (simp add: checkSeekerWin_def split_beta endGame_players)

lemma checkSeekerWin_playersD: "snd (checkSeekerWin r) = (r1, es) \<Longrightarrow> players r1 = players r"
  using checkSeekerWin_players[of r] by simp

section \<open>Idempotence of confirm-hidden and mark-found\<close>

lemma confirm_twice:
  assumes "confirmPlayerHidden s r = Inr (r1, es)"
  shows "confirmPlayerHidden s r1 = Inr (r1, [])"
proof -
  from assms obtain p where p: "getPlayer r s = Some p" and h: "gameState r = Hiding"
    by (auto simp: confirmPlayerHidden_def split: option.splits if_splits)
  show ?thesis
  proof (cases "isReady p")
    case True
    with assms p h have "r1 = r" by (simp add: confirmPlayerHidden_def)
    with True p h show ?thesis by (simp add: confirmPlayerHidden_def)
  next
    case False
    let ?ra = "r\<lparr>players := updatePlayer s (\<lambda>p. p\<lparr>isReady := True\<rparr>) (players r)\<rparr>"
    from assms p h False have "players r1 = players ?ra \<and> gameState r1 = Hiding"
      by (auto simp: confirmPlayerHidden_def Let_def startPreSeekCountdown_def split: if_splits)
    moreover have "getPlayer ?ra s = Some (p\<lparr>isReady := True\<rparr>)"
      using p by (simp add: getPlayer_def find_updatePlayer)
    ultimately show ?thesis
      by (simp add: confirmPlayerHidden_def getPlayer_def)
  qed
qed

lemma markFound_twice:
  assumes "markPlayerFound s r = Inr (r1, es)"
  shows "markPlayerFound s r1 = Inr (r1, [])"
proof -
  from assms obtain p where p: "getPlayer r s = Some p"
    by (auto simp: markPlayerFound_def split: option.splits)
  show ?thesis
  proof (cases "isFound p")
    case True
    with assms p have "r1 = r" by (simp add: markPlayerFound_def)
    with True p show ?thesis by (simp add: markPlayerFound_def)
  next
    case False
    let ?ra = "r\<lparr>players := updatePlayer s (\<lambda>p. p\<lparr>isFound := True\<rparr>) (players r)\<rparr>"
    from assms p False have "players r1 = players ?ra"
      by (auto simp: markPlayerFound_def Let_def split_beta checkSeekerWin_players
               dest: checkSeekerWin_playersD activateNext_playersD split: if_splits)
    moreover have "getPlayer ?ra s = Some (p\<lparr>isFound := True\<rparr>)"
      using p by (simp add: getPlayer_def find_updatePlayer)
    ultimately show ?thesis
      by (simp add: markPlayerFound_def getPlayer_def)
  qed
qed

lemma confirm_succeeds:
  "getPlayer r s \<noteq> None \<Longrightarrow> gameState r = Hiding \<Longrightarrow>
   \<exists>r1 es. confirmPlayerHidden s r = Inr (r1, es)"
  by (auto simp add: confirmPlayerHidden_def Let_def split_beta)

lemma markFound_succeeds:
  "getPlayer r s \<noteq> None \<Longrightarrow>
   gameState r = Seeking \<or> (gameState r = GameOver \<and> winner r = Some WinnerHider) \<Longrightarrow>
   \<exists>r1 es. markPlayerFound s r = Inr (r1, es)"
  by (auto simp add: markPlayerFound_def Let_def split_beta intro: prod.exhaust)

text \<open>
  Claim C7. For a member of the room, confirm-hidden during Hiding succeeds, and calling
  it again on the resulting room returns without error, leaves the whole room (hence the
  state the clients observe) as the first call left it, and sends nothing. The same holds
  for mark-found during Seeking, or during GameOver after a Hider win.
\<close>

theorem c7_confirm_hidden_and_mark_found_idempotent:
  "(getPlayer rH s \<noteq> None \<and> gameState rH = Hiding \<longrightarrow>
      (case confirmPlayerHidden s rH of
         Inl e \<Rightarrow> False
       | Inr (r1, es) \<Rightarrow> confirmPlayerHidden s r1 = Inr (r1, [])))
   \<and> (getPlayer rS s' \<noteq> None
        \<and> (gameState rS = Seeking \<or> (gameState rS = GameOver \<and> winner rS = Some WinnerHider)) \<longrightarrow>
      (case markPlayerFound s' rS of
         Inl e \<Rightarrow> False
       | Inr (r1, es) \<Rightarrow> markPlayerFound s' r1 = Inr (r1, [])))"
proof (intro conjI impI)
  assume "getPlayer rH s \<noteq> None \<and> gameState rH = Hiding"
  then obtain r1 es where "confirmPlayerHidden s rH = Inr (r1, es)"
    using confirm_succeeds by blast
  then show "case confirmPlayerHidden s rH of
         Inl e \<Rightarrow> False
       | Inr (r1, es) \<Rightarrow> confirmPlayerHidden s r1 = Inr (r1, [])"
    using confirm_twice by simp
next
  assume "getPlayer rS s' \<noteq> None
        \<and> (gameState rS = Seeking \<or> (gameState rS = GameOver \<and> winner rS = Some WinnerHider))"
  then obtain r1 es where "markPlayerFound s' rS = Inr (r1, es)"
    using markFound_succeeds by blast
  then show "case markPlayerFound s' rS of
         Inl e \<Rightarrow> False
       | Inr (r1, es) \<Rightarrow> markPlayerFound s' r1 = Inr (r1, [])"
    using markFound_twice by simp
qed

theorem c7_witness:
  "getPlayer exampleHiding ''s1'' \<noteq> None \<and> gameState exampleHiding = Hiding
   \<and> (case confirmPlayerHidden ''s1'' exampleHiding of
         Inl e \<Rightarrow> False
       | Inr (r1, es) \<Rightarrow> confirmPlayerHidden ''s1'' r1 = Inr (r1, []))
   \<and> getPlayer exampleHiderWon ''s2'' \<noteq> None
   \<and> gameState exampleHiderWon = GameOver \<and> winner exampleHiderWon = Some WinnerHider
   \<and> (case markPlayerFound ''s2'' exampleHiderWon of
         Inl e \<Rightarrow> False
       | Inr (r1, es) \<Rightarrow> markPlayerFound ''s2'' r1 = Inr (r1, []))"
proof -
  have h1: "getPlayer exampleHiding ''s1'' \<noteq> None" by code_simp
  have h2: "gameState exampleHiding = Hiding" by code_simp
  have h3: "getPlayer exampleHiderWon ''s2'' \<noteq> None" by code_simp
  have h4: "gameState exampleHiderWon = GameOver" by code_simp
  have h5: "winner exampleHiderWon = Some WinnerHider" by code_simp
  from c7_confirm_hidden_and_mark_found_idempotent
         [of exampleHiding "''s1''" exampleHiderWon "''s2''"] h1 h2 h3 h4 h5
  show ?thesis by blast
qed

section \<open>The Hider leaving during Seeking\<close>

text \<open>
  Claim C10. When the player removed has role Hider, the room is in Seeking and at least
  one other player remains, \<open>removePlayer\<close> does not ask for the room to be deleted,
  leaves it in GameOver with the Seekers as winner, and the remaining players are exactly
  the former ones without the removed player, roles unchanged: nobody is promoted.
\<close>

theorem c10_hider_leaves_while_seeking:
  assumes "gameState r = Seeking"
    and "getPlayer r socketId = Some p"
    and "role p = Hider"
    and "filter (\<lambda>q. playerId q \<noteq> socketId) (players r) \<noteq> []"
  shows "fst (removePlayer socketId r) = False
       \<and> gameState (fst (snd (removePlayer socketId r))) = GameOver
       \<and> winner (fst (snd (removePlayer socketId r))) = Some WinnerSeekers
       \<and> players (fst (snd (removePlayer socketId r)))
           = filter (\<lambda>q. playerId q \<noteq> socketId) (players r)"
  using assms
  by (simp add: removePlayer_def Let_def isEmpty_def split_beta endGame_GameOver endGame_winner
        endGame_players)

theorem c10_witness:
  "gameState exampleSeeking = Seeking
   \<and> map_option role (getPlayer exampleSeeking ''s1'') = Some Hider
   \<and> filter (\<lambda>q. playerId q \<noteq> ''s1'') (players exampleSeeking) \<noteq> []
   \<and> fst (removePlayer ''s1'' exampleSeeking) = False
   \<and> gameState (fst (snd (removePlayer ''s1'' exampleSeeking))) = GameOver
   \<and> winner (fst (snd (removePlayer ''s1'' exampleSeeking))) = Some WinnerSeekers
   \<and> map role (players (fst (snd (removePlayer ''s1'' exampleSeeking)))) = [Seeker]"
proof -
  have h1: "gameState exampleSeeking = Seeking" by code_simp
  have h2: "getPlayer exampleSeeking ''s1'' = Some (hd (players exampleSeeking))" by code_simp
  have h3: "role (hd (players exampleSeeking)) = Hider" by code_simp
  have h4: "filter (\<lambda>q. playerId q \<noteq> ''s1'') (players exampleSeeking) \<noteq> []" by code_simp
  have h5: "map role (filter (\<lambda>q. playerId q \<noteq> ''s1'') (players exampleSeeking)) = [Seeker]"
    by code_simp
  from c10_hider_leaves_while_seeking[OF h1 h2 h3 h4] h1 h2 h3 h4 h5
  show ?thesis by simp
qed

lemma list_all_updatePlayer_found:
  "\<forall>q\<in>set ps. playerId q \<noteq> s \<longrightarrow> isFound q \<Longrightarrow>
   list_all isFound (updatePlayer s (\<lambda>p. p\<lparr>isFound := True\<rparr>) ps)"
  by (induction ps) (simp_all add: updatePlayer_def)

lemma endGame_noop: "gameState r = GameOver \<Longrightarrow> endGame w r = (r, [])"
  by (simp add: endGame_def)

lemma markFound_last:
  assumes "gameState r = Seeking" "getPlayer r s = Some p" "\<not> isFound p"
    and "\<forall>q\<in>set (players r). playerId q \<noteq> s \<longrightarrow> isFound q"
  shows "\<exists>es. markPlayerFound s r =
           Inr (fst (endGame WinnerSeekers (r\<lparr>players := updatePlayer s (\<lambda>p. p\<lparr>isFound := True\<rparr>) (players r)\<rparr>)), es)"
  using assms
  by (simp add: markPlayerFound_def Let_def checkSeekerWin_def split_beta list_all_updatePlayer_found)
     (metis prod.collapse)

lemma markFound_keeps_result:
  assumes "gameState r = GameOver" "markPlayerFound s r = Inr (r1, es)"
  shows "gameState r1 = GameOver \<and> winner r1 = winner r"
  using assms activateNext_fields(2,3)[of "r\<lparr>players := updatePlayer s (\<lambda>p. p\<lparr>isFound := True\<rparr>) (players r)\<rparr>"]
  by (auto simp: markPlayerFound_def Let_def split: option.splits if_splits)

section \<open>The two ways a Seeking game ends\<close>

text \<open>
  Claim C3. (1) In Seeking, a tick of the deadline interval that sees at least
  \<open>seekTimeLimit\<close> seconds elapsed leaves the room in GameOver, won by the Hider.
  (2) In Seeking, marking found the only player not yet found leaves the room in GameOver,
  won by the Seekers, in the same call. (3) On a room already in GameOver both ending
  paths do nothing: \<open>endGame\<close> returns the room as it is and sends nothing,
  \<open>checkSeekerWin\<close> reports no win, a late deadline tick only clears its own handle,
  and a later found-mark changes neither the phase nor the winner; so the first path to
  fire decides the winner.
\<close>

theorem c3_deadline_and_all_found_end_the_game:
  "(gameState rA = Seeking \<and> now - startTimeMs rA \<ge> seekTimeLimit rA * 1000 \<longrightarrow>
      gameState (fst (seekTimerTick True now rA)) = GameOver
      \<and> winner (fst (seekTimerTick True now rA)) = Some WinnerHider)
   \<and> (gameState rB = Seeking \<and> getPlayer rB s = Some p \<and> \<not> isFound p
        \<and> (\<forall>q\<in>set (players rB). playerId q \<noteq> s \<longrightarrow> isFound q) \<longrightarrow>
      (case markPlayerFound s rB of
         Inl e \<Rightarrow> False
       | Inr (r1, es) \<Rightarrow> gameState r1 = GameOver \<and> winner r1 = Some WinnerSeekers
                          \<and> list_all isFound (players r1)))
   \<and> (gameState rC = GameOver \<longrightarrow>
        endGame w rC = (rC, [])
        \<and> checkSeekerWin rC = (False, rC, [])
        \<and> seekTimerTick True now' rC = (rC\<lparr>seekTimerInterval := None\<rparr>, [])
        \<and> (case markPlayerFound s' rC of
              Inl e \<Rightarrow> True
            | Inr (r1, es) \<Rightarrow> gameState r1 = GameOver \<and> winner r1 = winner rC))"
proof (intro conjI impI)
  assume a: "gameState rA = Seeking \<and> now - startTimeMs rA \<ge> seekTimeLimit rA * 1000"
  then show "gameState (fst (seekTimerTick True now rA)) = GameOver"
    by (simp add: seekTimerTick_def endGame_GameOver)
  from a show "winner (fst (seekTimerTick True now rA)) = Some WinnerHider"
    by (simp add: seekTimerTick_def endGame_winner)
next
  assume b: "gameState rB = Seeking \<and> getPlayer rB s = Some p \<and> \<not> isFound p
        \<and> (\<forall>q\<in>set (players rB). playerId q \<noteq> s \<longrightarrow> isFound q)"
  let ?ra = "rB\<lparr>players := updatePlayer s (\<lambda>p. p\<lparr>isFound := True\<rparr>) (players rB)\<rparr>"
  from b obtain es where m: "markPlayerFound s rB = Inr (fst (endGame WinnerSeekers ?ra), es)"
    using markFound_last by blast
  from b have "gameState ?ra \<noteq> GameOver" by simp
  then have "gameState (fst (endGame WinnerSeekers ?ra)) = GameOver"
    and "winner (fst (endGame WinnerSeekers ?ra)) = Some WinnerSeekers"
    by (rule endGame_GameOver, rule endGame_winner)
  moreover from b have "list_all isFound (players (fst (endGame WinnerSeekers ?ra)))"
    by (simp add: endGame_players list_all_updatePlayer_found)
  ultimately show "case markPlayerFound s rB of
         Inl e \<Rightarrow> False
       | Inr (r1, es) \<Rightarrow> gameState r1 = GameOver \<and> winner r1 = Some WinnerSeekers
                          \<and> list_all isFound (players r1)"
    by (simp add: m)
next
  assume c: "gameState rC = GameOver"
  then show "endGame w rC = (rC, [])" by (rule endGame_noop)
  from c show "checkSeekerWin rC = (False, rC, [])" by (simp add: checkSeekerWin_def)
  from c show "seekTimerTick True now' rC = (rC\<lparr>seekTimerInterval := None\<rparr>, [])"
    by (simp add: seekTimerTick_def)
  from c show "case markPlayerFound s' rC of
              Inl e \<Rightarrow> True
            | Inr (r1, es) \<Rightarrow> gameState r1 = GameOver \<and> winner r1 = winner rC"
    using markFound_keeps_result[of rC s'] by (auto split: sum.splits)
qed

theorem c3_witness:
  "gameState exampleSeeking = Seeking
   \<and> 130000 - startTimeMs exampleSeeking \<ge> seekTimeLimit exampleSeeking * 1000
   \<and> gameState (fst (seekTimerTick True 130000 exampleSeeking)) = GameOver
   \<and> winner (fst (seekTimerTick True 130000 exampleSeeking)) = Some WinnerHider
   \<and> gameState exampleOneFound = Seeking
   \<and> map_option isFound (getPlayer exampleOneFound ''s2'') = Some False
   \<and> map (\<lambda>q. (playerId q, isFound q)) (players exampleOneFound)
       = [(''s1'', True), (''s2'', False)]
   \<and> (case markPlayerFound ''s2'' exampleOneFound of
         Inl e \<Rightarrow> False
       | Inr (r1, es) \<Rightarrow> gameState r1 = GameOver \<and> winner r1 = Some WinnerSeekers
                          \<and> list_all isFound (players r1))
   \<and> gameState exampleSeekersWon = GameOver
   \<and> endGame WinnerHider exampleSeekersWon = (exampleSeekersWon, [])
   \<and> checkSeekerWin exampleSeekersWon = (False, exampleSeekersWon, [])
   \<and> seekTimerTick True 131000 exampleSeekersWon
       = (exampleSeekersWon\<lparr>seekTimerInterval := None\<rparr>, [])"
proof -
  have a1: "gameState exampleSeeking = Seeking" by code_simp
  have a2: "130000 - startTimeMs exampleSeeking \<ge> seekTimeLimit exampleSeeking * 1000"
    by code_simp
  have b1: "gameState exampleOneFound = Seeking" by code_simp
  have b2: "getPlayer exampleOneFound ''s2'' = Some (players exampleOneFound ! 1)" by code_simp
  have b3: "\<not> isFound (players exampleOneFound ! 1)" by code_simp
  have b4: "\<forall>q\<in>set (players exampleOneFound). playerId q \<noteq> ''s2'' \<longrightarrow> isFound q"
    by code_simp
  have b5: "map (\<lambda>q. (playerId q, isFound q)) (players exampleOneFound)
              = [(''s1'', True), (''s2'', False)]"
    by code_simp
  have c1: "gameState exampleSeekersWon = GameOver" by code_simp
  from c3_deadline_and_all_found_end_the_game
         [of exampleSeeking 130000 exampleOneFound "''s2''" "players exampleOneFound ! 1"
             exampleSeekersWon WinnerHider 131000 "''s2''"]
       a1 a2 b1 b2 b3 b4 b5 c1
  show ?thesis by simp
qed

section \<open>Rejected actions\<close>

lemma updateSettings_Inl:
  assumes "updateSettings st r = Inl (e, r1)"
  shows "soundPlaysPerPlayer r1 = soundPlaysPerPlayer r \<and> (e = InvalidTimeLimit \<longrightarrow> r1 = r)
         \<and> (e = InvalidTimeLimit \<or> e = InvalidSoundsPerPhone)"
  using assms
  by (auto simp: updateSettings_def Let_def split: setting_value.splits if_splits sum.splits)

lemma updateSettings_frame:
  assumes "updateSettings st r = Inl (e, r1)"
  shows "r1 = r\<lparr>seekTimeLimit := seekTimeLimit r1\<rparr>"
  using assms
  by (auto simp: updateSettings_def Let_def split: setting_value.splits if_splits sum.splits)

lemma updateSettings_bad_time_limit:
  assumes "case settings_seekTimeLimit st of
             Absent \<Rightarrow> False
           | Parsed n \<Rightarrow> n < MIN_SEEK_TIME_LIMIT_S \<or> MAX_SEEK_TIME_LIMIT_S < n
           | NotANumber \<Rightarrow> True"
  shows "updateSettings st r = Inl (InvalidTimeLimit, r)"
  using assms
  by (auto simp: updateSettings_def Let_def split: setting_value.splits)

lemma updateSettings_bad_sound_plays:
  assumes "case settings_seekTimeLimit st of
             Absent \<Rightarrow> True
           | Parsed n \<Rightarrow> MIN_SEEK_TIME_LIMIT_S \<le> n \<and> n \<le> MAX_SEEK_TIME_LIMIT_S
           | NotANumber \<Rightarrow> False"
    and "case settings_soundPlaysPerPlayer st of
             Absent \<Rightarrow> False
           | Parsed n \<Rightarrow> n < MIN_SOUND_PLAYS \<or> MAX_SOUND_PLAYS < n
           | NotANumber \<Rightarrow> True"
  shows "\<exists>r1. updateSettings st r = Inl (InvalidSoundsPerPhone, r1)"
  using assms
  by (auto simp: updateSettings_def Let_def split: setting_value.splits)

text \<open>
  Claim C2, as stated, fails in two places. A \<^verbatim>\<open>confirmHidden\<close> (or
  \<^verbatim>\<open>markSelfFound\<close>) in the wrong phase is rejected, but its handler only logs:
  no error message goes to the requesting connection. And \<^verbatim>\<open>updateSettings\<close>
  with a valid time limit and an invalid number of sound plays throws after it has
  stored the new time limit: in the example room, where the request comes from the Hider
  \<open>s1\<close>, the limit goes from 120 to 100 although the call is rejected with an error.
\<close>

theorem c2_counterexample:
  "confirmPlayerHidden ''s1'' exampleWaiting = Inl NotInHidingPhase
   \<and> on_confirmHidden ''s1'' exampleWaiting = (exampleWaiting, [])
   \<and> seekTimeLimit exampleWaiting = 120
   \<and> (case updateSettings \<lparr>settings_seekTimeLimit = Parsed 100,
                            settings_soundPlaysPerPlayer = Parsed 999\<rparr> exampleWaiting of
         Inl (e, r1) \<Rightarrow> e = InvalidSoundsPerPhone \<and> seekTimeLimit r1 = 100
       | Inr x \<Rightarrow> False)
   \<and> snd (on_updateSettings ''s1'' \<lparr>settings_seekTimeLimit = Parsed 100,
                                      settings_soundPlaysPerPlayer = Parsed 999\<rparr> exampleWaiting)
       = [ErrorMsg ''s1'' InvalidSoundsPerPhone]
   \<and> seekTimeLimit (fst (on_updateSettings ''s1'' \<lparr>settings_seekTimeLimit = Parsed 100,
                                      settings_soundPlaysPerPlayer = Parsed 999\<rparr> exampleWaiting))
       = 100"
  by code_simp

text \<open>
  Claim C2, amended. Every rejection of an action on a room, that is every
  \<^verbatim>\<open>throw\<close> a handler or the room method it calls can reach, is covered:
  \<^item> \<^verbatim>\<open>updateSettings\<close>, \<^verbatim>\<open>startHiding\<close> and \<^verbatim>\<open>requestPlayAgain\<close> from a socket
    that is in no room, \<^verbatim>\<open>updateSettings\<close> and \<^verbatim>\<open>startHiding\<close> from a player who
    is not the Hider, \<^verbatim>\<open>updateSettings\<close> outside Waiting, and any of
    \<^verbatim>\<open>startHidingPhase\<close>, \<^verbatim>\<open>requestPlayAgain\<close>, \<^verbatim>\<open>addPlayer\<close> throwing: the
    handler sends exactly one message, the error, to the requesting socket, and the room
    is unchanged;
  \<^item> the room method \<open>updateSettings\<close> throwing: the handler sends exactly that one
    error to the requesting socket, and the room is as the throw left it, which is the
    room before the call in every field other than \<open>seekTimeLimit\<close>, and in that field
    too when the error is the time-limit error;
  \<^item> \<^verbatim>\<open>confirmHidden\<close> and \<^verbatim>\<open>markSelfFound\<close> rejected: nothing is sent and the
    room is unchanged.

  The last seven conjuncts say when the room methods throw: a time limit that is present
  and not an integer in the range, a number of sound plays that is present and not an
  integer in the range (with an acceptable time limit), and the wrong phase or too few
  players for the action.
\<close>

theorem c2_rejected_actions:
  "(getPlayer r s = None \<longrightarrow>
        on_updateSettings s st r = (r, [ErrorMsg s NotInARoom])
      \<and> on_startHiding s r = (r, [ErrorMsg s NotInARoom])
      \<and> on_requestPlayAgain s rnd r = (r, [ErrorMsg s NotInARoom])
      \<and> on_confirmHidden s r = (r, [])
      \<and> on_markSelfFound s r = (r, []))
   \<and> (getPlayer r s = Some p \<and> role p \<noteq> Hider \<longrightarrow>
        on_updateSettings s st r = (r, [ErrorMsg s OnlyHiderSettings])
      \<and> on_startHiding s r = (r, [ErrorMsg s OnlyHiderStart]))
   \<and> (getPlayer r s = Some p \<and> role p = Hider \<and> gameState r \<noteq> Waiting \<longrightarrow>
        on_updateSettings s st r = (r, [ErrorMsg s SettingsOnlyWhileWaiting]))
   \<and> (getPlayer r s = Some p \<and> role p = Hider \<and> gameState r = Waiting
        \<and> updateSettings st r = Inl (e, r') \<longrightarrow>
        on_updateSettings s st r = (r', [ErrorMsg s e]))
   \<and> (updateSettings st r = Inl (e, r') \<longrightarrow>
        r' = r\<lparr>seekTimeLimit := seekTimeLimit r'\<rparr> \<and> (e = InvalidTimeLimit \<longrightarrow> r' = r))
   \<and> (getPlayer r s = Some p \<and> role p = Hider \<and> startHidingPhase r = Inl e \<longrightarrow>
        on_startHiding s r = (r, [ErrorMsg s e]))
   \<and> (getPlayer r s = Some p \<and> requestPlayAgain s rnd r = Inl e \<longrightarrow>
        on_requestPlayAgain s rnd r = (r, [ErrorMsg s e]))
   \<and> (addPlayer s a u r = Inl e \<longrightarrow> on_joinRoom s a u r = (r, [ErrorMsg s e]))
   \<and> (confirmPlayerHidden s r = Inl e \<longrightarrow> on_confirmHidden s r = (r, []))
   \<and> (markPlayerFound s r = Inl e \<longrightarrow> on_markSelfFound s r = (r, []))
   \<and> ((case settings_seekTimeLimit st of
           Absent \<Rightarrow> False
         | Parsed n \<Rightarrow> n < MIN_SEEK_TIME_LIMIT_S \<or> MAX_SEEK_TIME_LIMIT_S < n
         | NotANumber \<Rightarrow> True) \<longrightarrow>
        updateSettings st r = Inl (InvalidTimeLimit, r))
   \<and> ((case settings_seekTimeLimit st of
           Absent \<Rightarrow> True
         | Parsed n \<Rightarrow> MIN_SEEK_TIME_LIMIT_S \<le> n \<and> n \<le> MAX_SEEK_TIME_LIMIT_S
         | NotANumber \<Rightarrow> False)
        \<and> (case settings_soundPlaysPerPlayer st of
              Absent \<Rightarrow> False
            | Parsed n \<Rightarrow> n < MIN_SOUND_PLAYS \<or> MAX_SOUND_PLAYS < n
            | NotANumber \<Rightarrow> True) \<longrightarrow>
        (case updateSettings st r of
           Inl (e1, r1) \<Rightarrow> e1 = InvalidSoundsPerPhone
         | Inr x \<Rightarrow> False))
   \<and> (gameState r \<noteq> Waiting \<longrightarrow>
        startHidingPhase r = Inl NotInWaitingState \<and> addPlayer s a u r = Inl CannotJoinStarted)
   \<and> (gameState r = Waiting \<and> getPlayerCount r < MIN_PLAYERS_TO_START \<longrightarrow>
        startHidingPhase r = Inl NeedMorePlayers)
   \<and> (gameState r \<noteq> GameOver \<longrightarrow> requestPlayAgain s rnd r = Inl GameNotOverYet)
   \<and> (getPlayer r s = Some p \<and> gameState r \<noteq> Hiding \<longrightarrow>
        confirmPlayerHidden s r = Inl NotInHidingPhase)
   \<and> (getPlayer r s = Some p \<and> \<not> isFound p \<and> gameState r \<noteq> Seeking
        \<and> \<not> (gameState r = GameOver \<and> winner r = Some WinnerHider) \<longrightarrow>
        markPlayerFound s r = Inl (CannotMarkFound (gameState r)))"
proof (intro conjI impI)
  assume "getPlayer r s = None"
  then show "on_updateSettings s st r = (r, [ErrorMsg s NotInARoom])"
    and "on_startHiding s r = (r, [ErrorMsg s NotInARoom])"
    and "on_requestPlayAgain s rnd r = (r, [ErrorMsg s NotInARoom])"
    and "on_confirmHidden s r = (r, [])"
    and "on_markSelfFound s r = (r, [])"
    by (simp_all add: on_updateSettings_def on_startHiding_def on_requestPlayAgain_def
          on_confirmHidden_def on_markSelfFound_def)
next
  assume "getPlayer r s = Some p \<and> role p \<noteq> Hider"
  then show "on_updateSettings s st r = (r, [ErrorMsg s OnlyHiderSettings])"
    and "on_startHiding s r = (r, [ErrorMsg s OnlyHiderStart])"
    by (simp_all add: on_updateSettings_def on_startHiding_def)
next
  assume "getPlayer r s = Some p \<and> role p = Hider \<and> gameState r \<noteq> Waiting"
  then show "on_updateSettings s st r = (r, [ErrorMsg s SettingsOnlyWhileWaiting])"
    by (simp add: on_updateSettings_def)
next
  assume "getPlayer r s = Some p \<and> role p = Hider \<and> gameState r = Waiting
        \<and> updateSettings st r = Inl (e, r')"
  then show "on_updateSettings s st r = (r', [ErrorMsg s e])"
    by (simp add: on_updateSettings_def)
next
  assume a: "updateSettings st r = Inl (e, r')"
  then show "r' = r\<lparr>seekTimeLimit := seekTimeLimit r'\<rparr>" by (rule updateSettings_frame)
  from updateSettings_Inl[OF a] show "e = InvalidTimeLimit \<Longrightarrow> r' = r" by simp
next
  assume "getPlayer r s = Some p \<and> role p = Hider \<and> startHidingPhase r = Inl e"
  then show "on_startHiding s r = (r, [ErrorMsg s e])" by (simp add: on_startHiding_def)
next
  assume "getPlayer r s = Some p \<and> requestPlayAgain s rnd r = Inl e"
  then show "on_requestPlayAgain s rnd r = (r, [ErrorMsg s e])"
    by (simp add: on_requestPlayAgain_def)
next
  assume "addPlayer s a u r = Inl e"
  then show "on_joinRoom s a u r = (r, [ErrorMsg s e])" by (simp add: on_joinRoom_def)
next
  assume "confirmPlayerHidden s r = Inl e"
  then show "on_confirmHidden s r = (r, [])"
    by (simp add: on_confirmHidden_def split: option.splits)
next
  assume "markPlayerFound s r = Inl e"
  then show "on_markSelfFound s r = (r, [])"
    by (simp add: on_markSelfFound_def split: option.splits)
next
  assume "case settings_seekTimeLimit st of
           Absent \<Rightarrow> False
         | Parsed n \<Rightarrow> n < MIN_SEEK_TIME_LIMIT_S \<or> MAX_SEEK_TIME_LIMIT_S < n
         | NotANumber \<Rightarrow> True"
  then show "updateSettings st r = Inl (InvalidTimeLimit, r)"
    by (rule updateSettings_bad_time_limit)
next
  assume "(case settings_seekTimeLimit st of
           Absent \<Rightarrow> True
         | Parsed n \<Rightarrow> MIN_SEEK_TIME_LIMIT_S \<le> n \<and> n \<le> MAX_SEEK_TIME_LIMIT_S
         | NotANumber \<Rightarrow> False)
        \<and> (case settings_soundPlaysPerPlayer st of
              Absent \<Rightarrow> False
            | Parsed n \<Rightarrow> n < MIN_SOUND_PLAYS \<or> MAX_SOUND_PLAYS < n
            | NotANumber \<Rightarrow> True)"
  then obtain r1 where "updateSettings st r = Inl (InvalidSoundsPerPhone, r1)"
    using updateSettings_bad_sound_plays[of st r] by blast
  then show "case updateSettings st r of
           Inl (e1, r1) \<Rightarrow> e1 = InvalidSoundsPerPhone
         | Inr x \<Rightarrow> False"
    by simp
next
  assume "gameState r \<noteq> Waiting"
  then show "startHidingPhase r = Inl NotInWaitingState"
    and "addPlayer s a u r = Inl CannotJoinStarted"
    by (simp_all add: startHidingPhase_def addPlayer_def)
next
  assume "gameState r = Waiting \<and> getPlayerCount r < MIN_PLAYERS_TO_START"
  then show "startHidingPhase r = Inl NeedMorePlayers" by (simp add: startHidingPhase_def)
next
  assume "gameState r \<noteq> GameOver"
  then show "requestPlayAgain s rnd r = Inl GameNotOverYet" by (simp add: requestPlayAgain_def)
next
  assume "getPlayer r s = Some p \<and> gameState r \<noteq> Hiding"
  then show "confirmPlayerHidden s r = Inl NotInHidingPhase"
    by (simp add: confirmPlayerHidden_def)
next
  assume "getPlayer r s = Some p \<and> \<not> isFound p \<and> gameState r \<noteq> Seeking
        \<and> \<not> (gameState r = GameOver \<and> winner r = Some WinnerHider)"
  then show "markPlayerFound s r = Inl (CannotMarkFound (gameState r))"
    by (simp add: markPlayerFound_def)
qed

theorem c2_witness:
  "getPlayer exampleWaiting ''zz'' = None
   \<and> on_updateSettings ''zz'' \<lparr>settings_seekTimeLimit = Parsed 999,
                                 settings_soundPlaysPerPlayer = Absent\<rparr> exampleWaiting
       = (exampleWaiting, [ErrorMsg ''zz'' NotInARoom])
   \<and> on_startHiding ''zz'' exampleWaiting = (exampleWaiting, [ErrorMsg ''zz'' NotInARoom])
   \<and> on_requestPlayAgain ''zz'' (\<lambda>k. 0) exampleWaiting
       = (exampleWaiting, [ErrorMsg ''zz'' NotInARoom])
   \<and> on_confirmHidden ''zz'' exampleWaiting = (exampleWaiting, [])
   \<and> on_markSelfFound ''zz'' exampleWaiting = (exampleWaiting, [])
   \<and> map_option role (getPlayer exampleWaiting ''s2'') = Some Seeker
   \<and> on_updateSettings ''s2'' \<lparr>settings_seekTimeLimit = Parsed 999,
                                 settings_soundPlaysPerPlayer = Absent\<rparr> exampleWaiting
       = (exampleWaiting, [ErrorMsg ''s2'' OnlyHiderSettings])
   \<and> on_startHiding ''s2'' exampleWaiting = (exampleWaiting, [ErrorMsg ''s2'' OnlyHiderStart])
   \<and> map_option role (getPlayer exampleHiding ''s1'') = Some Hider
   \<and> gameState exampleHiding = Hiding
   \<and> on_updateSettings ''s1'' \<lparr>settings_seekTimeLimit = Parsed 999,
                                 settings_soundPlaysPerPlayer = Absent\<rparr> exampleHiding
       = (exampleHiding, [ErrorMsg ''s1'' SettingsOnlyWhileWaiting])
   \<and> startHidingPhase exampleHiding = Inl NotInWaitingState
   \<and> on_startHiding ''s1'' exampleHiding = (exampleHiding, [ErrorMsg ''s1'' NotInWaitingState])
   \<and> requestPlayAgain ''s1'' (\<lambda>k. 0) exampleHiding = Inl GameNotOverYet
   \<and> on_requestPlayAgain ''s1'' (\<lambda>k. 0) exampleHiding
       = (exampleHiding, [ErrorMsg ''s1'' GameNotOverYet])
   \<and> addPlayer ''s3'' 0 0 exampleHiding = Inl CannotJoinStarted
   \<and> on_joinRoom ''s3'' 0 0 exampleHiding = (exampleHiding, [ErrorMsg ''s3'' CannotJoinStarted])
   \<and> markPlayerFound ''s1'' exampleHiding = Inl (CannotMarkFound Hiding)
   \<and> on_markSelfFound ''s1'' exampleHiding = (exampleHiding, [])
   \<and> map_option role (getPlayer exampleWaiting ''s1'') = Some Hider
   \<and> gameState exampleWaiting = Waiting
   \<and> updateSettings \<lparr>settings_seekTimeLimit = Parsed 999,
                      settings_soundPlaysPerPlayer = Absent\<rparr> exampleWaiting
       = Inl (InvalidTimeLimit, exampleWaiting)
   \<and> on_updateSettings ''s1'' \<lparr>settings_seekTimeLimit = Parsed 999,
                                 settings_soundPlaysPerPlayer = Absent\<rparr> exampleWaiting
       = (exampleWaiting, [ErrorMsg ''s1'' InvalidTimeLimit])
   \<and> confirmPlayerHidden ''s1'' exampleWaiting = Inl NotInHidingPhase
   \<and> on_confirmHidden ''s1'' exampleWaiting = (exampleWaiting, [])
   \<and> updateSettings \<lparr>settings_seekTimeLimit = Parsed 100,
                      settings_soundPlaysPerPlayer = Parsed 999\<rparr> exampleWaiting
       = Inl (InvalidSoundsPerPhone, exampleWaiting\<lparr>seekTimeLimit := 100\<rparr>)
   \<and> on_updateSettings ''s1'' \<lparr>settings_seekTimeLimit = Parsed 100,
                                 settings_soundPlaysPerPlayer = Parsed 999\<rparr> exampleWaiting
       = (exampleWaiting\<lparr>seekTimeLimit := 100\<rparr>, [ErrorMsg ''s1'' InvalidSoundsPerPhone])
   \<and> gameState exampleHiderLeftWaiting = Waiting
   \<and> getPlayerCount exampleHiderLeftWaiting = 1
   \<and> map_option role (getPlayer exampleHiderLeftWaiting ''s2'') = Some Hider
   \<and> startHidingPhase exampleHiderLeftWaiting = Inl NeedMorePlayers
   \<and> on_startHiding ''s2'' exampleHiderLeftWaiting
       = (exampleHiderLeftWaiting, [ErrorMsg ''s2'' NeedMorePlayers])"
proof -
  let ?st = "\<lparr>settings_seekTimeLimit = Parsed 999, settings_soundPlaysPerPlayer = Absent\<rparr>"
  let ?st2 = "\<lparr>settings_seekTimeLimit = Parsed 100, settings_soundPlaysPerPlayer = Parsed 999\<rparr>"
  let ?rnd = "\<lambda>k::nat. 0::nat"
  txt \<open>a socket that is in no room\<close>
  have z: "getPlayer exampleWaiting ''zz'' = None" by code_simp
  note cz = c2_rejected_actions[where r=exampleWaiting and s="''zz''" and st="?st" and rnd="?rnd"]
  from cz[THEN conjunct1] z
  have z1: "on_updateSettings ''zz'' ?st exampleWaiting = (exampleWaiting, [ErrorMsg ''zz'' NotInARoom])"
    and z2: "on_startHiding ''zz'' exampleWaiting = (exampleWaiting, [ErrorMsg ''zz'' NotInARoom])"
    and z3: "on_requestPlayAgain ''zz'' ?rnd exampleWaiting
               = (exampleWaiting, [ErrorMsg ''zz'' NotInARoom])"
    and z4: "on_confirmHidden ''zz'' exampleWaiting = (exampleWaiting, [])"
    and z5: "on_markSelfFound ''zz'' exampleWaiting = (exampleWaiting, [])"
    by simp_all
  txt \<open>a Seeker\<close>
  have k: "getPlayer exampleWaiting ''s2'' = Some (players exampleWaiting ! 1)"
    "role (players exampleWaiting ! 1) \<noteq> Hider" "role (players exampleWaiting ! 1) = Seeker"
    by code_simp+
  note ck = c2_rejected_actions[where r=exampleWaiting and s="''s2''" and st="?st"
         and p="players exampleWaiting ! 1"]
  from ck[THEN conjunct2, THEN conjunct1] k(1,2)
  have k1: "on_updateSettings ''s2'' ?st exampleWaiting
              = (exampleWaiting, [ErrorMsg ''s2'' OnlyHiderSettings])"
    and k2: "on_startHiding ''s2'' exampleWaiting = (exampleWaiting, [ErrorMsg ''s2'' OnlyHiderStart])"
    by simp_all
  txt \<open>the Hider during Hiding\<close>
  have h: "getPlayer exampleHiding ''s1'' = Some (hd (players exampleHiding))"
    "role (hd (players exampleHiding)) = Hider" "gameState exampleHiding = Hiding"
    "\<not> isFound (hd (players exampleHiding))" "winner exampleHiding = None"
    by code_simp+
  from h(3) have hn: "gameState exampleHiding \<noteq> Waiting" "gameState exampleHiding \<noteq> GameOver"
    "gameState exampleHiding \<noteq> Seeking" by simp_all
  note ch = c2_rejected_actions[where r=exampleHiding and s="''s1''" and st="?st" and rnd="?rnd"
         and p="hd (players exampleHiding)"]
  from ch[THEN conjunct2, THEN conjunct2, THEN conjunct1] h(1,2) hn(1)
  have h1: "on_updateSettings ''s1'' ?st exampleHiding
              = (exampleHiding, [ErrorMsg ''s1'' SettingsOnlyWhileWaiting])"
    by simp
  from ch[THEN conjunct2, THEN conjunct2, THEN conjunct2, THEN conjunct2, THEN conjunct2,
         THEN conjunct2, THEN conjunct2, THEN conjunct2, THEN conjunct2, THEN conjunct2,
         THEN conjunct2, THEN conjunct2, THEN conjunct1] hn(1)
  have h2: "startHidingPhase exampleHiding = Inl NotInWaitingState"
    by simp
  note ch1 = ch[where e=NotInWaitingState]
  from ch1[THEN conjunct2, THEN conjunct2, THEN conjunct2, THEN conjunct2, THEN conjunct2,
         THEN conjunct1] h(1,2) h2
  have h3: "on_startHiding ''s1'' exampleHiding = (exampleHiding, [ErrorMsg ''s1'' NotInWaitingState])"
    by simp
  from ch[THEN conjunct2, THEN conjunct2, THEN conjunct2, THEN conjunct2, THEN conjunct2,
         THEN conjunct2, THEN conjunct2, THEN conjunct2, THEN conjunct2, THEN conjunct2,
         THEN conjunct2, THEN conjunct2, THEN conjunct2, THEN conjunct2, THEN conjunct1] hn(2)
  have h4: "requestPlayAgain ''s1'' ?rnd exampleHiding = Inl GameNotOverYet"
    by simp
  note ch2 = ch[where e=GameNotOverYet]
  from ch2[THEN conjunct2, THEN conjunct2, THEN conjunct2, THEN conjunct2, THEN conjunct2,
         THEN conjunct2, THEN conjunct1] h(1) h4
  have h5: "on_requestPlayAgain ''s1'' ?rnd exampleHiding
               = (exampleHiding, [ErrorMsg ''s1'' GameNotOverYet])"
    by simp
  note cj = c2_rejected_actions[where r=exampleHiding and s="''s3''" and a=0 and u=0
         and e=CannotJoinStarted]
  from cj[THEN conjunct2, THEN conjunct2, THEN conjunct2, THEN conjunct2, THEN conjunct2,
         THEN conjunct2, THEN conjunct2, THEN conjunct2, THEN conjunct2, THEN conjunct2,
         THEN conjunct2, THEN conjunct2, THEN conjunct1] hn(1)
  have h6: "addPlayer ''s3'' 0 0 exampleHiding = Inl CannotJoinStarted"
    by simp
  from cj[THEN conjunct2, THEN conjunct2, THEN conjunct2, THEN conjunct2, THEN conjunct2,
         THEN conjunct2, THEN conjunct2, THEN conjunct1] h6
  have h7: "on_joinRoom ''s3'' 0 0 exampleHiding
               = (exampleHiding, [ErrorMsg ''s3'' CannotJoinStarted])"
    by simp
  from ch[THEN conjunct2, THEN conjunct2, THEN conjunct2, THEN conjunct2, THEN conjunct2,
         THEN conjunct2, THEN conjunct2, THEN conjunct2, THEN conjunct2, THEN conjunct2,
         THEN conjunct2, THEN conjunct2, THEN conjunct2, THEN conjunct2, THEN conjunct2,
         THEN conjunct2] h(1,4) hn(2,3)
  have h8': "markPlayerFound ''s1'' exampleHiding = Inl (CannotMarkFound (gameState exampleHiding))"
    by simp
  note ch3 = ch[where e="CannotMarkFound (gameState exampleHiding)"]
  from ch3[THEN conjunct2, THEN conjunct2, THEN conjunct2, THEN conjunct2, THEN conjunct2,
         THEN conjunct2, THEN conjunct2, THEN conjunct2, THEN conjunct2, THEN conjunct1] h8'
  have h9: "on_markSelfFound ''s1'' exampleHiding = (exampleHiding, [])"
    by simp
  from h8' h(3) have h8: "markPlayerFound ''s1'' exampleHiding = Inl (CannotMarkFound Hiding)"
    by simp
  txt \<open>the Hider during Waiting, with bad settings\<close>
  have w: "getPlayer exampleWaiting ''s1'' = Some (hd (players exampleWaiting))"
    "role (hd (players exampleWaiting)) = Hider" "gameState exampleWaiting = Waiting"
    by code_simp+
  from w(3) have wn: "gameState exampleWaiting \<noteq> Hiding" by simp
  have bad: "case settings_seekTimeLimit ?st of
               Absent \<Rightarrow> False
             | Parsed n \<Rightarrow> n < MIN_SEEK_TIME_LIMIT_S \<or> MAX_SEEK_TIME_LIMIT_S < n
             | NotANumber \<Rightarrow> True"
    by (simp add: MAX_SEEK_TIME_LIMIT_S_def)
  note cw = c2_rejected_actions[where r=exampleWaiting and s="''s1''" and st="?st"
         and p="hd (players exampleWaiting)"]
  from cw[THEN conjunct2, THEN conjunct2, THEN conjunct2, THEN conjunct2, THEN conjunct2,
         THEN conjunct2, THEN conjunct2, THEN conjunct2, THEN conjunct2, THEN conjunct2,
         THEN conjunct1] bad
  have w1: "updateSettings ?st exampleWaiting = Inl (InvalidTimeLimit, exampleWaiting)"
    by (rule mp)
  note cw4 = cw[where e=InvalidTimeLimit and r'=exampleWaiting]
  from cw4[THEN conjunct2, THEN conjunct2, THEN conjunct2, THEN conjunct1] w w1
  have w2: "on_updateSettings ''s1'' ?st exampleWaiting
              = (exampleWaiting, [ErrorMsg ''s1'' InvalidTimeLimit])"
    by simp
  from cw[THEN conjunct2, THEN conjunct2, THEN conjunct2, THEN conjunct2, THEN conjunct2,
         THEN conjunct2, THEN conjunct2, THEN conjunct2, THEN conjunct2, THEN conjunct2,
         THEN conjunct2, THEN conjunct2, THEN conjunct2, THEN conjunct2, THEN conjunct2,
         THEN conjunct1] w(1) wn
  have w3: "confirmPlayerHidden ''s1'' exampleWaiting = Inl NotInHidingPhase"
    by simp
  note cw5 = cw[where e=NotInHidingPhase]
  from cw5[THEN conjunct2, THEN conjunct2, THEN conjunct2, THEN conjunct2, THEN conjunct2,
         THEN conjunct2, THEN conjunct2, THEN conjunct2, THEN conjunct1] w3
  have w4: "on_confirmHidden ''s1'' exampleWaiting = (exampleWaiting, [])"
    by simp
  have v1: "updateSettings ?st2 exampleWaiting
              = Inl (InvalidSoundsPerPhone, exampleWaiting\<lparr>seekTimeLimit := 100\<rparr>)"
    by code_simp
  note cv = c2_rejected_actions[where r=exampleWaiting and s="''s1''" and st="?st2"
         and p="hd (players exampleWaiting)" and e=InvalidSoundsPerPhone
         and r'="exampleWaiting\<lparr>seekTimeLimit := 100\<rparr>"]
  from cv[THEN conjunct2, THEN conjunct2, THEN conjunct2, THEN conjunct1] w v1
  have v2: "on_updateSettings ''s1'' ?st2 exampleWaiting
              = (exampleWaiting\<lparr>seekTimeLimit := 100\<rparr>, [ErrorMsg ''s1'' InvalidSoundsPerPhone])"
    by simp
  txt \<open>a room with a single player\<close>
  have o: "gameState exampleHiderLeftWaiting = Waiting" "getPlayerCount exampleHiderLeftWaiting = 1"
    "getPlayer exampleHiderLeftWaiting ''s2'' = Some (hd (players exampleHiderLeftWaiting))"
    "role (hd (players exampleHiderLeftWaiting)) = Hider"
    by code_simp+
  from o(2) have o': "getPlayerCount exampleHiderLeftWaiting < MIN_PLAYERS_TO_START"
    by (simp add: MIN_PLAYERS_TO_START_def)
  note co = c2_rejected_actions[where r=exampleHiderLeftWaiting and s="''s2''"
         and p="hd (players exampleHiderLeftWaiting)" and e=NeedMorePlayers]
  from co[THEN conjunct2, THEN conjunct2, THEN conjunct2, THEN conjunct2, THEN conjunct2,
         THEN conjunct2, THEN conjunct2, THEN conjunct2, THEN conjunct2, THEN conjunct2,
         THEN conjunct2, THEN conjunct2, THEN conjunct2, THEN conjunct1] o(1) o'
  have o1: "startHidingPhase exampleHiderLeftWaiting = Inl NeedMorePlayers"
    by simp
  from co[THEN conjunct2, THEN conjunct2, THEN conjunct2, THEN conjunct2, THEN conjunct2,
         THEN conjunct1] o(3,4) o1
  have o2: "on_startHiding ''s2'' exampleHiderLeftWaiting
               = (exampleHiderLeftWaiting, [ErrorMsg ''s2'' NeedMorePlayers])"
    by simp
  from z z1 z2 z3 z4 z5 k k1 k2 h h1 h2 h3 h4 h5 h6 h7 h8 h9 w w1 w2 w3 w4 v1 v2 o o1 o2
  show ?thesis by simp
qed

section \<open>The sound rotation tick\<close>

lemma foldl_plays_left:
  "foldl (\<lambda>sum p. sum + (n - soundsPlayed p)) a ps = a + (\<Sum>p\<leftarrow>ps. n - soundsPlayed p)"
  by (induction ps arbitrary: a) simp_all

lemma totalPlaysLeft_sum:
  "totalPlaysLeft r = (\<Sum>p\<leftarrow>eligiblePlayers r. soundPlaysPerPlayer r - soundsPlayed p)"
  by (simp add: totalPlaysLeft_def foldl_plays_left)

lemma sum_list_pos_int:
  "xs \<noteq> [] \<Longrightarrow> \<forall>x\<in>set xs. 0 < f x \<Longrightarrow> 0 < (\<Sum>x\<leftarrow>xs. (f x :: int))"
proof (induction xs)
  case Nil
  then show ?case by simp
next
  case (Cons a xs)
  then show ?case by (cases xs) (auto intro: add_pos_pos)
qed

lemma totalPlaysLeft_pos: "eligiblePlayers r \<noteq> [] \<Longrightarrow> 0 < totalPlaysLeft r"
  unfolding totalPlaysLeft_sum
  by (rule sum_list_pos_int) (auto simp: eligiblePlayers_def)

lemma eligible_set:
  "set (eligiblePlayers r) = {p \<in> set (players r). \<not> isFound p \<and> soundsPlayed p < soundPlaysPerPlayer r}"
  by (auto simp: eligiblePlayers_def sortedPlayers_def)

lemma eligible_sorted: "sorted (map number (eligiblePlayers r))"
  by (simp add: eligiblePlayers_def sortedPlayers_def sorted_filter)

text \<open>
  Claim C4. The claim is steps 4 and 5 of the rotation algorithm, which a tick reaches
  after steps 1 and 2: the room is in Seeking and time remains. On every such tick, if
  the eligible set is empty the tick changes nothing but the timeout, set to the fixed
  interval \<open>CHECK_INTERVAL_WHEN_NO_SOUNDS_MS\<close>, and sends nothing; otherwise the new
  timeout is \<open>max MIN_SOUND_DELAY_MS (timeRemaining / totalPlaysLeft)\<close>, with
  \<open>totalPlaysLeft\<close> the sum of \<open>soundPlaysPerPlayer - soundsPlayed\<close> over the
  eligible players. A tick during Seeking that finds no time remaining stops at step 2,
  whatever the eligible set: it clears the timeout, sends nothing and changes nothing
  else.
\<close>

theorem c4_next_sound_delay:
  assumes "gameState r = Seeking"
  shows "(timeRemainingMs now r > 0 \<and> eligiblePlayers r = [] \<longrightarrow>
            scheduleNextSound now r
              = (r\<lparr>soundRotationTimeout := Some CHECK_INTERVAL_WHEN_NO_SOUNDS_MS\<rparr>, []))
       \<and> (timeRemainingMs now r > 0 \<and> eligiblePlayers r \<noteq> [] \<longrightarrow>
            soundRotationTimeout (fst (scheduleNextSound now r))
              = Some (max MIN_SOUND_DELAY_MS
                        (rat_of_int (timeRemainingMs now r)
                           / rat_of_int (\<Sum>p\<leftarrow>eligiblePlayers r.
                                            soundPlaysPerPlayer r - soundsPlayed p))))
       \<and> (timeRemainingMs now r \<le> 0 \<longrightarrow>
            scheduleNextSound now r = (r\<lparr>soundRotationTimeout := None\<rparr>, []))"
  using assms totalPlaysLeft_pos[of r]
  by (auto simp: scheduleNextSound_def Let_def totalPlaysLeft_sum)

theorem c4_witness:
  "gameState exampleAllPlayed = Seeking
   \<and> timeRemainingMs 119000 exampleAllPlayed > 0
   \<and> eligiblePlayers exampleAllPlayed = []
   \<and> scheduleNextSound 119000 exampleAllPlayed
       = (exampleAllPlayed\<lparr>soundRotationTimeout := Some 1500\<rparr>, [])
   \<and> gameState exampleSeeking = Seeking
   \<and> timeRemainingMs 11000 exampleSeeking = 119000
   \<and> eligiblePlayers exampleSeeking \<noteq> []
   \<and> (\<Sum>p\<leftarrow>eligiblePlayers exampleSeeking.
          soundPlaysPerPlayer exampleSeeking - soundsPlayed p) = 12
   \<and> soundRotationTimeout (fst (scheduleNextSound 11000 exampleSeeking)) = Some (29750 / 3)
   \<and> timeRemainingMs 130000 exampleAllPlayed \<le> 0
   \<and> scheduleNextSound 130000 exampleAllPlayed
       = (exampleAllPlayed\<lparr>soundRotationTimeout := None\<rparr>, [])"
proof -
  have a1: "gameState exampleAllPlayed = Seeking" by code_simp
  have a2: "timeRemainingMs 119000 exampleAllPlayed > 0" by code_simp
  have a3: "eligiblePlayers exampleAllPlayed = []" by code_simp
  have a4: "timeRemainingMs 130000 exampleAllPlayed \<le> 0" by code_simp
  have b1: "gameState exampleSeeking = Seeking" by code_simp
  have b2: "timeRemainingMs 11000 exampleSeeking = 119000" by code_simp
  have b3: "eligiblePlayers exampleSeeking \<noteq> []" by code_simp
  have b4: "(\<Sum>p\<leftarrow>eligiblePlayers exampleSeeking.
               soundPlaysPerPlayer exampleSeeking - soundsPlayed p) = 12"
    by code_simp
  from c4_next_sound_delay[OF a1, of 119000] a2 a3
  have r1: "scheduleNextSound 119000 exampleAllPlayed
              = (exampleAllPlayed\<lparr>soundRotationTimeout := Some 1500\<rparr>, [])"
    by (simp add: CHECK_INTERVAL_WHEN_NO_SOUNDS_MS_def)
  from c4_next_sound_delay[OF b1, of 11000] b2 b3 b4
  have r2: "soundRotationTimeout (fst (scheduleNextSound 11000 exampleSeeking)) = Some (29750 / 3)"
    by (simp add: MIN_SOUND_DELAY_MS_def)
  from c4_next_sound_delay[OF a1, of 130000] a4
  have r3: "scheduleNextSound 130000 exampleAllPlayed
              = (exampleAllPlayed\<lparr>soundRotationTimeout := None\<rparr>, [])"
    by blast
  from a1 a2 a3 a4 b1 b2 b3 b4 r1 r2 r3 show ?thesis by simp
qed

text \<open>
  Claim C5, as stated, fails for the rotation index: it does not advance by one from its
  stored value, it becomes the selected position plus one. After two cues to the two
  players of the example room the index is 2; the third tick sends a cue to the first
  player and the index becomes 1.
\<close>

theorem c5_counterexample:
  "gameState exampleTwoCues = Seeking
   \<and> length (eligiblePlayers exampleTwoCues) = 2
   \<and> nextPlayerIndexToPlay exampleTwoCues = 2
   \<and> snd (scheduleNextSound 29000 exampleTwoCues) = [PlaySound ''s1'' (Some ''/sounds/cat.mp3'')]
   \<and> nextPlayerIndexToPlay (fst (scheduleNextSound 29000 exampleTwoCues)) = 1"
  by code_simp

text \<open>
  Claim C5, amended: on every sound-rotation tick during Seeking with time remaining and a
  non-empty eligible set (the players not found and below their quota, ordered by
  \<open>number\<close>), the player selected is the one at position
  \<open>index mod size\<close> of the eligible list, and the rotation index becomes that position
  plus one. If the selected player has a sound identifier, the only message is the cue to
  that player and that player's \<open>soundsPlayed\<close> goes up by one; if not, nothing is sent
  and no player changes.
\<close>

theorem c5_rotation_selects_by_index:
  assumes "gameState r = Seeking" and "timeRemainingMs now r > 0" and "eligiblePlayers r \<noteq> []"
  shows "set (eligiblePlayers r)
           = {p \<in> set (players r). \<not> isFound p \<and> soundsPlayed p < soundPlaysPerPlayer r}
       \<and> sorted (map number (eligiblePlayers r))
       \<and> nextPlayerIndexToPlay (fst (scheduleNextSound now r))
           = nextPlayerIndexToPlay r mod length (eligiblePlayers r) + 1
       \<and> (truthy (uniqueAnimalSoundURL
                     (eligiblePlayers r ! (nextPlayerIndexToPlay r mod length (eligiblePlayers r)))) \<longrightarrow>
            snd (scheduleNextSound now r)
              = [PlaySound
                   (playerId (eligiblePlayers r
                                ! (nextPlayerIndexToPlay r mod length (eligiblePlayers r))))
                   (uniqueAnimalSoundURL (eligiblePlayers r
                                ! (nextPlayerIndexToPlay r mod length (eligiblePlayers r))))]
            \<and> players (fst (scheduleNextSound now r))
              = updatePlayer
                  (playerId (eligiblePlayers r
                               ! (nextPlayerIndexToPlay r mod length (eligiblePlayers r))))
                  (\<lambda>p. p\<lparr>soundsPlayed := soundsPlayed p + 1\<rparr>) (players r))
       \<and> (\<not> truthy (uniqueAnimalSoundURL
                       (eligiblePlayers r ! (nextPlayerIndexToPlay r mod length (eligiblePlayers r)))) \<longrightarrow>
            snd (scheduleNextSound now r) = []
            \<and> players (fst (scheduleNextSound now r)) = players r)"
  using assms totalPlaysLeft_pos[of r] eligible_set[of r] eligible_sorted[of r]
  by (auto simp: scheduleNextSound_def Let_def)

theorem c5_witness:
  "gameState exampleTwoCues = Seeking \<and> timeRemainingMs 29000 exampleTwoCues > 0
   \<and> map playerId (eligiblePlayers exampleTwoCues) = [''s1'', ''s2'']
   \<and> nextPlayerIndexToPlay exampleTwoCues mod length (eligiblePlayers exampleTwoCues) = 0
   \<and> snd (scheduleNextSound 29000 exampleTwoCues) = [PlaySound ''s1'' (Some ''/sounds/cat.mp3'')]
   \<and> map soundsPlayed (players exampleTwoCues) = [1, 1]
   \<and> map soundsPlayed (players (fst (scheduleNextSound 29000 exampleTwoCues))) = [2, 1]
   \<and> gameState exampleNoSound = Seeking \<and> timeRemainingMs 11000 exampleNoSound > 0
   \<and> map playerId (eligiblePlayers exampleNoSound) = [''s1'', ''s2'']
   \<and> nextPlayerIndexToPlay exampleNoSound mod length (eligiblePlayers exampleNoSound) = 0
   \<and> snd (scheduleNextSound 11000 exampleNoSound) = []
   \<and> players (fst (scheduleNextSound 11000 exampleNoSound)) = players exampleNoSound
   \<and> nextPlayerIndexToPlay (fst (scheduleNextSound 11000 exampleNoSound)) = 1"
proof -
  have a1: "gameState exampleTwoCues = Seeking" by code_simp
  have a2: "timeRemainingMs 29000 exampleTwoCues > 0" by code_simp
  have a3: "eligiblePlayers exampleTwoCues \<noteq> []" by code_simp
  have a4: "map playerId (eligiblePlayers exampleTwoCues) = [''s1'', ''s2'']" by code_simp
  have a5: "nextPlayerIndexToPlay exampleTwoCues mod length (eligiblePlayers exampleTwoCues) = 0"
    by code_simp
  have a6: "eligiblePlayers exampleTwoCues ! 0 = hd (players exampleTwoCues)" by code_simp
  have a7: "playerId (hd (players exampleTwoCues)) = ''s1''" by code_simp
  have a8: "uniqueAnimalSoundURL (hd (players exampleTwoCues)) = Some ''/sounds/cat.mp3''"
    by code_simp
  have a9: "map soundsPlayed (players exampleTwoCues) = [1, 1]" by code_simp
  have a10: "map soundsPlayed (updatePlayer ''s1'' (\<lambda>p. p\<lparr>soundsPlayed := soundsPlayed p + 1\<rparr>)
                                 (players exampleTwoCues)) = [2, 1]"
    by code_simp
  have b1: "gameState exampleNoSound = Seeking" by code_simp
  have b2: "timeRemainingMs 11000 exampleNoSound > 0" by code_simp
  have b3: "eligiblePlayers exampleNoSound \<noteq> []" by code_simp
  have b4: "map playerId (eligiblePlayers exampleNoSound) = [''s1'', ''s2'']" by code_simp
  have b5: "nextPlayerIndexToPlay exampleNoSound mod length (eligiblePlayers exampleNoSound) = 0"
    by code_simp
  have b6: "uniqueAnimalSoundURL (eligiblePlayers exampleNoSound ! 0) = None" by code_simp
  from c5_rotation_selects_by_index[OF a1 a2 a3] a5 a6 a7 a8
  have ra: "snd (scheduleNextSound 29000 exampleTwoCues) = [PlaySound ''s1'' (Some ''/sounds/cat.mp3'')]"
    and rb: "players (fst (scheduleNextSound 29000 exampleTwoCues))
               = updatePlayer ''s1'' (\<lambda>p. p\<lparr>soundsPlayed := soundsPlayed p + 1\<rparr>)
                   (players exampleTwoCues)"
    by (simp_all add: truthy_def)
  from c5_rotation_selects_by_index[OF b1 b2 b3] b5 b6
  have rc: "snd (scheduleNextSound 11000 exampleNoSound) = []"
    and rd: "players (fst (scheduleNextSound 11000 exampleNoSound)) = players exampleNoSound"
    and re: "nextPlayerIndexToPlay (fst (scheduleNextSound 11000 exampleNoSound)) = 1"
    by (simp_all add: truthy_def)
  from a1 a2 a4 a5 a9 a10 b1 b2 b4 b5 ra rb rc rd re show ?thesis by simp
qed

section \<open>Play again\<close>

lemma NUM_UNIQUE_SOUND_PAIRS_pos: "NUM_UNIQUE_SOUND_PAIRS > 0"
  by (simp add: NUM_UNIQUE_SOUND_PAIRS_def BASE_ANIMAL_SOUNDS_def BASE_UNFOUND_SOUNDS_def)





lemma assignUniqueSounds_frame:
  assumes "assignUniqueSounds a u r p = (r1, p1)"
  shows "r1 = r\<lparr>assignedAnimalSounds := insert (uniqueAnimalSoundURL p1) (assignedAnimalSounds r),
                 assignedUnfoundSounds := insert (uniqueUnfoundSoundURL p1) (assignedUnfoundSounds r)\<rparr>"
    and "p1 = p\<lparr>uniqueAnimalSoundURL := uniqueAnimalSoundURL p1,
                 uniqueUnfoundSoundURL := uniqueUnfoundSoundURL p1\<rparr>"
  using assms NUM_UNIQUE_SOUND_PAIRS_pos
  by (auto simp: assignUniqueSounds_def Let_def)


lemma reassignAll_frame:
  "reassignAll rnd k r ps = (r2, ps2) \<Longrightarrow>
     r2 = r\<lparr>assignedAnimalSounds := assignedAnimalSounds r \<union> set (map uniqueAnimalSoundURL ps2),
            assignedUnfoundSounds := assignedUnfoundSounds r \<union> set (map uniqueUnfoundSoundURL ps2)\<rparr>
     \<and> map playerId ps2 = map playerId ps \<and> map number ps2 = map number ps
     \<and> map role ps2 = map role ps \<and> list_all wasReset ps2"
proof (induction ps arbitrary: k r r2 ps2)
  case Nil
  then show ?case by simp
next
  case (Cons p ps)
  obtain r1 p1 where a: "assignUniqueSounds (rnd k) (rnd (k + 1)) r (player_resetForNewGame p) = (r1, p1)"
    by (cases "assignUniqueSounds (rnd k) (rnd (k + 1)) r (player_resetForNewGame p)")
  obtain r3 ps3 where b: "reassignAll rnd (k + 2) r1 ps = (r3, ps3)"
    by (cases "reassignAll rnd (k + 2) r1 ps")
  from Cons.prems a b have eq: "r2 = r3" "ps2 = p1 # ps3" by simp_all
  note f = assignUniqueSounds_frame[OF a]
  from f(2) have p1: "playerId p1 = playerId p" "number p1 = number p" "role p1 = role p" "wasReset p1"
    by (metis player.select_convs player.surjective player.update_convs player_resetForNewGame_def wasReset_def)+
  from Cons.IH[OF b] f(1) eq p1 show ?case
    by (auto simp: Un_commute insert_commute)
qed




section \<open>Preservation of the invariants\<close>

lemma endGame_fields:
  "players (fst (endGame w r)) = players r"
  "soundPlaysPerPlayer (fst (endGame w r)) = soundPlaysPerPlayer r"
  "gameState (fst (endGame w r)) = GameOver"
  "preSeekCountdownInterval (fst (endGame w r)) = (if gameState r = GameOver then preSeekCountdownInterval r else None)"
  by (cases w; simp add: endGame_def startGameOverReveal_def Let_def activateNext_fields
        clearGameIntervals_def; subst activateNext_frame; simp)+

lemma activateNext_countdown:
  "preSeekCountdownInterval (fst (activateNextUnfoundPlayer r)) = preSeekCountdownInterval r"
  by (subst activateNext_frame, simp)

lemma map_playerId_updatePlayer:
  "(\<And>p. playerId (f p) = playerId p) \<Longrightarrow> map playerId (updatePlayer s f ps) = map playerId ps"
  by (induction ps) (simp_all add: updatePlayer_def)

lemma updatePlayer_Nil [simp]: "updatePlayer s f ps = [] \<longleftrightarrow> ps = []"
  by (simp add: updatePlayer_def)

lemma getPlayer_None_iff: "getPlayer r s = None \<longleftrightarrow> s \<notin> set (map playerId (players r))"
  by (auto simp: getPlayer_def find_None_iff)

lemma getPlayer_SomeD: "getPlayer r s = Some p \<Longrightarrow> p \<in> set (players r) \<and> playerId p = s"
  by (auto simp: getPlayer_def find_Some_iff)

lemma assignUniqueSounds_id: "playerId (snd (assignUniqueSounds a u r p)) = playerId p"
  and assignUniqueSounds_players: "players (fst (assignUniqueSounds a u r p)) = players r"
  and assignUniqueSounds_gameState: "gameState (fst (assignUniqueSounds a u r p)) = gameState r"
  and assignUniqueSounds_countdown:
    "preSeekCountdownInterval (fst (assignUniqueSounds a u r p)) = preSeekCountdownInterval r"
  by (simp_all add: assignUniqueSounds_def Let_def)

lemma inv_base_joinRoom: "inv_base r \<Longrightarrow> inv_base (fst (on_joinRoom s a u r))"
  by (auto simp: inv_base_def on_joinRoom_def addPlayer_def Let_def split_beta newPlayer_def
        assignUniqueSounds_id assignUniqueSounds_players assignUniqueSounds_gameState
        assignUniqueSounds_countdown getPlayer_None_iff
      split: if_splits)

lemma inv_base_updateSettings: "inv_base r \<Longrightarrow> inv_base (fst (on_updateSettings s st r))"
  by (auto simp: inv_base_def on_updateSettings_def updateSettings_def Let_def
      split: option.splits if_splits setting_value.splits sum.splits)

lemma inv_base_startHiding: "inv_base r \<Longrightarrow> inv_base (fst (on_startHiding s r))"
  by (auto simp: inv_base_def on_startHiding_def startHidingPhase_def Let_def clearGameIntervals_def
         player_resetForNewGame_def comp_def
      split: option.splits if_splits)

lemma inv_base_confirmHidden: "inv_base r \<Longrightarrow> inv_base (fst (on_confirmHidden s r))"
  by (auto simp: inv_base_def on_confirmHidden_def confirmPlayerHidden_def Let_def
         startPreSeekCountdown_def map_playerId_updatePlayer
      split: option.splits if_splits)


lemma checkSeekerWin_fields:
  "players (fst (snd (checkSeekerWin r))) = players r"
  "soundPlaysPerPlayer (fst (snd (checkSeekerWin r))) = soundPlaysPerPlayer r"
  "gameState (fst (snd (checkSeekerWin r))) = (if fst (checkSeekerWin r) then GameOver else gameState r)"
  "preSeekCountdownInterval (fst (snd (checkSeekerWin r)))
     = (if fst (checkSeekerWin r) then None else preSeekCountdownInterval r)"
  by (simp_all add: checkSeekerWin_def split_beta endGame_fields)

lemma inv_base_markSelfFound: "inv_base r \<Longrightarrow> inv_base (fst (on_markSelfFound s r))"
  by (auto simp: inv_base_def on_markSelfFound_def markPlayerFound_def Let_def split_beta
         map_playerId_updatePlayer checkSeekerWin_fields activateNext_fields activateNext_countdown
      split: option.splits if_splits)

lemma reassignAll_room_eq:
  "fst (reassignAll rnd k r ps) =
     r\<lparr>assignedAnimalSounds :=
           assignedAnimalSounds r \<union> set (map uniqueAnimalSoundURL (snd (reassignAll rnd k r ps))),
        assignedUnfoundSounds :=
           assignedUnfoundSounds r \<union> set (map uniqueUnfoundSoundURL (snd (reassignAll rnd k r ps)))\<rparr>"
  and reassignAll_ids: "map playerId (snd (reassignAll rnd k r ps)) = map playerId ps"
  and reassignAll_roles: "map role (snd (reassignAll rnd k r ps)) = map role ps"
  and reassignAll_reset: "list_all wasReset (snd (reassignAll rnd k r ps))"
  using reassignAll_frame[OF prod.collapse[symmetric], of rnd k r ps] by blast+

lemma reassignAll_room:
  "gameState (fst (reassignAll rnd k r ps)) = gameState r"
  "preSeekCountdownInterval (fst (reassignAll rnd k r ps)) = preSeekCountdownInterval r"
  "soundPlaysPerPlayer (fst (reassignAll rnd k r ps)) = soundPlaysPerPlayer r"
  "unfoundPlayerQueue (fst (reassignAll rnd k r ps)) = unfoundPlayerQueue r"
  "activeUnfoundPlayerId (fst (reassignAll rnd k r ps)) = activeUnfoundPlayerId r"
  "winner (fst (reassignAll rnd k r ps)) = winner r"
  by (subst reassignAll_room_eq, simp)+

lemma inv_base_requestPlayAgain: "inv_base r \<Longrightarrow> inv_base (fst (on_requestPlayAgain s rnd r))"
  by (auto simp: inv_base_def on_requestPlayAgain_def requestPlayAgain_def resetForNewGame_def
         Let_def split_beta reassignAll_ids reassignAll_room clearGameIntervals_def
      split: option.splits if_splits
      dest: arg_cong[where f="map playerId"])

lemma promoteNewHider_fields:
  "map playerId (players (promoteNewHider r)) = map playerId (players r)"
  "gameState (promoteNewHider r) = gameState r"
  "preSeekCountdownInterval (promoteNewHider r) = preSeekCountdownInterval r"
  "soundPlaysPerPlayer (promoteNewHider r) = soundPlaysPerPlayer r"
  "unfoundPlayerQueue (promoteNewHider r) = unfoundPlayerQueue r"
  "activeUnfoundPlayerId (promoteNewHider r) = activeUnfoundPlayerId r"
  "winner (promoteNewHider r) = winner r"
  by (simp_all add: promoteNewHider_def map_playerId_updatePlayer split: list.splits)

lemma promoteNewHider_Nil [simp]: "players (promoteNewHider r) = [] \<longleftrightarrow> players r = []"
  using promoteNewHider_fields(1)[of r] by (metis map_is_Nil_conv)



lemma playerDeleted_fields [simp]:
  "players (playerDeleted s dp r) = filter (\<lambda>p. playerId p \<noteq> s) (players r)"
  "gameState (playerDeleted s dp r) = gameState r"
  "winner (playerDeleted s dp r) = winner r"
  "preSeekCountdownInterval (playerDeleted s dp r) = preSeekCountdownInterval r"
  "soundPlaysPerPlayer (playerDeleted s dp r) = soundPlaysPerPlayer r"
  "unfoundPlayerQueue (playerDeleted s dp r) = unfoundPlayerQueue r"
  "activeUnfoundPlayerId (playerDeleted s dp r) = activeUnfoundPlayerId r"
  by (simp_all add: playerDeleted_def)

lemma removePlayer_absent: "getPlayer r s = None \<Longrightarrow> removePlayer s r = (False, r, [])"
  by (simp add: removePlayer_def)

lemma removePlayer_last:
  "getPlayer r s = Some dp \<Longrightarrow> filter (\<lambda>p. playerId p \<noteq> s) (players r) = [] \<Longrightarrow>
   fst (removePlayer s r)"
  by (simp add: removePlayer_def Let_def isEmpty_def)

lemma removePlayer_Waiting:
  assumes "getPlayer r s = Some dp" and "filter (\<lambda>p. playerId p \<noteq> s) (players r) \<noteq> []"
    and "gameState r = Waiting"
  shows "\<not> fst (removePlayer s r)"
    and "fst (snd (removePlayer s r))
          = (if role dp = Hider then promoteNewHider (playerDeleted s dp r) else playerDeleted s dp r)"
  using assms by (simp_all add: removePlayer_def Let_def isEmpty_def playerDeleted_def)

lemma removePlayer_Hiding:
  assumes "getPlayer r s = Some dp" and "filter (\<lambda>p. playerId p \<noteq> s) (players r) \<noteq> []"
    and "gameState r = Hiding"
  shows "\<not> fst (removePlayer s r)"
    and "fst (snd (removePlayer s r))
          = (if checkAllRemainingReady (playerDeleted s dp r) \<and> preSeekCountdownInterval r = None
             then fst (startPreSeekCountdown (playerDeleted s dp r)) else playerDeleted s dp r)"
  using assms by (simp_all add: removePlayer_def Let_def isEmpty_def playerDeleted_def split_beta)

lemma removePlayer_Seeking:
  assumes "getPlayer r s = Some dp" and "filter (\<lambda>p. playerId p \<noteq> s) (players r) \<noteq> []"
    and "gameState r = Seeking"
  shows "\<not> fst (removePlayer s r)"
    and "fst (snd (removePlayer s r))
          = (if role dp = Hider then fst (endGame WinnerSeekers (playerDeleted s dp r))
             else fst (snd (checkSeekerWin (playerDeleted s dp r))))"
  using assms by (simp_all add: removePlayer_def Let_def isEmpty_def playerDeleted_def split_beta)

lemma removePlayer_GameOver:
  assumes "getPlayer r s = Some dp" and "filter (\<lambda>p. playerId p \<noteq> s) (players r) \<noteq> []"
    and "gameState r = GameOver"
  shows "\<not> fst (removePlayer s r)"
    and "fst (snd (removePlayer s r))
          = (if winner r = Some WinnerHider
             then (if Some s = activeUnfoundPlayerId r
                   then fst (activateNextUnfoundPlayer
                          ((playerDeleted s dp r)\<lparr>unfoundPlayerQueue := remove1 s (unfoundPlayerQueue r)\<rparr>))
                   else (playerDeleted s dp r)\<lparr>unfoundPlayerQueue := remove1 s (unfoundPlayerQueue r)\<rparr>)
             else playerDeleted s dp r)"
  using assms by (simp_all add: removePlayer_def Let_def isEmpty_def playerDeleted_def split_beta)

lemma inv_base_removePlayer:
  assumes "inv_base r" and "\<not> fst (removePlayer s r)"
  shows "inv_base (fst (snd (removePlayer s r)))"
proof (cases "getPlayer r s")
  case None
  with assms show ?thesis by (simp add: removePlayer_absent)
next
  case (Some dp)
  let ?rest = "filter (\<lambda>p. playerId p \<noteq> s) (players r)"
  let ?d = "playerDeleted s dp r"
  from assms(2) Some have ne: "?rest \<noteq> []"
    using removePlayer_last by blast
  from assms(1) have d: "distinct (map playerId ?rest)"
    by (simp add: inv_base_def distinct_map_filter)
  from assms(1) have c: "preSeekCountdownInterval r \<noteq> None \<longrightarrow> gameState r = Hiding"
    by (simp add: inv_base_def)
  have base: "inv_base ?d" using ne d c by (simp add: inv_base_def)
  show ?thesis
  proof (cases "gameState r")
    case Waiting
    with base show ?thesis
      by (simp add: removePlayer_Waiting(2)[OF Some ne Waiting] inv_base_def promoteNewHider_fields)
  next
    case Hiding
    with base show ?thesis
      by (simp add: removePlayer_Hiding(2)[OF Some ne Hiding] inv_base_def startPreSeekCountdown_def)
  next
    case Seeking
    with base show ?thesis
      by (simp add: removePlayer_Seeking(2)[OF Some ne Seeking] inv_base_def endGame_fields
            checkSeekerWin_fields)
  next
    case GameOver
    with base show ?thesis
      by (simp add: removePlayer_GameOver(2)[OF Some ne GameOver] inv_base_def activateNext_fields
            activateNext_countdown)
  qed
qed

lemma inv_base_handleDisconnect:
  "inv_base r \<Longrightarrow> fst (handleDisconnect s r) = Some r1 \<Longrightarrow> inv_base r1"
  using inv_base_removePlayer[of r s]
  by (auto simp: handleDisconnect_def split_beta split: option.splits if_splits)

lemma startSeekingPhase_fields:
  "map playerId (players (fst (startSeekingPhase now r))) = map playerId (players r)"
  "gameState (fst (startSeekingPhase now r)) = Seeking"
  "preSeekCountdownInterval (fst (startSeekingPhase now r)) = preSeekCountdownInterval r"
  "soundPlaysPerPlayer (fst (startSeekingPhase now r)) = soundPlaysPerPlayer r"
  "unfoundPlayerQueue (fst (startSeekingPhase now r)) = unfoundPlayerQueue r"
  "activeUnfoundPlayerId (fst (startSeekingPhase now r)) = activeUnfoundPlayerId r"
  "winner (fst (startSeekingPhase now r)) = winner r"
  by (simp_all add: startSeekingPhase_def Let_def startSeekTimer_def resetForSeeking_def comp_def)

lemma inv_base_countdownTick: "inv_base r \<Longrightarrow> inv_base (fst (preSeekCountdownTick True now r))"
  using startSeekingPhase_fields(1)[of now "r\<lparr>preSeekCountdownValue := preSeekCountdownValue r - 1, preSeekCountdownInterval := None\<rparr>"]
  by (auto simp: inv_base_def preSeekCountdownTick_def Let_def split_beta startSeekingPhase_fields
        dest: arg_cong[where f="map playerId"])

lemma inv_base_seekTimerTick: "inv_base r \<Longrightarrow> inv_base (fst (seekTimerTick True now r))"
  by (auto simp: inv_base_def seekTimerTick_def endGame_fields)

lemma scheduleNextSound_fields:
  "map playerId (players (fst (scheduleNextSound now r))) = map playerId (players r)"
  "gameState (fst (scheduleNextSound now r)) = gameState r"
  "preSeekCountdownInterval (fst (scheduleNextSound now r)) = preSeekCountdownInterval r"
  "soundPlaysPerPlayer (fst (scheduleNextSound now r)) = soundPlaysPerPlayer r"
  "unfoundPlayerQueue (fst (scheduleNextSound now r)) = unfoundPlayerQueue r"
  "activeUnfoundPlayerId (fst (scheduleNextSound now r)) = activeUnfoundPlayerId r"
  "winner (fst (scheduleNextSound now r)) = winner r"
  by (simp_all add: scheduleNextSound_def Let_def map_playerId_updatePlayer)

lemma inv_base_soundTimeout: "inv_base r \<Longrightarrow> inv_base (fst (soundRotationTimeoutFired True now r))"
  using scheduleNextSound_fields(1)[of now r]
  by (auto simp: inv_base_def soundRotationTimeoutFired_def scheduleNextSound_fields
        dest: arg_cong[where f="map playerId"])

lemma inv_base_step:
  assumes "inv_base r" and "fst (step e r) = Some r1"
  shows "inv_base r1"
proof (cases e)
  case (JoinRoom s a u)
  with assms inv_base_joinRoom[of r s a u] show ?thesis by (simp add: split_beta)
next
  case (Disconnect s)
  with assms inv_base_handleDisconnect[of r s r1] show ?thesis by simp
next
  case (UpdateSettings s st)
  with assms inv_base_updateSettings[of r s st] show ?thesis by (simp add: split_beta)
next
  case (StartHiding s)
  with assms inv_base_startHiding[of r s] show ?thesis by (simp add: split_beta)
next
  case (ConfirmHidden s)
  with assms inv_base_confirmHidden[of r s] show ?thesis by (simp add: split_beta)
next
  case (MarkSelfFound s)
  with assms inv_base_markSelfFound[of r s] show ?thesis by (simp add: split_beta)
next
  case (RequestPlayAgain s rnd)
  with assms inv_base_requestPlayAgain[of r s rnd] show ?thesis by (simp add: split_beta)
next
  case (CountdownTick now)
  with assms inv_base_countdownTick[of r now] show ?thesis
    by (simp add: split_beta split: if_splits)
next
  case (SeekTimerTick now)
  with assms inv_base_seekTimerTick[of r now] show ?thesis
    by (simp add: split_beta split: if_splits)
next
  case (SoundTimeout now)
  with assms inv_base_soundTimeout[of r now] show ?thesis
    by (simp add: split_beta split: if_splits)
qed

lemma createRoom_result:
  assumes "createRoom code s a u = Inr (p, r, es)"
  shows "r = (fst (assignUniqueSounds a u (newRoom code) (newPlayer s 1 Hider)))\<lparr>players := [p]\<rparr>"
    and "p = snd (assignUniqueSounds a u (newRoom code) (newPlayer s 1 Hider))"
  using assms
  by (auto simp: createRoom_def addPlayer_def Let_def split_beta newRoom_def getPlayer_def
        assignUniqueSounds_players)

lemma newRoom_assign_fields:
  "gameState (fst (assignUniqueSounds a u (newRoom code) p)) = Waiting"
  "preSeekCountdownInterval (fst (assignUniqueSounds a u (newRoom code) p)) = None"
  "soundPlaysPerPlayer (fst (assignUniqueSounds a u (newRoom code) p)) = DEFAULT_SOUND_PLAYS_PER_PLAYER"
  "unfoundPlayerQueue (fst (assignUniqueSounds a u (newRoom code) p)) = []"
  "activeUnfoundPlayerId (fst (assignUniqueSounds a u (newRoom code) p)) = None"
  "role (snd (assignUniqueSounds a u r p)) = role p"
  by (simp_all add: assignUniqueSounds_def Let_def newRoom_def)

lemma inv_base_created: "createRoom code s a u = Inr (p, r, es) \<Longrightarrow> inv_base r"
  using createRoom_result[of code s a u p r es]
  by (simp add: inv_base_def newRoom_assign_fields)

lemma reachable_inv_base: "reachable r \<Longrightarrow> inv_base r"
  by (induction rule: reachable.induct) (auto intro: inv_base_created inv_base_step)

lemma same_id_same_player:
  "distinct (map playerId ps) \<Longrightarrow> p \<in> set ps \<Longrightarrow> q \<in> set ps \<Longrightarrow> playerId p = playerId q \<Longrightarrow> p = q"
  by (meson distinct_map inj_onD)

lemma scheduleNextSound_quota:
  assumes "distinct (map playerId (players r))"
    and "\<forall>p\<in>set (players r). soundsPlayed p \<le> soundPlaysPerPlayer r"
  shows "\<forall>p\<in>set (players (fst (scheduleNextSound now r))). soundsPlayed p \<le> soundPlaysPerPlayer r"
proof (cases "gameState r = Seeking \<and> timeRemainingMs now r > 0 \<and> eligiblePlayers r \<noteq> []")
  case False
  with assms(2) show ?thesis by (auto simp: scheduleNextSound_def Let_def)
next
  case True
  let ?sel = "eligiblePlayers r ! (nextPlayerIndexToPlay r mod length (eligiblePlayers r))"
  from True have sel: "?sel \<in> set (eligiblePlayers r)" by simp
  then have selp: "?sel \<in> set (players r)" and lt: "soundsPlayed ?sel < soundPlaysPerPlayer r"
    by (simp_all add: eligible_set)
  show ?thesis
  proof (cases "truthy (uniqueAnimalSoundURL ?sel)")
    case False
    with True assms(2) totalPlaysLeft_pos[of r] show ?thesis
      by (simp add: scheduleNextSound_def Let_def)
  next
    case t: True
    with True totalPlaysLeft_pos[of r]
    have pl: "players (fst (scheduleNextSound now r))
                = updatePlayer (playerId ?sel) (\<lambda>p. p\<lparr>soundsPlayed := soundsPlayed p + 1\<rparr>) (players r)"
      by (simp add: scheduleNextSound_def Let_def)
    show ?thesis
    proof
      fix p' assume "p' \<in> set (players (fst (scheduleNextSound now r)))"
      then obtain p where p: "p \<in> set (players r)"
        and p': "p' = (if playerId p = playerId ?sel then p\<lparr>soundsPlayed := soundsPlayed p + 1\<rparr> else p)"
        by (auto simp: pl updatePlayer_def)
      show "soundsPlayed p' \<le> soundPlaysPerPlayer r"
      proof (cases "playerId p = playerId ?sel")
        case True
        with assms(1) p selp have "p = ?sel" by (rule same_id_same_player)
        with lt p' True show ?thesis by simp
      next
        case False
        with p p' assms(2) show ?thesis by simp
      qed
    qed
  qed
qed

lemma inv_quota_soundTimeout:
  "inv_base r \<Longrightarrow> inv_quota r \<Longrightarrow> inv_quota (fst (soundRotationTimeoutFired True now r))"
  using scheduleNextSound_quota[of r now]
  by (simp add: inv_quota_def inv_base_def soundRotationTimeoutFired_def scheduleNextSound_fields)

lemma inv_quota_joinRoom: "inv_quota r \<Longrightarrow> inv_quota (fst (on_joinRoom s a u r))"
  by (auto simp: inv_quota_def on_joinRoom_def addPlayer_def Let_def split_beta
        assignUniqueSounds_def split: if_splits)

lemma inv_quota_updateSettings: "inv_quota r \<Longrightarrow> inv_quota (fst (on_updateSettings s st r))"
  by (auto simp: inv_quota_def on_updateSettings_def updateSettings_def Let_def
      split: option.splits if_splits setting_value.splits sum.splits)

lemma inv_quota_startHiding: "inv_quota r \<Longrightarrow> inv_quota (fst (on_startHiding s r))"
  by (auto simp: inv_quota_def on_startHiding_def startHidingPhase_def Let_def clearGameIntervals_def
      split: option.splits if_splits)

lemma inv_quota_confirmHidden: "inv_quota r \<Longrightarrow> inv_quota (fst (on_confirmHidden s r))"
  by (auto simp: inv_quota_def on_confirmHidden_def confirmPlayerHidden_def Let_def
         startPreSeekCountdown_def
      split: option.splits if_splits)

lemma soundsPlayed_updatePlayer:
  "(\<And>p. soundsPlayed (f p) = soundsPlayed p) \<Longrightarrow>
   \<forall>p\<in>set ps. soundsPlayed p \<le> n \<Longrightarrow> \<forall>p\<in>set (updatePlayer s f ps). soundsPlayed p \<le> n"
  by (auto simp: updatePlayer_def)

lemma inv_quota_markSelfFound: "inv_quota r \<Longrightarrow> inv_quota (fst (on_markSelfFound s r))"
proof (cases "markPlayerFound s r")
  case (Inl e)
  then show "inv_quota r \<Longrightarrow> ?thesis" by (simp add: on_markSelfFound_def split: option.splits)
next
  case (Inr b)
  assume q: "inv_quota r"
  let ?ra = "r\<lparr>players := updatePlayer s (\<lambda>p. p\<lparr>isFound := True\<rparr>) (players r)\<rparr>"
  have qa: "\<forall>p\<in>set (players r). soundsPlayed p \<le> soundPlaysPerPlayer r \<Longrightarrow>
            \<forall>p\<in>set (players ?ra). soundsPlayed p \<le> soundPlaysPerPlayer r"
    using soundsPlayed_updatePlayer[of "\<lambda>p. p\<lparr>isFound := True\<rparr>" "players r" "soundPlaysPerPlayer r" s]
    by simp
  from q qa show ?thesis
    by (auto simp: inv_quota_def on_markSelfFound_def markPlayerFound_def Let_def split_beta
          checkSeekerWin_fields activateNext_fields
        split: option.splits if_splits)
qed

lemma inv_quota_requestPlayAgain: "inv_quota r \<Longrightarrow> inv_quota (fst (on_requestPlayAgain s rnd r))"
  by (auto simp: inv_quota_def on_requestPlayAgain_def requestPlayAgain_def resetForNewGame_def
         Let_def split_beta reassignAll_room clearGameIntervals_def
      split: option.splits if_splits)

lemma inv_quota_playerDeleted: "inv_quota r \<Longrightarrow> inv_quota (playerDeleted s dp r)"
  by (simp add: inv_quota_def)

lemma promoteNewHider_soundsPlayed:
  "\<forall>p\<in>set (players r). soundsPlayed p \<le> n \<Longrightarrow> \<forall>p\<in>set (players (promoteNewHider r)). soundsPlayed p \<le> n"
  using soundsPlayed_updatePlayer[of "\<lambda>p. p\<lparr>role := Hider\<rparr>" "players r" n]
  by (simp add: promoteNewHider_def split: list.splits)

lemma inv_quota_removePlayer:
  assumes "inv_quota r" and "\<not> fst (removePlayer s r)"
  shows "inv_quota (fst (snd (removePlayer s r)))"
proof (cases "getPlayer r s")
  case None
  with assms show ?thesis by (simp add: removePlayer_absent)
next
  case (Some dp)
  let ?d = "playerDeleted s dp r"
  from assms(2) Some have ne: "filter (\<lambda>p. playerId p \<noteq> s) (players r) \<noteq> []"
    using removePlayer_last by blast
  have base: "inv_quota ?d" using assms(1) by (rule inv_quota_playerDeleted)
  show ?thesis
  proof (cases "gameState r")
    case Waiting
    with base show ?thesis
      by (simp add: removePlayer_Waiting(2)[OF Some ne Waiting] inv_quota_def promoteNewHider_fields)
  next
    case Hiding
    with base show ?thesis
      by (simp add: removePlayer_Hiding(2)[OF Some ne Hiding] inv_quota_def startPreSeekCountdown_def)
  next
    case Seeking
    with base show ?thesis
      by (simp add: removePlayer_Seeking(2)[OF Some ne Seeking] inv_quota_def endGame_fields
            checkSeekerWin_fields)
  next
    case GameOver
    with base show ?thesis
      by (simp add: removePlayer_GameOver(2)[OF Some ne GameOver] inv_quota_def activateNext_fields)
  qed
qed

lemma inv_quota_handleDisconnect:
  "inv_quota r \<Longrightarrow> fst (handleDisconnect s r) = Some r1 \<Longrightarrow> inv_quota r1"
  using inv_quota_removePlayer[of r s]
  by (auto simp: handleDisconnect_def split_beta split: option.splits if_splits)

lemma startSeekingPhase_quota:
  "0 \<le> soundPlaysPerPlayer r \<Longrightarrow>
   (gameState r = Seeking \<longrightarrow> (\<forall>p\<in>set (players r). soundsPlayed p \<le> soundPlaysPerPlayer r)) \<Longrightarrow>
   \<forall>p\<in>set (players (fst (startSeekingPhase now r))). soundsPlayed p \<le> soundPlaysPerPlayer r"
  by (auto simp: startSeekingPhase_def Let_def startSeekTimer_def resetForSeeking_def)

lemma inv_quota_countdownTick: "inv_quota r \<Longrightarrow> inv_quota (fst (preSeekCountdownTick True now r))"
  using startSeekingPhase_quota[of "r\<lparr>preSeekCountdownValue := preSeekCountdownValue r - 1, preSeekCountdownInterval := None\<rparr>" now]
  by (auto simp: inv_quota_def preSeekCountdownTick_def Let_def split_beta startSeekingPhase_fields
        MIN_SOUND_PLAYS_def)

lemma inv_quota_seekTimerTick: "inv_quota r \<Longrightarrow> inv_quota (fst (seekTimerTick True now r))"
  by (auto simp: inv_quota_def seekTimerTick_def endGame_fields)

lemma inv_quota_step:
  assumes "inv_base r" and "inv_quota r" and "fst (step e r) = Some r1"
  shows "inv_quota r1"
proof (cases e)
  case (JoinRoom s a u)
  with assms inv_quota_joinRoom[of r s a u] show ?thesis by (simp add: split_beta)
next
  case (Disconnect s)
  with assms inv_quota_handleDisconnect[of r s r1] show ?thesis by simp
next
  case (UpdateSettings s st)
  with assms inv_quota_updateSettings[of r s st] show ?thesis by (simp add: split_beta)
next
  case (StartHiding s)
  with assms inv_quota_startHiding[of r s] show ?thesis by (simp add: split_beta)
next
  case (ConfirmHidden s)
  with assms inv_quota_confirmHidden[of r s] show ?thesis by (simp add: split_beta)
next
  case (MarkSelfFound s)
  with assms inv_quota_markSelfFound[of r s] show ?thesis by (simp add: split_beta)
next
  case (RequestPlayAgain s rnd)
  with assms inv_quota_requestPlayAgain[of r s rnd] show ?thesis by (simp add: split_beta)
next
  case (CountdownTick now)
  with assms inv_quota_countdownTick[of r now] show ?thesis
    by (simp add: split_beta split: if_splits)
next
  case (SeekTimerTick now)
  with assms inv_quota_seekTimerTick[of r now] show ?thesis
    by (simp add: split_beta split: if_splits)
next
  case (SoundTimeout now)
  with assms inv_quota_soundTimeout[of r now] show ?thesis
    by (simp add: split_beta split: if_splits)
qed

lemma inv_quota_created: "createRoom code s a u = Inr (p, r, es) \<Longrightarrow> inv_quota r"
  using createRoom_result[of code s a u p r es]
  by (simp add: inv_quota_def newRoom_assign_fields DEFAULT_SOUND_PLAYS_PER_PLAYER_def
        MIN_SOUND_PLAYS_def MAX_SOUND_PLAYS_def)

lemma reachable_inv_quota: "reachable r \<Longrightarrow> inv_quota r"
  by (induction rule: reachable.induct)
     (auto intro: inv_quota_created inv_quota_step reachable_inv_base)

lemma reachable_run: "reachable r \<Longrightarrow> run evs r = Some r1 \<Longrightarrow> reachable r1"
proof (induction evs arbitrary: r)
  case Nil
  then show ?case by simp
next
  case (Cons e evs)
  then show ?case
    by (cases "fst (step e r)") (auto intro: reachable.stepped)
qed

lemma exampleCreated_reachable: "reachable (fst (on_joinRoom ''s1'' 0 0 (newRoom ''ABCDE'')))"
proof -
  have "createRoom ''ABCDE'' ''s1'' 0 0
          = Inr (hd (players (fst (on_joinRoom ''s1'' 0 0 (newRoom ''ABCDE'')))),
                 fst (on_joinRoom ''s1'' 0 0 (newRoom ''ABCDE'')),
                 snd (on_joinRoom ''s1'' 0 0 (newRoom ''ABCDE'')))"
    by code_simp
  then show ?thesis by (rule reachable.created)
qed

lemma exampleSeeking_reachable: "reachable exampleSeeking"
proof -
  have "run [JoinRoom ''s2'' 0 0, StartHiding ''s1'', ConfirmHidden ''s1'', ConfirmHidden ''s2'',
             CountdownTick 1000, CountdownTick 2000, CountdownTick 3000, CountdownTick 4000,
             CountdownTick 5000, CountdownTick 6000, CountdownTick 7000, CountdownTick 8000,
             CountdownTick 9000, CountdownTick 10000]
          (fst (on_joinRoom ''s1'' 0 0 (newRoom ''ABCDE''))) = Some exampleSeeking"
    by code_simp
  with exampleCreated_reachable show ?thesis by (rule reachable_run)
qed

lemma exampleAllPlayed_reachable: "reachable exampleAllPlayed"
proof -
  have "run [SoundTimeout 11000, SoundTimeout 20000, SoundTimeout 29000, SoundTimeout 38000,
             SoundTimeout 47000, SoundTimeout 56000, SoundTimeout 65000, SoundTimeout 74000,
             SoundTimeout 83000, SoundTimeout 92000, SoundTimeout 101000, SoundTimeout 110000]
          exampleSeeking = Some exampleAllPlayed"
    by code_simp
  with exampleSeeking_reachable show ?thesis by (rule reachable_run)
qed

section \<open>The quota on sound cues\<close>

text \<open>
  Claim C6. In every reachable room that is in the Seeking phase, no player's
  \<open>soundsPlayed\<close> exceeds the room's \<open>soundPlaysPerPlayer\<close>, whatever sequence of
  client messages and timer firings led there.
\<close>

theorem c6_sounds_played_within_quota:
  assumes "reachable r" and "gameState r = Seeking" and "p \<in> set (players r)"
  shows "soundsPlayed p \<le> soundPlaysPerPlayer r"
  using reachable_inv_quota[OF assms(1)] assms(2,3) by (simp add: inv_quota_def)

theorem c6_witness:
  "reachable exampleAllPlayed \<and> gameState exampleAllPlayed = Seeking
   \<and> hd (players exampleAllPlayed) \<in> set (players exampleAllPlayed)
   \<and> soundsPlayed (hd (players exampleAllPlayed)) = 6
   \<and> soundPlaysPerPlayer exampleAllPlayed = 6
   \<and> soundsPlayed (hd (players exampleAllPlayed)) \<le> soundPlaysPerPlayer exampleAllPlayed"
proof -
  have h2: "gameState exampleAllPlayed = Seeking" by code_simp
  have h3: "hd (players exampleAllPlayed) \<in> set (players exampleAllPlayed)" by code_simp
  have h4: "soundsPlayed (hd (players exampleAllPlayed)) = 6" by code_simp
  have h5: "soundPlaysPerPlayer exampleAllPlayed = 6" by code_simp
  from c6_sounds_played_within_quota[OF exampleAllPlayed_reachable h2 h3]
       exampleAllPlayed_reachable h2 h3 h4 h5
  show ?thesis by simp
qed

section \<open>The Hider role\<close>

lemma hiders_roles: "length (hiders r) = length (filter (\<lambda>x. x = Hider) (map role (players r)))"
  by (simp add: hiders_def filter_map comp_def)

lemma map_role_updatePlayer:
  "(\<And>p. role (f p) = role p) \<Longrightarrow> map role (updatePlayer s f ps) = map role ps"
  by (induction ps) (simp_all add: updatePlayer_def)

lemma roles_updateSettings: "map role (players (fst (on_updateSettings s st r))) = map role (players r)"
  by (auto simp: on_updateSettings_def updateSettings_def Let_def
      split: option.splits if_splits setting_value.splits sum.splits)

lemma roles_startHiding: "map role (players (fst (on_startHiding s r))) = map role (players r)"
  by (auto simp: on_startHiding_def startHidingPhase_def Let_def clearGameIntervals_def
        player_resetForNewGame_def
      split: option.splits if_splits)

lemma roles_confirmHidden: "map role (players (fst (on_confirmHidden s r))) = map role (players r)"
  by (auto simp: on_confirmHidden_def confirmPlayerHidden_def Let_def
         startPreSeekCountdown_def map_role_updatePlayer
      split: option.splits if_splits)

lemma roles_markSelfFound: "map role (players (fst (on_markSelfFound s r))) = map role (players r)"
  by (auto simp: on_markSelfFound_def markPlayerFound_def Let_def split_beta
         map_role_updatePlayer checkSeekerWin_fields activateNext_fields
      split: option.splits if_splits)

lemma roles_requestPlayAgain:
  "map role (players (fst (on_requestPlayAgain s rnd r))) = map role (players r)"
  by (auto simp: on_requestPlayAgain_def requestPlayAgain_def resetForNewGame_def
         Let_def split_beta reassignAll_roles clearGameIntervals_def
      split: option.splits if_splits)

lemma roles_countdownTick:
  "map role (players (fst (preSeekCountdownTick True now r))) = map role (players r)"
  by (auto simp: preSeekCountdownTick_def Let_def split_beta startSeekingPhase_def startSeekTimer_def
        resetForSeeking_def)

lemma roles_seekTimerTick:
  "map role (players (fst (seekTimerTick True now r))) = map role (players r)"
  by (auto simp: seekTimerTick_def endGame_fields)

lemma roles_soundTimeout:
  "map role (players (fst (soundRotationTimeoutFired True now r))) = map role (players r)"
  by (auto simp: soundRotationTimeoutFired_def scheduleNextSound_def Let_def map_role_updatePlayer)

lemma hiders_joinRoom:
  "players r \<noteq> [] \<Longrightarrow> length (hiders (fst (on_joinRoom s a u r))) = length (hiders r)"
  by (auto simp: hiders_def on_joinRoom_def addPlayer_def Let_def split_beta newPlayer_def
        assignUniqueSounds_players newRoom_assign_fields split: if_splits)

lemma hiders_playerDeleted_other:
  assumes "getPlayer r s = Some dp" and "distinct (map playerId (players r))" and "role dp \<noteq> Hider"
  shows "hiders (playerDeleted s dp r) = hiders r"
proof -
  from assms(1) have dp: "dp \<in> set (players r)" "playerId dp = s" by (auto dest: getPlayer_SomeD)
  have "\<And>p. p \<in> set (players r) \<Longrightarrow> role p = Hider \<Longrightarrow> playerId p \<noteq> s"
    using same_id_same_player[OF assms(2) _ dp(1)] dp(2) assms(3) by auto
  then show ?thesis
    by (auto simp: hiders_def intro!: filter_cong)
qed

lemma hiders_playerDeleted_hider:
  assumes "getPlayer r s = Some dp" and "length (hiders r) \<le> 1" and "role dp = Hider"
  shows "hiders (playerDeleted s dp r) = []"
proof -
  from assms(1) have dp: "dp \<in> set (players r)" "playerId dp = s" by (auto dest: getPlayer_SomeD)
  with assms(3) have "dp \<in> set (hiders r)" by (simp add: hiders_def)
  with assms(2) have "hiders r = [dp]"
    by (cases "hiders r") (auto simp: Suc_le_eq)
  then have "\<And>p. p \<in> set (players r) \<Longrightarrow> role p = Hider \<Longrightarrow> p = dp"
    by (metis (mono_tags, lifting) hiders_def mem_Collect_eq set_filter set_ConsD empty_iff empty_set)
  with dp show ?thesis by (auto simp: hiders_def filter_empty_conv)
qed

lemma promote_one:
  "distinct (map playerId ps) \<Longrightarrow> p0 \<in> set ps \<Longrightarrow> filter (\<lambda>p. role p = Hider) ps = [] \<Longrightarrow>
   filter (\<lambda>p. role p = Hider) (updatePlayer (playerId p0) (\<lambda>p. p\<lparr>role := Hider\<rparr>) ps)
     = [p0\<lparr>role := Hider\<rparr>]"
proof (induction ps)
  case Nil
  then show ?case by simp
next
  case (Cons a ps)
  show ?case
  proof (cases "a = p0")
    case True
    from Cons.prems(1) True have "\<forall>p\<in>set ps. playerId p \<noteq> playerId p0"
      by (auto simp: image_iff)
    then have "updatePlayer (playerId p0) (\<lambda>p. p\<lparr>role := Hider\<rparr>) ps = ps"
      by (induction ps) (simp_all add: updatePlayer_def)
    with Cons.prems(3) True show ?thesis
      by (simp add: updatePlayer_def split: if_splits)
  next
    case False
    with Cons.prems have "p0 \<in> set ps" "playerId a \<noteq> playerId p0" by auto
    with Cons show ?thesis by (simp add: updatePlayer_def split: if_splits)
  qed
qed

lemma hd_sortedPlayers:
  assumes "ps \<noteq> []"
  shows "hd (sortedPlayers ps) \<in> set ps" and "\<forall>x\<in>set ps. number (hd (sortedPlayers ps)) \<le> number x"
proof -
  have ne: "sortedPlayers ps \<noteq> []" using assms
    by (metis sortedPlayers_def length_sort length_0_conv)
  then obtain y ys where y: "sortedPlayers ps = y # ys" by (cases "sortedPlayers ps") auto
  have s: "set (sortedPlayers ps) = set ps" by (simp add: sortedPlayers_def)
  from y s show "hd (sortedPlayers ps) \<in> set ps" by auto
  have "sorted (map number (sortedPlayers ps))" by (simp add: sortedPlayers_def)
  with y have "\<forall>z\<in>set ys. number y \<le> number z" by simp
  with y s show "\<forall>x\<in>set ps. number (hd (sortedPlayers ps)) \<le> number x" by auto
qed

lemma promoteNewHider_hiders:
  assumes "players r \<noteq> []" and "distinct (map playerId (players r))" and "hiders r = []"
  shows "hiders (promoteNewHider r) = [(hd (sortedPlayers (players r)))\<lparr>role := Hider\<rparr>]"
proof -
  have "sortedPlayers (players r) \<noteq> []" using assms(1)
    by (metis sortedPlayers_def length_sort length_0_conv)
  then obtain y ys where y: "sortedPlayers (players r) = y # ys"
    by (cases "sortedPlayers (players r)") auto
  with hd_sortedPlayers(1)[OF assms(1)] have "y \<in> set (players r)" by simp
  from promote_one[OF assms(2) this] assms(3) y show ?thesis
    by (simp add: promoteNewHider_def hiders_def)
qed

lemma promoteNewHider_numbers: "map number (players (promoteNewHider r)) = map number (players r)"
  by (simp add: promoteNewHider_def updatePlayer_def comp_def split: list.splits)

lemma removePlayer_players_midgame:
  assumes "getPlayer r s = Some dp" and "filter (\<lambda>p. playerId p \<noteq> s) (players r) \<noteq> []"
    and "gameState r \<noteq> Waiting"
  shows "players (fst (snd (removePlayer s r))) = filter (\<lambda>p. playerId p \<noteq> s) (players r)"
proof (cases "gameState r")
  case Waiting
  with assms(3) show ?thesis by simp
next
  case Hiding
  show ?thesis
    by (simp add: removePlayer_Hiding(2)[OF assms(1,2) Hiding] startPreSeekCountdown_def)
next
  case Seeking
  show ?thesis
    by (simp add: removePlayer_Seeking(2)[OF assms(1,2) Seeking] endGame_fields checkSeekerWin_fields)
next
  case GameOver
  show ?thesis
    by (simp add: removePlayer_GameOver(2)[OF assms(1,2) GameOver] activateNext_fields)
qed

lemma hiders_cong: "players r1 = players r2 \<Longrightarrow> hiders r1 = hiders r2"
  by (simp add: hiders_def)

lemma inv_base_playerDeleted:
  "inv_base r \<Longrightarrow> filter (\<lambda>p. playerId p \<noteq> s) (players r) \<noteq> [] \<Longrightarrow>
   players (playerDeleted s dp r) \<noteq> [] \<and> distinct (map playerId (players (playerDeleted s dp r)))"
  by (simp add: inv_base_def distinct_map_filter)

lemma hiders_removePlayer:
  assumes "inv_base r" and "length (hiders r) \<le> 1" and "\<not> fst (removePlayer s r)"
  shows "length (hiders (fst (snd (removePlayer s r)))) \<le> 1"
    and "length (hiders r) = 1 \<Longrightarrow> \<not> hiderLeavesMidGame (Disconnect s) r \<Longrightarrow>
         length (hiders (fst (snd (removePlayer s r)))) = 1"
proof -
  let ?r' = "fst (snd (removePlayer s r))"
  have "length (hiders ?r') \<le> 1
        \<and> (length (hiders r) = 1 \<longrightarrow> \<not> hiderLeavesMidGame (Disconnect s) r \<longrightarrow> length (hiders ?r') = 1)"
  proof (cases "getPlayer r s")
    case None
    with assms(2) show ?thesis by (simp add: removePlayer_absent)
  next
    case (Some dp)
    let ?d = "playerDeleted s dp r"
    from assms(3) Some have ne: "filter (\<lambda>p. playerId p \<noteq> s) (players r) \<noteq> []"
      using removePlayer_last by blast
    from assms(1) have dist: "distinct (map playerId (players r))" by (simp add: inv_base_def)
    note bd = inv_base_playerDeleted[OF assms(1) ne, of dp]
    show ?thesis
    proof (cases "role dp = Hider")
      case False
      have hd: "hiders ?d = hiders r" using Some dist False by (rule hiders_playerDeleted_other)
      have "hiders ?r' = hiders ?d"
      proof (cases "gameState r = Waiting")
        case True
        with False show ?thesis by (simp add: removePlayer_Waiting(2)[OF Some ne True])
      next
        case mid: False
        show ?thesis
          by (rule hiders_cong) (simp add: removePlayer_players_midgame[OF Some ne mid])
      qed
      with hd assms(2) show ?thesis by simp
    next
      case True
      have hd: "hiders ?d = []" using Some assms(2) True by (rule hiders_playerDeleted_hider)
      show ?thesis
      proof (cases "gameState r = Waiting")
        case w: True
        from bd hd have "length (hiders (promoteNewHider ?d)) = 1"
          by (simp add: promoteNewHider_hiders)
        with True show ?thesis by (simp add: removePlayer_Waiting(2)[OF Some ne w])
      next
        case mid: False
        have "hiders ?r' = hiders ?d"
          by (rule hiders_cong) (simp add: removePlayer_players_midgame[OF Some ne mid])
        with hd Some True mid show ?thesis by (simp add: hiderLeavesMidGame_def)
      qed
    qed
  qed
  then show "length (hiders ?r') \<le> 1"
    and "length (hiders r) = 1 \<Longrightarrow> \<not> hiderLeavesMidGame (Disconnect s) r \<Longrightarrow> length (hiders ?r') = 1"
    by simp_all
qed

lemma hiders_same_roles:
  "map role (players r1) = map role (players r) \<Longrightarrow> length (hiders r1) = length (hiders r)"
  by (simp only: hiders_roles)

lemma hiders_step_same:
  assumes "inv_base r" and "fst (step e r) = Some r1" and "\<And>s. e \<noteq> Disconnect s"
  shows "length (hiders r1) = length (hiders r)"
proof (cases e)
  case (JoinRoom s a u)
  with assms hiders_joinRoom[of r s a u] show ?thesis by (simp add: split_beta inv_base_def)
next
  case (Disconnect s)
  with assms(3)[of s] show ?thesis by simp
next
  case (UpdateSettings s st)
  with assms(2) have "r1 = fst (on_updateSettings s st r)" by (simp add: split_beta)
  then show ?thesis using hiders_same_roles[OF roles_updateSettings] by simp
next
  case (StartHiding s)
  with assms(2) have "r1 = fst (on_startHiding s r)" by (simp add: split_beta)
  then show ?thesis using hiders_same_roles[OF roles_startHiding] by simp
next
  case (ConfirmHidden s)
  with assms(2) have "r1 = fst (on_confirmHidden s r)" by (simp add: split_beta)
  then show ?thesis using hiders_same_roles[OF roles_confirmHidden] by simp
next
  case (MarkSelfFound s)
  with assms(2) have "r1 = fst (on_markSelfFound s r)" by (simp add: split_beta)
  then show ?thesis using hiders_same_roles[OF roles_markSelfFound] by simp
next
  case (RequestPlayAgain s rnd)
  with assms(2) have "r1 = fst (on_requestPlayAgain s rnd r)" by (simp add: split_beta)
  then show ?thesis using hiders_same_roles[OF roles_requestPlayAgain] by simp
next
  case (CountdownTick now)
  with assms(2) have "r1 = r \<or> r1 = fst (preSeekCountdownTick True now r)"
    by (auto simp add: split_beta split: if_splits)
  then show ?thesis using hiders_same_roles[OF roles_countdownTick] by auto
next
  case (SeekTimerTick now)
  with assms(2) have "r1 = r \<or> r1 = fst (seekTimerTick True now r)"
    by (auto simp add: split_beta split: if_splits)
  then show ?thesis using hiders_same_roles[OF roles_seekTimerTick] by auto
next
  case (SoundTimeout now)
  with assms(2) have "r1 = r \<or> r1 = fst (soundRotationTimeoutFired True now r)"
    by (auto simp add: split_beta split: if_splits)
  then show ?thesis using hiders_same_roles[OF roles_soundTimeout] by auto
qed

lemma hiders_step:
  assumes "inv_base r" and "length (hiders r) \<le> 1" and "fst (step e r) = Some r1"
  shows "length (hiders r1) \<le> 1"
    and "length (hiders r) = 1 \<Longrightarrow> \<not> hiderLeavesMidGame e r \<Longrightarrow> length (hiders r1) = 1"
proof -
  have "length (hiders r1) \<le> 1
        \<and> (length (hiders r) = 1 \<longrightarrow> \<not> hiderLeavesMidGame e r \<longrightarrow> length (hiders r1) = 1)"
  proof (cases "\<exists>s. e = Disconnect s")
    case False
    then have "\<And>s. e \<noteq> Disconnect s" by blast
    from hiders_step_same[OF assms(1,3) this] assms(2) show ?thesis by simp
  next
    case True
    then obtain s where e: "e = Disconnect s" by blast
    show ?thesis
    proof (cases "getPlayer r s")
      case None
      with assms e show ?thesis by (simp add: handleDisconnect_def)
    next
      case (Some dp)
      with assms(3) e have nd: "\<not> fst (removePlayer s r)" and r1: "r1 = fst (snd (removePlayer s r))"
        by (auto simp: handleDisconnect_def split_beta split: if_splits)
      from hiders_removePlayer[OF assms(1,2) nd] e r1 show ?thesis by simp
    qed
  qed
  then show "length (hiders r1) \<le> 1"
    and "length (hiders r) = 1 \<Longrightarrow> \<not> hiderLeavesMidGame e r \<Longrightarrow> length (hiders r1) = 1"
    by simp_all
qed

lemma hiders_created: "createRoom code s a u = Inr (p, r, es) \<Longrightarrow> length (hiders r) = 1"
  using createRoom_result[of code s a u p r es]
  by (simp add: hiders_def newRoom_assign_fields newPlayer_def)

lemma reachable_hiders: "reachable r \<Longrightarrow> length (hiders r) \<le> 1"
proof (induction rule: reachable.induct)
  case (created code socketId rndA rndU p r es)
  then show ?case using hiders_created by fastforce
next
  case (stepped r e r1)
  then show ?case using hiders_step(1) reachable_inv_base by blast
qed

lemma exampleWaiting_reachable: "reachable exampleWaiting"
proof -
  have "run [JoinRoom ''s2'' 0 0] (fst (on_joinRoom ''s1'' 0 0 (newRoom ''ABCDE'')))
          = Some exampleWaiting"
    by code_simp
  with exampleCreated_reachable show ?thesis by (rule reachable_run)
qed

lemma exampleHiding_reachable: "reachable exampleHiding"
proof -
  have "run [StartHiding ''s1''] exampleWaiting = Some exampleHiding" by code_simp
  with exampleWaiting_reachable show ?thesis by (rule reachable_run)
qed

text \<open>
  Claim C1, as stated, fails: a room can be non-empty and have no Hider. When the Hider
  leaves during Seeking the game ends for the Seekers and nobody is promoted; when the
  Hider leaves during Hiding nobody is promoted either. In both example rooms the second
  player remains, as a Seeker.
\<close>

theorem c1_counterexample:
  "reachable exampleHiderLeftSeeking
   \<and> map role (players exampleHiderLeftSeeking) = [Seeker]
   \<and> hiders exampleHiderLeftSeeking = []
   \<and> gameState exampleHiderLeftSeeking = GameOver
   \<and> reachable exampleHiderLeftHiding
   \<and> map role (players exampleHiderLeftHiding) = [Seeker]
   \<and> hiders exampleHiderLeftHiding = []
   \<and> gameState exampleHiderLeftHiding = Hiding"
proof -
  have "run [Disconnect ''s1''] exampleSeeking = Some exampleHiderLeftSeeking" by code_simp
  with exampleSeeking_reachable have a: "reachable exampleHiderLeftSeeking" by (rule reachable_run)
  have "run [Disconnect ''s1''] exampleHiding = Some exampleHiderLeftHiding" by code_simp
  with exampleHiding_reachable have b: "reachable exampleHiderLeftHiding" by (rule reachable_run)
  have c: "map role (players exampleHiderLeftSeeking) = [Seeker]"
    "hiders exampleHiderLeftSeeking = []" "gameState exampleHiderLeftSeeking = GameOver"
    "map role (players exampleHiderLeftHiding) = [Seeker]"
    "hiders exampleHiderLeftHiding = []" "gameState exampleHiderLeftHiding = Hiding"
    by code_simp+
  from a b c show ?thesis by simp
qed

text \<open>
  Claim C1, amended. Every reachable room has a player and at most one Hider. A room has
  exactly one Hider when it is created, and every event keeps it at exactly one, except
  the removal of the Hider outside the Waiting phase, about which nothing is said here.
  Whenever the Hider is removed while the room is in Waiting and other players remain,
  the player promoted is the first of the remaining players sorted by \<open>number\<close>, whose
  number is minimal among them, and is then the only Hider.
\<close>

theorem c1_at_most_one_hider:
  "(reachable r \<longrightarrow> players r \<noteq> [] \<and> length (hiders r) \<le> 1)
   \<and> (createRoom code s0 a u = Inr (p0, r0, es0) \<longrightarrow> length (hiders r0) = 1)
   \<and> (reachable r \<and> length (hiders r) = 1 \<and> fst (step e r) = Some r1
        \<and> \<not> hiderLeavesMidGame e r \<longrightarrow> length (hiders r1) = 1)
   \<and> (reachable r \<and> gameState r = Waiting \<and> getPlayer r s = Some p \<and> role p = Hider
        \<and> fst (step (Disconnect s) r) = Some r2
        \<and> rest = filter (\<lambda>q. playerId q \<noteq> s) (players r) \<longrightarrow>
          rest \<noteq> []
          \<and> hiders r2 = [(hd (sortedPlayers rest))\<lparr>role := Hider\<rparr>]
          \<and> hd (sortedPlayers rest) \<in> set rest
          \<and> (\<forall>x\<in>set rest. number (hd (sortedPlayers rest)) \<le> number x)
          \<and> map playerId (players r2) = map playerId rest)"
proof (intro conjI impI)
  assume "reachable r"
  then show "players r \<noteq> []" using reachable_inv_base by (auto simp: inv_base_def)
next
  assume "reachable r"
  then show "length (hiders r) \<le> 1" by (rule reachable_hiders)
next
  assume "createRoom code s0 a u = Inr (p0, r0, es0)"
  then show "length (hiders r0) = 1" by (rule hiders_created)
next
  assume a: "reachable r \<and> length (hiders r) = 1 \<and> fst (step e r) = Some r1
        \<and> \<not> hiderLeavesMidGame e r"
  then have "inv_base r" "length (hiders r) \<le> 1" using reachable_inv_base by auto
  from hiders_step(2)[OF this, of e r1] a show "length (hiders r1) = 1" by simp
next
  assume a: "reachable r \<and> gameState r = Waiting \<and> getPlayer r s = Some p \<and> role p = Hider
        \<and> fst (step (Disconnect s) r) = Some r2
        \<and> rest = filter (\<lambda>q. playerId q \<noteq> s) (players r)"
  then have ib: "inv_base r" and h1: "length (hiders r) \<le> 1"
    using reachable_inv_base reachable_hiders by auto
  from a have gp: "getPlayer r s = Some p" and w: "gameState r = Waiting" and hr: "role p = Hider"
    and rest: "rest = filter (\<lambda>q. playerId q \<noteq> s) (players r)" by simp_all
  from a have nd: "\<not> fst (removePlayer s r)" and r2: "r2 = fst (snd (removePlayer s r))"
    by (auto simp: handleDisconnect_def split_beta split: if_splits)
  from nd gp have ne: "filter (\<lambda>q. playerId q \<noteq> s) (players r) \<noteq> []"
    using removePlayer_last by blast
  let ?d = "playerDeleted s p r"
  have r2': "r2 = promoteNewHider ?d"
    using hr by (simp add: r2 removePlayer_Waiting(2)[OF gp ne w])
  have hd: "hiders ?d = []" using gp h1 hr by (rule hiders_playerDeleted_hider)
  note bd = inv_base_playerDeleted[OF ib ne, of p]
  from ne show "rest \<noteq> []" by (simp add: rest)
  from promoteNewHider_hiders[of ?d] bd hd
  show "hiders r2 = [(hd (sortedPlayers rest))\<lparr>role := Hider\<rparr>]"
    by (simp add: r2' rest)
  from ne show "hd (sortedPlayers rest) \<in> set rest"
    using hd_sortedPlayers(1)[of rest] by (simp add: rest)
  from ne show "\<forall>x\<in>set rest. number (hd (sortedPlayers rest)) \<le> number x"
    using hd_sortedPlayers(2)[of rest] by (simp add: rest)
  show "map playerId (players r2) = map playerId rest"
    by (simp add: r2' promoteNewHider_fields rest)
qed

theorem c1_witness:
  "reachable exampleSeeking \<and> players exampleSeeking \<noteq> [] \<and> length (hiders exampleSeeking) \<le> 1
   \<and> length (hiders (fst (on_joinRoom ''s1'' 0 0 (newRoom ''ABCDE'')))) = 1
   \<and> reachable exampleWaiting \<and> length (hiders exampleWaiting) = 1
   \<and> fst (step (StartHiding ''s1'') exampleWaiting) = Some exampleHiding
   \<and> \<not> hiderLeavesMidGame (StartHiding ''s1'') exampleWaiting
   \<and> length (hiders exampleHiding) = 1
   \<and> gameState exampleWaiting = Waiting
   \<and> map_option role (getPlayer exampleWaiting ''s1'') = Some Hider
   \<and> fst (step (Disconnect ''s1'') exampleWaiting) = Some exampleHiderLeftWaiting
   \<and> map playerId (hiders exampleHiderLeftWaiting) = [''s2'']
   \<and> map playerId (players exampleHiderLeftWaiting) = [''s2'']"
proof -
  let ?r0 = "fst (on_joinRoom ''s1'' 0 0 (newRoom ''ABCDE''))"
  let ?rest = "filter (\<lambda>q. playerId q \<noteq> ''s1'') (players exampleWaiting)"
  have c: "createRoom ''ABCDE'' ''s1'' 0 0
             = Inr (hd (players ?r0), ?r0, snd (on_joinRoom ''s1'' 0 0 (newRoom ''ABCDE'')))"
    by code_simp
  have w1: "length (hiders exampleWaiting) = 1" by code_simp
  have w2: "fst (step (StartHiding ''s1'') exampleWaiting) = Some exampleHiding" by code_simp
  have w3: "\<not> hiderLeavesMidGame (StartHiding ''s1'') exampleWaiting" by code_simp
  have w4: "gameState exampleWaiting = Waiting" by code_simp
  have w5: "getPlayer exampleWaiting ''s1'' = Some (hd (players exampleWaiting))" by code_simp
  have w6: "role (hd (players exampleWaiting)) = Hider" by code_simp
  have w7: "fst (step (Disconnect ''s1'') exampleWaiting) = Some exampleHiderLeftWaiting"
    by code_simp
  have w8: "playerId (hd (sortedPlayers ?rest)) = ''s2''" by code_simp
  have w9: "map playerId ?rest = [''s2'']" by code_simp
  from c1_at_most_one_hider[of exampleSeeking] exampleSeeking_reachable
  have p1: "players exampleSeeking \<noteq> [] \<and> length (hiders exampleSeeking) \<le> 1" by blast
  from c1_at_most_one_hider[of _ "''ABCDE''" "''s1''" 0 0 "hd (players ?r0)" ?r0
         "snd (on_joinRoom ''s1'' 0 0 (newRoom ''ABCDE''))"] c
  have p2: "length (hiders ?r0) = 1" by blast
  from c1_at_most_one_hider[of exampleWaiting _ _ _ _ _ _ _ "StartHiding ''s1''" exampleHiding]
       exampleWaiting_reachable w1 w2 w3
  have p3: "length (hiders exampleHiding) = 1" by blast
  from c1_at_most_one_hider[of exampleWaiting _ _ _ _ _ _ _ _ _ "''s1''" "hd (players exampleWaiting)"
         exampleHiderLeftWaiting ?rest]
       exampleWaiting_reachable w4 w5 w6 w7
  have p4: "hiders exampleHiderLeftWaiting = [(hd (sortedPlayers ?rest))\<lparr>role := Hider\<rparr>]"
    and p5: "map playerId (players exampleHiderLeftWaiting) = map playerId ?rest"
    by blast+
  from p4 w8 have p6: "map playerId (hiders exampleHiderLeftWaiting) = [''s2'']" by simp
  from p1 p2 p3 p5 p6 w1 w2 w3 w4 w5 w6 w7 w9 exampleSeeking_reachable exampleWaiting_reachable
  show ?thesis by simp
qed

section \<open>The reveal queue\<close>

lemma unfoundIds_cong: "players r1 = players r2 \<Longrightarrow> unfoundIds r1 = unfoundIds r2"
  by (simp add: unfoundIds_def)

lemma reveal_idle: "unfoundPlayerQueue r = [] \<Longrightarrow> activeUnfoundPlayerId r = None \<Longrightarrow> inv_reveal r"
  by (simp add: inv_reveal_def reveal_ok_def)

lemma activateNext_reveal_ok:
  "gameState r = GameOver \<Longrightarrow> distinct (unfoundPlayerQueue r) \<Longrightarrow>
   set (unfoundPlayerQueue r) \<subseteq> unfoundIds r \<Longrightarrow> reveal_ok (fst (activateNextUnfoundPlayer r))"
proof (induction r rule: activateNextUnfoundPlayer.induct)
  case (1 r)
  note go = \<open>gameState r = GameOver\<close>
  show ?case
  proof (cases "unfoundPlayerQueue r")
    case Nil
    with go have "activateNextUnfoundPlayer r =
        (r\<lparr>activeUnfoundPlayerId := None\<rparr>, broadcastUpdateState (r\<lparr>activeUnfoundPlayerId := None\<rparr>))"
      by (subst activateNextUnfoundPlayer.simps) (simp add: Let_def)
    with Nil show ?thesis by (simp add: reveal_ok_def)
  next
    case (Cons n rest)
    let ?r2 = "r\<lparr>unfoundPlayerQueue := rest, activeUnfoundPlayerId := Some n\<rparr>"
    have u2: "unfoundIds ?r2 = unfoundIds r" by (simp add: unfoundIds_def)
    from "1.prems" Cons have ok2: "reveal_ok ?r2"
      by (simp add: reveal_ok_def u2)
    show ?thesis
    proof (cases "\<exists>p. getPlayer ?r2 n = Some p \<and> truthy (uniqueUnfoundSoundURL p)")
      case True
      then obtain p where "getPlayer ?r2 n = Some p" "truthy (uniqueUnfoundSoundURL p)" by blast
      with go Cons have "fst (activateNextUnfoundPlayer r) = ?r2"
        by (subst activateNextUnfoundPlayer.simps) (simp add: Let_def)
      with ok2 show ?thesis by simp
    next
      case False
      with go Cons have eq: "activateNextUnfoundPlayer r = activateNextUnfoundPlayer ?r2"
        by (subst activateNextUnfoundPlayer.simps) (auto simp add: Let_def split: option.splits)
      from "1.prems" Cons have pre: "gameState ?r2 = GameOver" "distinct (unfoundPlayerQueue ?r2)"
        "set (unfoundPlayerQueue ?r2) \<subseteq> unfoundIds ?r2"
        by (simp_all add: u2)
      have ng: "\<not> gameState r \<noteq> GameOver" using go by simp
      have "reveal_ok (fst (activateNextUnfoundPlayer ?r2))"
      proof (cases "getPlayer ?r2 n")
        case None
        from "1.IH"(1)[OF ng Cons refl None pre] show ?thesis .
      next
        case (Some p)
        with False have "\<not> truthy (uniqueUnfoundSoundURL p)" by simp
        from "1.IH"(2)[OF ng Cons refl Some this pre] show ?thesis .
      qed
      then show ?thesis by (simp add: eq)
    qed
  qed
qed

lemma distinct_map_insort_key:
  "distinct (map f (insort_key k x xs)) \<longleftrightarrow> f x \<notin> f ` set xs \<and> distinct (map f xs)"
  by (induction xs) (auto simp: set_insort_key)

lemma distinct_map_sort_key: "distinct (map f (sort_key k xs)) \<longleftrightarrow> distinct (map f xs)"
  by (induction xs) (simp_all add: distinct_map_insort_key)

lemma distinct_ids_sortedPlayers:
  "distinct (map playerId ps) \<Longrightarrow> distinct (map playerId (sortedPlayers (filter P ps)))"
  by (simp add: sortedPlayers_def distinct_map_sort_key distinct_map_filter)

lemma clearGameIntervals_players [simp]: "players (clearGameIntervals r) = players r"
  by (simp add: clearGameIntervals_def)

lemma endGame_reveal:
  assumes "inv_reveal r" and "distinct (map playerId (players r))"
  shows "inv_reveal (fst (endGame w r))"
proof (cases "gameState r = GameOver")
  case True
  with assms(1) show ?thesis by (simp add: endGame_def)
next
  case False
  with assms(1) have idle: "unfoundPlayerQueue r = []" "activeUnfoundPlayerId r = None"
    by (auto simp: inv_reveal_def)
  show ?thesis
  proof (cases w)
    case WinnerSeekers
    with False idle show ?thesis
      by (simp add: endGame_def Let_def clearGameIntervals_def reveal_idle)
  next
    case WinnerHider
    let ?r1 = "(clearGameIntervals r)\<lparr>gameState := GameOver, winner := Some WinnerHider\<rparr>"
    let ?r2 = "?r1\<lparr>unfoundPlayerQueue := map playerId (sortedPlayers (filter (\<lambda>p. \<not> isFound p) (players ?r1)))\<rparr>"
    have e: "fst (endGame w r) = fst (activateNextUnfoundPlayer ?r2)"
      using False WinnerHider by (simp add: endGame_def Let_def startGameOverReveal_def)
    have p: "players ?r1 = players r" by (simp add: clearGameIntervals_def)
    have "reveal_ok (fst (activateNextUnfoundPlayer ?r2))"
    proof (rule activateNext_reveal_ok)
      show "gameState ?r2 = GameOver" by simp
      show "distinct (unfoundPlayerQueue ?r2)"
        using distinct_ids_sortedPlayers[OF assms(2)] by (simp add: p)
      show "set (unfoundPlayerQueue ?r2) \<subseteq> unfoundIds ?r2"
        by (simp add: unfoundIds_def sortedPlayers_def p)
    qed
    moreover have "gameState (fst (activateNextUnfoundPlayer ?r2)) = GameOver"
      "winner (fst (activateNextUnfoundPlayer ?r2)) = Some WinnerHider"
      by (simp_all add: activateNext_fields)
    ultimately show ?thesis by (simp add: e inv_reveal_def)
  qed
qed

lemma unfound_updatePlayer_found:
  "set (map playerId (filter (\<lambda>p. \<not> isFound p) (updatePlayer s (\<lambda>p. p\<lparr>isFound := True\<rparr>) ps)))
     = set (map playerId (filter (\<lambda>p. \<not> isFound p) ps)) - {s}"
  by (induction ps) (auto simp: updatePlayer_def)

lemma unfoundIds_found:
  "unfoundIds (r\<lparr>players := updatePlayer s (\<lambda>p. p\<lparr>isFound := True\<rparr>) (players r)\<rparr>) = unfoundIds r - {s}"
  using unfound_updatePlayer_found[of s "players r"] by (simp add: unfoundIds_def)

lemma unfoundIds_deleted: "unfoundIds (playerDeleted s dp r) = unfoundIds r - {s}"
  by (auto simp: unfoundIds_def)

lemma unfoundIds_updatePlayer_same:
  "(\<And>p. playerId (f p) = playerId p) \<Longrightarrow> (\<And>p. isFound (f p) = isFound p) \<Longrightarrow>
   set (map playerId (filter (\<lambda>p. \<not> isFound p) (updatePlayer s f ps)))
     = set (map playerId (filter (\<lambda>p. \<not> isFound p) ps))"
  by (induction ps) (auto simp: updatePlayer_def)

lemma inv_reveal_same:
  assumes "inv_reveal r" and "unfoundIds r1 = unfoundIds r"
    and "unfoundPlayerQueue r1 = unfoundPlayerQueue r"
    and "activeUnfoundPlayerId r1 = activeUnfoundPlayerId r"
    and "gameState r1 = gameState r" and "winner r1 = winner r"
  shows "inv_reveal r1"
  using assms by (auto simp add: inv_reveal_def reveal_ok_def split: option.splits)

lemma reveal_ok_found_other:
  assumes "reveal_ok r" and "Some s \<noteq> activeUnfoundPlayerId r"
  shows "reveal_ok (r\<lparr>players := updatePlayer s (\<lambda>p. p\<lparr>isFound := True\<rparr>) (players r),
                     unfoundPlayerQueue := remove1 s (unfoundPlayerQueue r)\<rparr>)"
proof -
  let ?ra = "r\<lparr>players := updatePlayer s (\<lambda>p. p\<lparr>isFound := True\<rparr>) (players r)\<rparr>"
  have u: "unfoundIds (?ra\<lparr>unfoundPlayerQueue := remove1 s (unfoundPlayerQueue r)\<rparr>) = unfoundIds r - {s}"
    using unfoundIds_found[where r=r and s=s] by (simp add: unfoundIds_def)
  from assms show ?thesis
    unfolding reveal_ok_def u
    by (auto split: option.splits)
qed

lemma reveal_ok_found_active:
  assumes "reveal_ok r" and "Some s = activeUnfoundPlayerId r" and "gameState r = GameOver"
  shows "reveal_ok (fst (activateNextUnfoundPlayer
                           (r\<lparr>players := updatePlayer s (\<lambda>p. p\<lparr>isFound := True\<rparr>) (players r)\<rparr>)))"
proof (rule activateNext_reveal_ok)
  let ?ra = "r\<lparr>players := updatePlayer s (\<lambda>p. p\<lparr>isFound := True\<rparr>) (players r)\<rparr>"
  show "gameState ?ra = GameOver" using assms(3) by simp
  show "distinct (unfoundPlayerQueue ?ra)" using assms(1) by (simp add: reveal_ok_def)
  from assms(1,2) have "s \<notin> set (unfoundPlayerQueue r)" "set (unfoundPlayerQueue r) \<subseteq> unfoundIds r"
    by (auto simp: reveal_ok_def split: option.splits)
  then show "set (unfoundPlayerQueue ?ra) \<subseteq> unfoundIds ?ra"
    by (auto simp: unfoundIds_found)
qed

lemma reveal_ok_deleted_other:
  assumes "reveal_ok r" and "Some s \<noteq> activeUnfoundPlayerId r"
  shows "reveal_ok ((playerDeleted s dp r)\<lparr>unfoundPlayerQueue := remove1 s (unfoundPlayerQueue r)\<rparr>)"
proof -
  have u: "unfoundIds ((playerDeleted s dp r)\<lparr>unfoundPlayerQueue := remove1 s (unfoundPlayerQueue r)\<rparr>)
             = unfoundIds r - {s}"
    using unfoundIds_deleted[where r=r and s=s and dp=dp] by (simp add: unfoundIds_def)
  from assms show ?thesis
    unfolding reveal_ok_def u
    by (auto split: option.splits)
qed

lemma reveal_ok_deleted_active:
  assumes "reveal_ok r" and "gameState r = GameOver"
  shows "reveal_ok (fst (activateNextUnfoundPlayer
                      ((playerDeleted s dp r)\<lparr>unfoundPlayerQueue := remove1 s (unfoundPlayerQueue r)\<rparr>)))"
proof (rule activateNext_reveal_ok)
  let ?r2 = "(playerDeleted s dp r)\<lparr>unfoundPlayerQueue := remove1 s (unfoundPlayerQueue r)\<rparr>"
  have u: "unfoundIds ?r2 = unfoundIds r - {s}"
    using unfoundIds_deleted[where r=r and s=s and dp=dp] by (simp add: unfoundIds_def)
  show "gameState ?r2 = GameOver" using assms(2) by simp
  show "distinct (unfoundPlayerQueue ?r2)" using assms(1) by (simp add: reveal_ok_def)
  from assms(1) show "set (unfoundPlayerQueue ?r2) \<subseteq> unfoundIds ?r2"
    unfolding u by (auto simp: reveal_ok_def)
qed

lemma inv_reveal_markSelfFound:
  assumes "inv_base r" and "inv_reveal r"
  shows "inv_reveal (fst (on_markSelfFound s r))"
proof (cases "getPlayer r s")
  case None
  with assms(2) show ?thesis by (simp add: on_markSelfFound_def)
next
  case (Some p)
  let ?ra = "r\<lparr>players := updatePlayer s (\<lambda>p. p\<lparr>isFound := True\<rparr>) (players r)\<rparr>"
  from assms(1) have dist: "distinct (map playerId (players ?ra))"
    by (simp add: inv_base_def map_playerId_updatePlayer)
  show ?thesis
  proof (cases "isFound p \<or> (gameState r \<noteq> Seeking \<and> \<not> (gameState r = GameOver \<and> winner r = Some WinnerHider))")
    case True
    with Some assms(2) show ?thesis
      by (auto simp: on_markSelfFound_def markPlayerFound_def)
  next
    case False
    then have nf: "\<not> isFound p" by simp
    show ?thesis
    proof (cases "gameState r = Seeking")
      case True
      with assms(2) have idle: "unfoundPlayerQueue r = []" "activeUnfoundPlayerId r = None"
        by (auto simp: inv_reveal_def)
      then have ia: "inv_reveal ?ra" by (simp add: reveal_idle)
      have res: "fst (on_markSelfFound s r) = fst (snd (checkSeekerWin ?ra))"
        using Some nf True
        by (simp add: on_markSelfFound_def markPlayerFound_def Let_def split_beta)
      have "inv_reveal (fst (snd (checkSeekerWin ?ra)))"
        using endGame_reveal[OF ia dist, of WinnerSeekers] ia
        by (simp add: checkSeekerWin_def split_beta)
      with res show ?thesis by simp
    next
      case ns: False
      with False have go: "gameState r = GameOver" and wh: "winner r = Some WinnerHider" by auto
      from assms(2) have ok: "reveal_ok r" by (simp add: inv_reveal_def)
      show ?thesis
      proof (cases "Some s = activeUnfoundPlayerId r")
        case True
        have res: "fst (on_markSelfFound s r) = fst (activateNextUnfoundPlayer ?ra)"
          using Some nf go wh True
          by (simp add: on_markSelfFound_def markPlayerFound_def Let_def)
        from reveal_ok_found_active[OF ok True go] go wh show ?thesis
          by (simp add: res inv_reveal_def activateNext_fields)
      next
        case na: False
        have res: "fst (on_markSelfFound s r)
                     = ?ra\<lparr>unfoundPlayerQueue := remove1 s (unfoundPlayerQueue r)\<rparr>"
          using Some nf go wh na
          by (simp add: on_markSelfFound_def markPlayerFound_def Let_def)
        from reveal_ok_found_other[OF ok na] go wh show ?thesis
          by (simp add: res inv_reveal_def)
      qed
    qed
  qed
qed

lemma inv_reveal_removePlayer:
  assumes "inv_base r" and "inv_reveal r" and "\<not> fst (removePlayer s r)"
  shows "inv_reveal (fst (snd (removePlayer s r)))"
proof (cases "getPlayer r s")
  case None
  with assms show ?thesis by (simp add: removePlayer_absent)
next
  case (Some dp)
  let ?d = "playerDeleted s dp r"
  from assms(3) Some have ne: "filter (\<lambda>p. playerId p \<noteq> s) (players r) \<noteq> []"
    using removePlayer_last by blast
  from inv_base_playerDeleted[OF assms(1) ne, of dp]
  have dist: "distinct (map playerId (players ?d))" by simp
  from assms(2) have ok: "reveal_ok r" by (simp add: inv_reveal_def)
  have idle: "gameState r \<noteq> GameOver \<or> winner r \<noteq> Some WinnerHider \<Longrightarrow>
              unfoundPlayerQueue r = [] \<and> activeUnfoundPlayerId r = None"
    using assms(2) by (auto simp: inv_reveal_def)
  show ?thesis
  proof (cases "gameState r")
    case Waiting
    with idle show ?thesis
      by (simp add: removePlayer_Waiting(2)[OF Some ne Waiting] reveal_idle promoteNewHider_fields)
  next
    case Hiding
    with idle show ?thesis
      by (simp add: removePlayer_Hiding(2)[OF Some ne Hiding] reveal_idle startPreSeekCountdown_def)
  next
    case Seeking
    with idle have ia: "inv_reveal ?d" by (simp add: reveal_idle)
    from endGame_reveal[OF ia dist, of WinnerSeekers] ia show ?thesis
      by (simp add: removePlayer_Seeking(2)[OF Some ne Seeking] checkSeekerWin_def split_beta)
  next
    case GameOver
    show ?thesis
    proof (cases "winner r = Some WinnerHider")
      case False
      with idle GameOver show ?thesis
        by (simp add: removePlayer_GameOver(2)[OF Some ne GameOver] reveal_idle)
    next
      case wh: True
      show ?thesis
      proof (cases "Some s = activeUnfoundPlayerId r")
        case True
        from reveal_ok_deleted_active[OF ok GameOver, of s dp] GameOver wh True show ?thesis
          by (simp add: removePlayer_GameOver(2)[OF Some ne GameOver] inv_reveal_def
                activateNext_fields)
      next
        case False
        from reveal_ok_deleted_other[OF ok False, of dp] GameOver wh False show ?thesis
          by (simp add: removePlayer_GameOver(2)[OF Some ne GameOver] inv_reveal_def)
      qed
    qed
  qed
qed

lemma assignUniqueSounds_reveal_fields:
  "unfoundPlayerQueue (fst (assignUniqueSounds a u r p)) = unfoundPlayerQueue r"
  "activeUnfoundPlayerId (fst (assignUniqueSounds a u r p)) = activeUnfoundPlayerId r"
  "winner (fst (assignUniqueSounds a u r p)) = winner r"
  by (simp_all add: assignUniqueSounds_def Let_def)

lemma inv_reveal_joinRoom:
  assumes "inv_reveal r"
  shows "inv_reveal (fst (on_joinRoom s a u r))"
proof (cases "gameState r \<noteq> Waiting \<or> getPlayer r s \<noteq> None")
  case True
  with assms show ?thesis by (auto simp: on_joinRoom_def addPlayer_def)
next
  case False
  with assms have idle: "unfoundPlayerQueue r = []" "activeUnfoundPlayerId r = None"
    by (auto simp: inv_reveal_def)
  from False idle show ?thesis
    by (auto simp: on_joinRoom_def addPlayer_def Let_def split_beta
          assignUniqueSounds_reveal_fields intro!: reveal_idle)
qed

lemma inv_reveal_updateSettings:
  assumes "inv_reveal r"
  shows "inv_reveal (fst (on_updateSettings s st r))"
  using assms
proof (rule inv_reveal_same)
  show "unfoundIds (fst (on_updateSettings s st r)) = unfoundIds r"
    by (auto simp: on_updateSettings_def updateSettings_def Let_def unfoundIds_def
        split: option.splits if_splits setting_value.splits sum.splits)
qed (auto simp: on_updateSettings_def updateSettings_def Let_def
      split: option.splits if_splits setting_value.splits sum.splits)

lemma inv_reveal_startHiding: "inv_reveal r \<Longrightarrow> inv_reveal (fst (on_startHiding s r))"
  by (auto simp: on_startHiding_def startHidingPhase_def Let_def clearGameIntervals_def
        inv_reveal_def reveal_ok_def
      split: option.splits if_splits)

lemma inv_reveal_confirmHidden: "inv_reveal r \<Longrightarrow> inv_reveal (fst (on_confirmHidden s r))"
proof (rule inv_reveal_same)
  show "unfoundIds (fst (on_confirmHidden s r)) = unfoundIds r"
    using unfoundIds_updatePlayer_same[of "\<lambda>p. p\<lparr>isReady := True\<rparr>" s "players r"]
    by (auto simp: on_confirmHidden_def confirmPlayerHidden_def Let_def startPreSeekCountdown_def
          unfoundIds_def split: option.splits if_splits)
qed (auto simp: on_confirmHidden_def confirmPlayerHidden_def Let_def startPreSeekCountdown_def
      split: option.splits if_splits)

lemma inv_reveal_requestPlayAgain:
  "inv_reveal r \<Longrightarrow> inv_reveal (fst (on_requestPlayAgain s rnd r))"
  by (auto simp: on_requestPlayAgain_def requestPlayAgain_def resetForNewGame_def
         Let_def split_beta reassignAll_room clearGameIntervals_def reveal_idle
      split: option.splits if_splits)

lemma inv_reveal_handleDisconnect:
  "inv_base r \<Longrightarrow> inv_reveal r \<Longrightarrow> fst (handleDisconnect s r) = Some r1 \<Longrightarrow> inv_reveal r1"
  using inv_reveal_removePlayer[of r s]
  by (auto simp: handleDisconnect_def split_beta split: option.splits if_splits)

lemma inv_reveal_countdownTick:
  assumes "inv_base r" and "inv_reveal r" and "preSeekCountdownInterval r \<noteq> None"
  shows "inv_reveal (fst (preSeekCountdownTick True now r))"
proof -
  from assms(1,3) have "gameState r = Hiding" by (simp add: inv_base_def)
  with assms(2) have "unfoundPlayerQueue r = []" "activeUnfoundPlayerId r = None"
    by (auto simp: inv_reveal_def)
  then show ?thesis
    by (auto simp: preSeekCountdownTick_def Let_def split_beta startSeekingPhase_fields
          intro!: reveal_idle)
qed

lemma inv_reveal_seekTimerTick:
  assumes "inv_base r" and "inv_reveal r"
  shows "inv_reveal (fst (seekTimerTick True now r))"
proof (cases "gameState r = Seeking \<and> now - startTimeMs r \<ge> seekTimeLimit r * 1000")
  case True
  from assms(1) have "distinct (map playerId (players r))" by (simp add: inv_base_def)
  from endGame_reveal[OF assms(2) this, of WinnerHider] True show ?thesis
    by (simp add: seekTimerTick_def)
next
  case False
  from assms(2) show ?thesis
    by (rule inv_reveal_same) (use False in \<open>auto simp: seekTimerTick_def unfoundIds_def\<close>)
qed

lemma inv_reveal_soundTimeout:
  "inv_reveal r \<Longrightarrow> inv_reveal (fst (soundRotationTimeoutFired True now r))"
proof (rule inv_reveal_same)
  show "unfoundIds (fst (soundRotationTimeoutFired True now r)) = unfoundIds r"
    using unfoundIds_updatePlayer_same[of "\<lambda>p. p\<lparr>soundsPlayed := soundsPlayed p + 1\<rparr>" _ "players r"]
    by (auto simp: soundRotationTimeoutFired_def scheduleNextSound_def Let_def unfoundIds_def)
qed (simp_all add: soundRotationTimeoutFired_def scheduleNextSound_fields)

lemma inv_reveal_step:
  assumes "inv_base r" and "inv_reveal r" and "fst (step e r) = Some r1"
  shows "inv_reveal r1"
proof (cases e)
  case (JoinRoom s a u)
  with assms inv_reveal_joinRoom[of r s a u] show ?thesis by (simp add: split_beta)
next
  case (Disconnect s)
  with assms inv_reveal_handleDisconnect[of r s r1] show ?thesis by simp
next
  case (UpdateSettings s st)
  with assms inv_reveal_updateSettings[of r s st] show ?thesis by (simp add: split_beta)
next
  case (StartHiding s)
  with assms inv_reveal_startHiding[of r s] show ?thesis by (simp add: split_beta)
next
  case (ConfirmHidden s)
  with assms inv_reveal_confirmHidden[of r s] show ?thesis by (simp add: split_beta)
next
  case (MarkSelfFound s)
  with assms inv_reveal_markSelfFound[of r s] show ?thesis by (simp add: split_beta)
next
  case (RequestPlayAgain s rnd)
  with assms inv_reveal_requestPlayAgain[of r s rnd] show ?thesis by (simp add: split_beta)
next
  case (CountdownTick now)
  with assms inv_reveal_countdownTick[of r now] show ?thesis
    by (auto simp add: split_beta split: if_splits)
next
  case (SeekTimerTick now)
  with assms inv_reveal_seekTimerTick[of r now] show ?thesis
    by (auto simp add: split_beta split: if_splits)
next
  case (SoundTimeout now)
  with assms inv_reveal_soundTimeout[of r now] show ?thesis
    by (auto simp add: split_beta split: if_splits)
qed

lemma inv_reveal_created: "createRoom code s a u = Inr (p, r, es) \<Longrightarrow> inv_reveal r"
  using createRoom_result[of code s a u p r es]
  by (simp add: reveal_idle newRoom_assign_fields)

lemma reachable_inv_reveal: "reachable r \<Longrightarrow> inv_reveal r"
  by (induction rule: reachable.induct)
     (auto intro: inv_reveal_created inv_reveal_step reachable_inv_base)

lemma unfoundIds_member:
  assumes "distinct (map playerId (players r))" and "i \<in> unfoundIds r"
  shows "unfoundMember r i"
proof -
  from assms(2) obtain p where p: "p \<in> set (players r)" "\<not> isFound p" "playerId p = i"
    by (auto simp: unfoundIds_def)
  then have "getPlayer r i \<noteq> None" by (auto simp: getPlayer_None_iff)
  then obtain q where q: "getPlayer r i = Some q" by auto
  then have "q \<in> set (players r)" "playerId q = i" by (auto dest: getPlayer_SomeD)
  with p assms(1) have "q = p" using same_id_same_player by metis
  with q p show ?thesis by (simp add: unfoundMember_def)
qed

lemma found_not_unfoundId:
  assumes "distinct (map playerId (players r))" and "p \<in> set (players r)" and "isFound p"
  shows "playerId p \<notin> unfoundIds r"
proof
  assume "playerId p \<in> unfoundIds r"
  then obtain q where q: "q \<in> set (players r)" "\<not> isFound q" "playerId q = playerId p"
    by (auto simp: unfoundIds_def)
  with assms(1,2) have "q = p" using same_id_same_player by metis
  with q assms(3) show False by simp
qed

lemma inv_revealConsistent:
  assumes "inv_base r" and "inv_reveal r"
  shows "revealConsistent r"
proof -
  from assms(1) have d: "distinct (map playerId (players r))" by (simp add: inv_base_def)
  from assms(2) have ok: "reveal_ok r" by (simp add: inv_reveal_def)
  have 1: "\<forall>i\<in>set (unfoundPlayerQueue r). unfoundMember r i"
    using ok unfoundIds_member[OF d] by (auto simp: reveal_ok_def)
  have 2: "\<forall>p\<in>set (players r). isFound p \<longrightarrow> playerId p \<notin> set (unfoundPlayerQueue r)"
    using ok found_not_unfoundId[OF d] by (auto simp: reveal_ok_def)
  have 3: "case activeUnfoundPlayerId r of None \<Rightarrow> True
           | Some a \<Rightarrow> unfoundMember r a \<and> a \<notin> set (unfoundPlayerQueue r)"
    using ok unfoundIds_member[OF d] by (auto simp: reveal_ok_def split: option.splits)
  from 1 2 3 show ?thesis by (simp add: revealConsistent_def)
qed

lemma reachable_revealConsistent: "reachable r \<Longrightarrow> revealConsistent r"
  by (simp add: inv_revealConsistent reachable_inv_base reachable_inv_reveal)

lemma handleDisconnect_gone:
  assumes "distinct (map playerId (players r))" and "fst (handleDisconnect s r) = Some r1"
  shows "getPlayer r1 s = None"
proof (cases "getPlayer r s")
  case None
  with assms(2) show ?thesis by (simp add: handleDisconnect_def)
next
  case (Some dp)
  with assms(2) have nd: "\<not> fst (removePlayer s r)" and r1: "r1 = fst (snd (removePlayer s r))"
    by (auto simp: handleDisconnect_def split_beta split: if_splits)
  from nd Some have ne: "filter (\<lambda>p. playerId p \<noteq> s) (players r) \<noteq> []"
    using removePlayer_last by blast
  have "map playerId (players r1) = map playerId (filter (\<lambda>p. playerId p \<noteq> s) (players r))"
  proof (cases "gameState r = Waiting")
    case True
    show ?thesis
      by (simp add: r1 removePlayer_Waiting(2)[OF Some ne True] promoteNewHider_fields)
  next
    case False
    show ?thesis by (simp add: r1 removePlayer_players_midgame[OF Some ne False])
  qed
  then have "s \<notin> set (map playerId (players r1))" by auto
  then show ?thesis by (simp add: getPlayer_None_iff)
qed

lemma exampleHiderWon_reachable: "reachable exampleHiderWon"
proof -
  have "run [SeekTimerTick 130000] exampleSeeking = Some exampleHiderWon" by code_simp
  with exampleSeeking_reachable show ?thesis by (rule reachable_run)
qed

text \<open>
  Claim C8. In every reachable room, every id in \<open>unfoundPlayerQueue\<close> is the id of a
  player present and not found, so the queue holds no id of a found player, and
  \<open>activeUnfoundPlayerId\<close>, when set, is the id of a player present and not found (and
  no longer queued). The room after a mark-found and the room after a disconnect satisfy
  the same, and after the disconnect of \<open>s\<close> that id is neither queued nor active.
\<close>

theorem c8_reveal_queue_consistent:
  assumes "reachable r"
  shows "revealConsistent r
       \<and> (fst (step (MarkSelfFound s) r) = Some r1 \<longrightarrow> revealConsistent r1)
       \<and> (fst (step (Disconnect s) r) = Some r2 \<longrightarrow>
            revealConsistent r2 \<and> getPlayer r2 s = None
            \<and> s \<notin> set (unfoundPlayerQueue r2) \<and> activeUnfoundPlayerId r2 \<noteq> Some s)"
proof (intro conjI impI)
  show "revealConsistent r" using assms by (rule reachable_revealConsistent)
next
  assume "fst (step (MarkSelfFound s) r) = Some r1"
  with assms have "reachable r1" by (rule reachable.stepped)
  then show "revealConsistent r1" by (rule reachable_revealConsistent)
next
  assume st: "fst (step (Disconnect s) r) = Some r2"
  with assms have "reachable r2" by (rule reachable.stepped)
  then show c: "revealConsistent r2" by (rule reachable_revealConsistent)
  from assms have "distinct (map playerId (players r))"
    using reachable_inv_base by (auto simp: inv_base_def)
  with st show g: "getPlayer r2 s = None" by (simp add: handleDisconnect_gone)
  from c g show "s \<notin> set (unfoundPlayerQueue r2)"
    by (auto simp: revealConsistent_def unfoundMember_def)
  from c g show "activeUnfoundPlayerId r2 \<noteq> Some s"
    by (auto simp: revealConsistent_def unfoundMember_def)
qed

theorem c8_witness:
  "reachable exampleHiderWon
   \<and> unfoundPlayerQueue exampleHiderWon = [''s2'']
   \<and> activeUnfoundPlayerId exampleHiderWon = Some ''s1''
   \<and> revealConsistent exampleHiderWon
   \<and> map_option activeUnfoundPlayerId (fst (step (MarkSelfFound ''s1'') exampleHiderWon))
       = Some (Some ''s2'')
   \<and> map_option unfoundPlayerQueue (fst (step (MarkSelfFound ''s1'') exampleHiderWon)) = Some []
   \<and> revealConsistent (fst (on_markSelfFound ''s1'' exampleHiderWon))
   \<and> map_option unfoundPlayerQueue (fst (step (Disconnect ''s2'') exampleHiderWon)) = Some []
   \<and> map_option activeUnfoundPlayerId (fst (step (Disconnect ''s2'') exampleHiderWon))
       = Some (Some ''s1'')
   \<and> revealConsistent (fst (snd (removePlayer ''s2'' exampleHiderWon)))"
proof -
  have a: "unfoundPlayerQueue exampleHiderWon = [''s2'']"
    "activeUnfoundPlayerId exampleHiderWon = Some ''s1''"
    by code_simp+
  have m: "fst (step (MarkSelfFound ''s1'') exampleHiderWon)
             = Some (fst (on_markSelfFound ''s1'' exampleHiderWon))"
    by (simp add: split_beta)
  have m2: "activeUnfoundPlayerId (fst (on_markSelfFound ''s1'' exampleHiderWon)) = Some ''s2''"
    "unfoundPlayerQueue (fst (on_markSelfFound ''s1'' exampleHiderWon)) = []"
    by code_simp+
  have d: "fst (step (Disconnect ''s2'') exampleHiderWon)
             = Some (fst (snd (removePlayer ''s2'' exampleHiderWon)))"
    by code_simp
  have d2: "unfoundPlayerQueue (fst (snd (removePlayer ''s2'' exampleHiderWon))) = []"
    "activeUnfoundPlayerId (fst (snd (removePlayer ''s2'' exampleHiderWon))) = Some ''s1''"
    by code_simp+
  from c8_reveal_queue_consistent[OF exampleHiderWon_reachable,
         of "''s1''" "fst (on_markSelfFound ''s1'' exampleHiderWon)"] m
  have p1: "revealConsistent exampleHiderWon"
    and p2: "revealConsistent (fst (on_markSelfFound ''s1'' exampleHiderWon))"
    by blast+
  from c8_reveal_queue_consistent[OF exampleHiderWon_reachable,
         of "''s2''" _ "fst (snd (removePlayer ''s2'' exampleHiderWon))"] d
  have p3: "revealConsistent (fst (snd (removePlayer ''s2'' exampleHiderWon)))"
    by blast
  from exampleHiderWon_reachable a m m2 d d2 p1 p2 p3 show ?thesis by simp
qed

end
